theory Spec2Isabelle
  imports Complex_Main "HOL-Library.AList" "HOL-Library.Sublist"
begin

section \<open>Python values\<close>

text \<open>
  The scheduler is dynamically typed: the request body and every response of the
  Filestore service are parsed JSON. One datatype holds the values the two modules
  handle. A dictionary is an association list read with \<open>map_of\<close>; a string is
  a \<open>char list\<close>, one \<open>char\<close> per character. A finite float is the rational it
  denotes.
\<close>

datatype pyfloat = Finite rat | PosInf | NegInf | NaN

datatype pyval =
    PNone
  | PBool bool
  | PInt int
  | PFloat pyfloat
  | PStr string
  | PList "pyval list"
  | PDict "(string \<times> pyval) list"

text \<open>
  Exceptions are values. \<open>GoogleApiError\<close> is \<open>googleapiclient.errors.Error\<close> with
  the attributes \<open>status_code\<close> and \<open>reason\<close> when the instance has them;
  \<open>SocketTimeout\<close> is \<open>socket.timeout\<close>; \<open>BadRequest\<close> is
  \<open>werkzeug.exceptions.BadRequest\<close>; \<open>OtherException\<close> is anything else a
  collaborator raises.
\<close>

datatype py_error =
    GoogleApiError "int option" "string option"
  | SocketTimeout
  | InstanceNotFoundError
  | BadRequest
  | AttributeError
  | KeyError
  | TypeError
  | ValueError
  | OverflowError
  | OtherException string

type_synonym 'a result = "py_error + 'a"

definition py_then :: "'a result \<Rightarrow> ('a \<Rightarrow> 'b result) \<Rightarrow> 'b result" where
  "py_then r f = (case r of Inl err \<Rightarrow> Inl err | Inr v \<Rightarrow> f v)"

text \<open>Truth value testing, as \<open>if x:\<close> and \<open>not x\<close> do it.\<close>

fun py_bool :: "pyval \<Rightarrow> bool" where
  "py_bool PNone = False"
| "py_bool (PBool b) = b"
| "py_bool (PInt n) = (n \<noteq> 0)"
| "py_bool (PFloat (Finite q)) = (q \<noteq> 0)"
| "py_bool (PFloat _) = True"
| "py_bool (PStr s) = (s \<noteq> [])"
| "py_bool (PList xs) = (xs \<noteq> [])"
| "py_bool (PDict kvs) = (kvs \<noteq> [])"

text \<open>\<open>x.get(key, default)\<close>: only a dict has the method.\<close>

fun py_get :: "pyval \<Rightarrow> string \<Rightarrow> pyval \<Rightarrow> pyval result" where
  "py_get (PDict kvs) k d = Inr (case map_of kvs k of None \<Rightarrow> d | Some v \<Rightarrow> v)"
| "py_get _ k d = Inl AttributeError"

text \<open>\<open>x[key]\<close> with a string key: a dict looks it up, every other value refuses it.\<close>

fun py_getitem :: "pyval \<Rightarrow> string \<Rightarrow> pyval result" where
  "py_getitem (PDict kvs) k = (case map_of kvs k of None \<Rightarrow> Inl KeyError | Some v \<Rightarrow> Inr v)"
| "py_getitem _ k = Inl TypeError"

text \<open>\<open>len(x)\<close>.\<close>

fun py_len :: "pyval \<Rightarrow> int result" where
  "py_len (PStr s) = Inr (int (length s))"
| "py_len (PList xs) = Inr (int (length xs))"
| "py_len (PDict kvs) = Inr (int (length (remdups (map fst kvs))))"
| "py_len _ = Inl TypeError"

text \<open>\<open>for x in v\<close>: the elements of a list, the keys of a dict, the characters of a string.\<close>

fun py_iter :: "pyval \<Rightarrow> pyval list result" where
  "py_iter (PList xs) = Inr xs"
| "py_iter (PDict kvs) = Inr (map PStr (remdups (map fst kvs)))"
| "py_iter (PStr s) = Inr (map (\<lambda>c. PStr [c]) s)"
| "py_iter _ = Inl TypeError"

text \<open>\<open>pat in s\<close> on two strings: \<open>pat\<close> occurs in \<open>s\<close> as a contiguous run.\<close>

fun str_contains :: "string \<Rightarrow> string \<Rightarrow> bool" where
  "str_contains pat [] = (pat = [])"
| "str_contains pat (c # cs) = (prefix pat (c # cs) \<or> str_contains pat cs)"

text \<open>\<open>pat in x\<close> for a string \<open>pat\<close>: substring of a string, element of a list, key of a dict.\<close>

fun py_contains :: "string \<Rightarrow> pyval \<Rightarrow> bool result" where
  "py_contains pat (PStr s) = Inr (str_contains pat s)"
| "py_contains pat (PList xs) = Inr (PStr pat \<in> set xs)"
| "py_contains pat (PDict kvs) = Inr (pat \<in> set (map fst kvs))"
| "py_contains pat _ = Inl TypeError"

text \<open>\<open>s.lstrip("/")\<close>, \<open>s.strip("/")\<close> and \<open>s.split("/")\<close>.\<close>

definition lstrip :: "char \<Rightarrow> string \<Rightarrow> string" where
  "lstrip c s = dropWhile (\<lambda>x. x = c) s"

definition strip :: "char \<Rightarrow> string \<Rightarrow> string" where
  "strip c s = rev (dropWhile (\<lambda>x. x = c) (rev (dropWhile (\<lambda>x. x = c) s)))"

fun split :: "char \<Rightarrow> string \<Rightarrow> string list" where
  "split sep [] = [[]]"
| "split sep (c # cs) =
     (if c = sep then [] # split sep cs
      else (case split sep cs of [] \<Rightarrow> [[c]] | x # xs \<Rightarrow> (c # x) # xs))"

subsection \<open>\<open>int(x)\<close>\<close>

text \<open>
  \<open>int\<close> of a string strips white space, reads an optional sign and then decimal
  digits, where single underscores may stand between digits; anything else is a
  \<open>ValueError\<close>, and so is a numeral of more than \<open>INT_MAX_STR_DIGITS\<close> digits (the
  default of \<open>sys.set_int_max_str_digits\<close>). \<open>int\<close> of a float truncates towards zero.

  A string is a list of code points below 256. Of these \<open>int\<close> strips the ASCII white
  space (tab, line feed, vertical tab, form feed, carriage return, space) and the two
  code points above 127 that are Unicode white space (133 and 160); the separators 28
  to 31 are not stripped, though \<open>str.isspace\<close> holds of them.
\<close>

definition is_space :: "char \<Rightarrow> bool" where
  "is_space c = ((of_char c :: nat) \<in> {9, 10, 11, 12, 13, 32, 133, 160})"

definition is_digit :: "char \<Rightarrow> bool" where
  "is_digit c = (48 \<le> (of_char c :: nat) \<and> (of_char c :: nat) \<le> 57)"

definition digit_value :: "char \<Rightarrow> nat" where
  "digit_value c = (of_char c :: nat) - 48"

fun digits_from :: "nat \<Rightarrow> string \<Rightarrow> nat option" where
  "digits_from acc [] = Some acc"
| "digits_from acc [c] = (if is_digit c then Some (acc * 10 + digit_value c) else None)"
| "digits_from acc (c # d # cs) =
     (if is_digit c then
        (if d = CHR ''_'' then
           (if cs = [] then None else digits_from (acc * 10 + digit_value c) cs)
         else digits_from (acc * 10 + digit_value c) (d # cs))
      else None)"

definition INT_MAX_STR_DIGITS :: nat where
  "INT_MAX_STR_DIGITS = 4300"

definition int_of_str :: "string \<Rightarrow> int result" where
  "int_of_str s =
     (let t = rev (dropWhile is_space (rev (dropWhile is_space s)));
          (neg, ds) = (case t of [] \<Rightarrow> (False, [])
                       | c # cs \<Rightarrow> if c = CHR ''-'' then (True, cs)
                                  else if c = CHR ''+'' then (False, cs) else (False, t))
      in if ds = [] then Inl ValueError
         else if INT_MAX_STR_DIGITS < length (filter is_digit ds) then Inl ValueError
         else (case digits_from 0 ds of None \<Rightarrow> Inl ValueError
               | Some n \<Rightarrow> Inr (if neg then - int n else int n)))"

fun py_int :: "pyval \<Rightarrow> int result" where
  "py_int (PInt n) = Inr n"
| "py_int (PBool b) = Inr (if b then 1 else 0)"
| "py_int (PStr s) = int_of_str s"
| "py_int (PFloat (Finite q)) = Inr (if 0 \<le> q then \<lfloor>q\<rfloor> else \<lceil>q\<rceil>)"
| "py_int (PFloat NaN) = Inl ValueError"
| "py_int (PFloat _) = Inl OverflowError"
| "py_int _ = Inl TypeError"

section \<open>The Filestore service, the clock and the trace\<close>

text \<open>
  The remote service is an opaque collaborator. A request is one
  \<open>request.execute()\<close> of the client (\<open>BuildClient\<close> is \<open>discovery.build\<close> with
  the default credentials); its outcome is a response or an exception, and may depend
  on everything that happened before. The trace records each entry into a decorated
  (retried) method, each request and each \<open>time.sleep\<close>, the latter by its call site.
\<close>

datatype request =
    BuildClient
  | GetInstance string
  | GetOperation string
  | ListSnapshots string
  | CreateSnapshot string string
  | DeleteSnapshot pyval

datatype opname = GetInstanceOp | GetOperationOp | ListSnapshotsOp | CreateSnapshotOp | DeleteSnapshotOp

datatype event =
    Call opname
  | Request request
  | RetrySleep nat
  | MonitorSleep nat

record struct_time =
  tm_year :: int
  tm_mon :: int
  tm_mday :: int
  tm_hour :: int
  tm_min :: int
  tm_sec :: int

text \<open>
  The environment of a run: the service, the clock read by
  \<open>time.strftime(TIME_PATTERN)\<close>, and the library functions
  \<open>time.strptime(_, TIME_PATTERN)\<close> and \<open>int(time.mktime(_))\<close>, which depend on
  the platform's time zone.
\<close>

record env =
  service :: "event list \<Rightarrow> request \<Rightarrow> pyval result"
  strftime :: "event list \<Rightarrow> string"
  strptime :: "string \<Rightarrow> struct_time result"
  mktime :: "struct_time \<Rightarrow> int result"

section \<open>Module \<open>filestore_instance\<close>\<close>

definition SNAP_PREFIX :: string where
  "SNAP_PREFIX = ''sched-''"

definition SUPPORTED_TIERS :: "string list" where
  "SUPPORTED_TIERS = [''ENTERPRISE'', ''HIGH_SCALE_SSD'']"

definition MAX_NUMBER_OF_SNAPSHOTS :: int where
  "MAX_NUMBER_OF_SNAPSHOTS = 240"

definition MAX_RETRIES :: nat where
  "MAX_RETRIES = 3"

text \<open>
  The attributes of a \<open>FilestoreInstance\<close>. The five API resource handles
  (\<open>project\<close> to \<open>snapshot\<close>) carry no data of their own and are left out.
\<close>

record FilestoreInstance =
  retention_policy :: string
  url :: string
  name :: string
  max_snapshots :: int
  filestore_instance_json :: pyval
  snapshots :: pyval
  scheduler_snapshots :: "pyval list"
  oldest_sched_snapshot :: pyval

text \<open>The state a method runs in: the object and the trace so far.\<close>

record world =
  self :: FilestoreInstance
  trace :: "event list"

definition emit :: "event \<Rightarrow> world \<Rightarrow> world" where
  "emit ev w = w\<lparr>trace := trace w @ [ev]\<rparr>"

definition execute :: "env \<Rightarrow> request \<Rightarrow> world \<Rightarrow> pyval result \<times> world" where
  "execute e q w = (service e (trace w) q, emit (Request q) w)"

text \<open>\<open>resource_url.split("/")[-1]\<close>; only a string has \<open>split\<close>.\<close>

fun get_resource_name :: "pyval \<Rightarrow> string result" where
  "get_resource_name (PStr resource_url) = Inr (last (split CHR ''/'' resource_url))"
| "get_resource_name _ = Inl AttributeError"

text \<open>Logging is modelled by the exceptions that evaluating its arguments can raise.\<close>

fun log_gcp_api_err :: "py_error \<Rightarrow> unit result" where
  "log_gcp_api_err (GoogleApiError (Some status_code) (Some reason)) = Inr ()"
| "log_gcp_api_err _ = Inl AttributeError"

subsection \<open>The retry decorator\<close>

function retry_wrapper ::
  "(world \<Rightarrow> pyval result \<times> world) \<Rightarrow> nat \<Rightarrow> nat \<Rightarrow> nat \<Rightarrow> world \<Rightarrow> pyval result \<times> world" where
  "retry_wrapper func retries backoff attempts w =
     (if attempts < retries then
        (case func w of
           (Inr v, w1) \<Rightarrow> (Inr v, w1)
         | (Inl err, w1) \<Rightarrow>
             (case err of
                GoogleApiError status_code reason \<Rightarrow>
                  (case log_gcp_api_err err of
                     Inl err2 \<Rightarrow> (Inl err2, w1)
                   | Inr _ \<Rightarrow> retry_wrapper func retries backoff (attempts + 1)
                               (emit (RetrySleep (backoff ^ (attempts + 1))) w1))
              | SocketTimeout \<Rightarrow>
                  retry_wrapper func retries backoff (attempts + 1)
                    (emit (RetrySleep (backoff ^ (attempts + 1))) w1)
              | _ \<Rightarrow> (Inl err, w1)))
      else (Inr PNone, w))"
  by pat_completeness auto
termination
  by (relation "measure (\<lambda>(func, retries, backoff, attempts, w). retries - attempts)") auto

declare retry_wrapper.simps [simp del]

text \<open>\<open>@retry\<close> with its defaults, on the method \<open>op\<close>.\<close>

definition retry :: "opname \<Rightarrow> (world \<Rightarrow> pyval result \<times> world) \<Rightarrow> world \<Rightarrow> pyval result \<times> world" where
  "retry op func w = retry_wrapper func MAX_RETRIES 2 0 (emit (Call op) w)"

subsection \<open>The remote calls\<close>

definition filestore_build :: "env \<Rightarrow> world \<Rightarrow> pyval result \<times> world" where
  "filestore_build e w = execute e BuildClient w"

definition get_instance_func :: "env \<Rightarrow> world \<Rightarrow> pyval result \<times> world" where
  "get_instance_func e w = execute e (GetInstance (url (self w))) w"

definition get_instance :: "env \<Rightarrow> world \<Rightarrow> pyval result \<times> world" where
  "get_instance e = retry GetInstanceOp (get_instance_func e)"

definition get_operation_func :: "env \<Rightarrow> string \<Rightarrow> world \<Rightarrow> pyval result \<times> world" where
  "get_operation_func e operation_url w = execute e (GetOperation operation_url) w"

definition get_operation :: "env \<Rightarrow> string \<Rightarrow> world \<Rightarrow> pyval result \<times> world" where
  "get_operation e operation_url = retry GetOperationOp (get_operation_func e operation_url)"

definition list_snapshots_func :: "env \<Rightarrow> world \<Rightarrow> pyval result \<times> world" where
  "list_snapshots_func e w =
     (case execute e (ListSnapshots (url (self w))) w of
        (Inl err, w1) \<Rightarrow> (Inl err, w1)
      | (Inr response, w1) \<Rightarrow> (py_get response ''snapshots'' (PList []), w1))"

definition list_snapshots :: "env \<Rightarrow> world \<Rightarrow> pyval result \<times> world" where
  "list_snapshots e = retry ListSnapshotsOp (list_snapshots_func e)"

definition create_snapshot_func :: "env \<Rightarrow> world \<Rightarrow> pyval result \<times> world" where
  "create_snapshot_func e w =
     (let snap_name = SNAP_PREFIX @ retention_policy (self w) @ ''-'' @ strftime e (trace w)
      in case execute e (CreateSnapshot (url (self w)) snap_name) w of
           (Inl err, w1) \<Rightarrow> (Inl err, w1)
         | (Inr response, w1) \<Rightarrow>
             (case py_getitem response ''name'' of
                Inl err \<Rightarrow> (Inl err, w1)
              | Inr operation_url \<Rightarrow>
                  if py_bool operation_url then
                    (case get_resource_name operation_url of
                       Inl err \<Rightarrow> (Inl err, w1)
                     | Inr _ \<Rightarrow> (Inr operation_url, w1))
                  else (Inr PNone, w1)))"

definition create_snapshot :: "env \<Rightarrow> world \<Rightarrow> pyval result \<times> world" where
  "create_snapshot e = retry CreateSnapshotOp (create_snapshot_func e)"

definition delete_snapshot_func :: "env \<Rightarrow> world \<Rightarrow> pyval result \<times> world" where
  "delete_snapshot_func e w =
     (case execute e (DeleteSnapshot (oldest_sched_snapshot (self w))) w of
        (Inl err, w1) \<Rightarrow> (Inl err, w1)
      | (Inr response, w1) \<Rightarrow>
          (py_then (py_getitem response ''name'') (\<lambda>operation_name.
           py_then (get_resource_name operation_name) (\<lambda>operation_id.
           py_then (get_resource_name (oldest_sched_snapshot (self w1))) (\<lambda>_.
           Inr (PBool (operation_id \<noteq> []))))), w1))"

definition delete_snapshot :: "env \<Rightarrow> world \<Rightarrow> pyval result \<times> world" where
  "delete_snapshot e = retry DeleteSnapshotOp (delete_snapshot_func e)"

subsection \<open>Monitoring an operation\<close>

text \<open>
  One pass over the operation details, from \<open>if operation_details.get("done", False)\<close>
  to the two \<open>return\<close>s: \<open>Some b\<close> is \<open>return b\<close>, \<open>None\<close> falls through to the
  sleep and \<open>attempt += 1\<close>.
\<close>

definition check_operation_details :: "pyval \<Rightarrow> bool option result" where
  "check_operation_details operation_details =
     py_then (py_get operation_details ''done'' (PBool False)) (\<lambda>done.
       if py_bool done then
         py_then (py_get operation_details ''response'' (PBool False)) (\<lambda>response.
           if py_bool response then Inr (Some True)
           else
             py_then (py_get operation_details ''error'' (PBool False)) (\<lambda>error.
               if py_bool error then
                 py_then (py_getitem operation_details ''error'') (\<lambda>err.
                 py_then (py_getitem err ''code'') (\<lambda>_.
                 py_then (py_getitem err ''message'') (\<lambda>_.
                 Inr (Some False))))
               else Inr None))
       else Inr None)"

function monitor_loop ::
  "env \<Rightarrow> string \<Rightarrow> nat \<Rightarrow> nat \<Rightarrow> world \<Rightarrow> bool result \<times> world" where
  "monitor_loop e operation_url monitor_attempts attempt w =
     (if attempt \<le> monitor_attempts then
        (case get_operation e operation_url w of
           (Inl err, w1) \<Rightarrow> (Inl err, w1)
         | (Inr operation_details, w1) \<Rightarrow>
             if py_bool operation_details then
               (case check_operation_details operation_details of
                  Inl err \<Rightarrow> (Inl err, w1)
                | Inr (Some b) \<Rightarrow> (Inr b, w1)
                | Inr None \<Rightarrow>
                    monitor_loop e operation_url monitor_attempts (attempt + 1)
                      (if attempt < monitor_attempts
                       then emit (MonitorSleep (2 ^ attempt)) w1 else w1))
             else (Inr False, w1))
      else (Inr False, w))"
  by pat_completeness auto
termination
  by (relation "measure (\<lambda>(e, operation_url, monitor_attempts, attempt, w).
        Suc monitor_attempts - attempt)") auto

declare monitor_loop.simps [simp del]

definition monitor_operation :: "env \<Rightarrow> pyval \<Rightarrow> world \<Rightarrow> bool result \<times> world" where
  "monitor_operation e operation_url w =
     (case operation_url of
        PStr u \<Rightarrow> monitor_loop e u 8 1 w
      | _ \<Rightarrow> (Inl AttributeError, w))"

subsection \<open>Decisions on the fetched state\<close>

definition deletion_needed :: "FilestoreInstance \<Rightarrow> bool" where
  "deletion_needed s =
     (if int (length (scheduler_snapshots s)) = max_snapshots s then True
      else if int (length (scheduler_snapshots s)) > max_snapshots s then True
      else False)"

definition tier :: "FilestoreInstance \<Rightarrow> pyval result" where
  "tier s = py_get (filestore_instance_json s) ''tier'' PNone"

definition state :: "FilestoreInstance \<Rightarrow> pyval result" where
  "state s = py_get (filestore_instance_json s) ''state'' PNone"

definition validate_instance_requirements :: "FilestoreInstance \<Rightarrow> bool result" where
  "validate_instance_requirements s =
     py_then (tier s) (\<lambda>t.
       if t \<notin> set (map PStr SUPPORTED_TIERS) then Inr False
       else
         py_then (py_len (snapshots s)) (\<lambda>n.
           if n = MAX_NUMBER_OF_SNAPSHOTS then Inr False
           else
             py_then (state s) (\<lambda>st.
               if st \<noteq> PStr ''READY'' then Inr False
               else Inr True)))"

text \<open>The body of the loop of \<open>get_scheduler_snapshots_list\<close>, for one snapshot.\<close>

definition scheduler_snapshot_step :: "string \<Rightarrow> pyval \<Rightarrow> pyval list \<Rightarrow> pyval list result" where
  "scheduler_snapshot_step policy snapshot scheduler_snapshots_list =
     py_then (py_getitem snapshot ''name'') (\<lambda>snapshot_name.
     py_then (py_contains (SNAP_PREFIX @ policy @ ''-'') snapshot_name) (\<lambda>found.
       if found then
         py_then (py_getitem snapshot ''state'') (\<lambda>snapshot_state.
           if snapshot_state = PStr ''READY''
           then Inr (scheduler_snapshots_list @ [snapshot_name])
           else Inr scheduler_snapshots_list)
       else Inr scheduler_snapshots_list))"

fun scheduler_snapshots_loop :: "string \<Rightarrow> pyval list \<Rightarrow> pyval list \<Rightarrow> pyval list result" where
  "scheduler_snapshots_loop policy [] scheduler_snapshots_list = Inr scheduler_snapshots_list"
| "scheduler_snapshots_loop policy (snapshot # rest) scheduler_snapshots_list =
     (case scheduler_snapshot_step policy snapshot scheduler_snapshots_list of
        Inl err \<Rightarrow> Inl err
      | Inr l \<Rightarrow> scheduler_snapshots_loop policy rest l)"

definition get_scheduler_snapshots_list :: "FilestoreInstance \<Rightarrow> pyval list result" where
  "get_scheduler_snapshots_list s =
     py_then (py_iter (snapshots s)) (\<lambda>xs.
       scheduler_snapshots_loop (retention_policy s) xs [])"

text \<open>
  The body of the loop of \<open>get_oldest_scheduler_snapshot\<close>. \<open>epoch_dict\<close> keeps
  insertion order: assigning to a key it has keeps the key's place.
\<close>

definition snapshot_epoch :: "env \<Rightarrow> nat \<Rightarrow> pyval \<Rightarrow> int result" where
  "snapshot_epoch e snapshot_string_len snapshot =
     py_then (get_resource_name snapshot) (\<lambda>resource_name.
       let snapshot_date = drop snapshot_string_len resource_name
       in py_then (strptime e snapshot_date) (mktime e))"

definition epoch_step ::
  "env \<Rightarrow> nat \<Rightarrow> pyval \<Rightarrow> (pyval \<times> int) list \<Rightarrow> (pyval \<times> int) list result" where
  "epoch_step e snapshot_string_len snapshot epoch_dict =
     py_then (snapshot_epoch e snapshot_string_len snapshot) (\<lambda>epoch.
       Inr (AList.update snapshot epoch epoch_dict))"

fun epoch_loop ::
  "env \<Rightarrow> nat \<Rightarrow> pyval list \<Rightarrow> (pyval \<times> int) list \<Rightarrow> (pyval \<times> int) list result" where
  "epoch_loop e snapshot_string_len [] epoch_dict = Inr epoch_dict"
| "epoch_loop e snapshot_string_len (snapshot # rest) epoch_dict =
     (case epoch_step e snapshot_string_len snapshot epoch_dict of
        Inl err \<Rightarrow> Inl err
      | Inr d \<Rightarrow> epoch_loop e snapshot_string_len rest d)"

text \<open>
  \<open>min(epoch_dict, key=epoch_dict.get)\<close>: the first key, in the order of the dict,
  with the least value.
\<close>

fun min_from :: "'k \<times> int \<Rightarrow> ('k \<times> int) list \<Rightarrow> 'k \<times> int" where
  "min_from best [] = best"
| "min_from best (x # xs) = min_from (if snd x < snd best then x else best) xs"

definition py_min_key :: "('k \<times> int) list \<Rightarrow> 'k result" where
  "py_min_key d = (case d of [] \<Rightarrow> Inl ValueError | x # xs \<Rightarrow> Inr (fst (min_from x xs)))"

definition get_oldest_scheduler_snapshot :: "env \<Rightarrow> FilestoreInstance \<Rightarrow> pyval result" where
  "get_oldest_scheduler_snapshot e s =
     (if scheduler_snapshots s \<noteq> [] then
        (let snapshot_string_len = length (SNAP_PREFIX @ retention_policy s) + 1
         in py_then (epoch_loop e snapshot_string_len (scheduler_snapshots s) []) py_min_key)
      else Inr PNone)"

subsection \<open>The orchestration\<close>

definition increment_retention :: "env \<Rightarrow> world \<Rightarrow> unit result \<times> world" where
  "increment_retention e w =
     (case create_snapshot e w of
        (Inl err, w1) \<Rightarrow> (Inl err, w1)
      | (Inr operation_url, w1) \<Rightarrow>
          if py_bool operation_url then
            (case monitor_operation e operation_url w1 of
               (Inl err, w2) \<Rightarrow> (Inl err, w2)
             | (Inr creation_completed, w2) \<Rightarrow>
                 if creation_completed then
                   (if deletion_needed (self w2) then
                      (case delete_snapshot e w2 of
                         (Inl err, w3) \<Rightarrow> (Inl err, w3)
                       | (Inr _, w3) \<Rightarrow> (Inr (), w3))
                    else (Inr (), w2))
                 else (Inr (), w2))
          else (Inr (), w1))"

subsection \<open>Construction\<close>

text \<open>
  \<open>__init__\<close> assigns the attributes in order; a method called on the way reads only
  attributes assigned before it. An attribute not yet assigned is shown as \<open>PNone\<close>
  or the empty list.
\<close>

definition init :: "env \<Rightarrow> pyval \<Rightarrow> string \<Rightarrow> event list \<Rightarrow> FilestoreInstance result \<times> event list" where
  "init e instance_data policy tr =
     (case py_get instance_data ''instance_path'' PNone of
        Inl err \<Rightarrow> (Inl err, tr)
      | Inr (PStr instance_path) \<Rightarrow>
          (let u = strip CHR ''/'' (lstrip CHR ''/'' instance_path)
           in case py_then (get_resource_name (PStr u)) (\<lambda>nm.
                   py_then (py_then (py_get instance_data ''snapshots'' PNone) py_int) (\<lambda>n.
                   Inr (nm, n))) of
                Inl err \<Rightarrow> (Inl err, tr)
              | Inr (nm, n) \<Rightarrow>
                  (let w0 = \<lparr>self = \<lparr>retention_policy = policy, url = u, name = nm,
                                      max_snapshots = n, filestore_instance_json = PNone,
                                      snapshots = PNone, scheduler_snapshots = [],
                                      oldest_sched_snapshot = PNone\<rparr>,
                            trace = tr\<rparr>
                   in case filestore_build e w0 of
                        (Inl err, w1) \<Rightarrow> (Inl err, trace w1)
                      | (Inr _, w1) \<Rightarrow>
                          (case get_instance e w1 of
                             (Inl err, w2) \<Rightarrow> (Inl err, trace w2)
                           | (Inr details, w2) \<Rightarrow>
                               if \<not> py_bool details then (Inl InstanceNotFoundError, trace w2)
                               else
                                 (case list_snapshots e
                                         (w2\<lparr>self := (self w2)\<lparr>filestore_instance_json := details\<rparr>\<rparr>) of
                                    (Inl err, w3) \<Rightarrow> (Inl err, trace w3)
                                  | (Inr snaps, w3) \<Rightarrow>
                                      (let s1 = (self w3)\<lparr>snapshots := snaps\<rparr>
                                       in case get_scheduler_snapshots_list s1 of
                                            Inl err \<Rightarrow> (Inl err, trace w3)
                                          | Inr sched \<Rightarrow>
                                              (let s2 = s1\<lparr>scheduler_snapshots := sched\<rparr>
                                               in case get_oldest_scheduler_snapshot e s2 of
                                                    Inl err \<Rightarrow> (Inl err, trace w3)
                                                  | Inr oldest \<Rightarrow>
                                                      (Inr (s2\<lparr>oldest_sched_snapshot := oldest\<rparr>),
                                                       trace w3)))))))
      | Inr _ \<Rightarrow> (Inl AttributeError, tr))"

section \<open>Module \<open>main\<close>\<close>

definition RETENTION_NAME_LENGTH :: int where
  "RETENTION_NAME_LENGTH = 50"

definition MAX_INSTANCES :: int where
  "MAX_INSTANCES = 8"

text \<open>
  \<open>jsonschema.validate\<close> against the schema of the source: the instance is an object;
  \<open>retention_policy\<close>, if it is there, is a string; \<open>instances\<close>, if it is there, is
  an array. No property is required.
\<close>

definition validate_json_schema :: "pyval \<Rightarrow> bool" where
  "validate_json_schema request_json =
     (case request_json of
        PDict kvs \<Rightarrow>
          (case map_of kvs ''retention_policy'' of
             None \<Rightarrow> True | Some (PStr _) \<Rightarrow> True | Some _ \<Rightarrow> False) \<and>
          (case map_of kvs ''instances'' of
             None \<Rightarrow> True | Some (PList _) \<Rightarrow> True | Some _ \<Rightarrow> False)
      | _ \<Rightarrow> False)"

definition validate_json :: "pyval \<Rightarrow> bool result" where
  "validate_json request_json =
     (if \<not> validate_json_schema request_json then Inr False
      else
        py_then (py_get request_json ''retention_policy'' PNone) (\<lambda>policy.
          if \<not> py_bool policy then Inr False
          else
            py_then (py_len policy) (\<lambda>n.
              if n > RETENTION_NAME_LENGTH then Inr False
              else
                py_then (py_get request_json ''instances'' PNone) (\<lambda>instances.
                  if \<not> py_bool instances then Inr False
                  else
                    py_then (py_len instances) (\<lambda>m.
                      if m > MAX_INSTANCES then Inr False
                      else Inr True)))))"

definition validate_instance_input :: "pyval \<Rightarrow> bool result" where
  "validate_instance_input instance_data =
     py_then (py_get instance_data ''instance_path'' PNone) (\<lambda>p.
       if \<not> py_bool p then Inr False
       else
         py_then (py_getitem instance_data ''instance_path'') (\<lambda>instance_path.
         py_then (py_get instance_data ''snapshots'' PNone) (\<lambda>requested_snapshots.
           if \<not> py_bool requested_snapshots then Inr False
           else
             py_then (py_int requested_snapshots) (\<lambda>n.
               if n \<le> 0 then Inr False
               else if n > MAX_NUMBER_OF_SNAPSHOTS then Inr False
               else Inr True))))"

text \<open>The body of the loop of \<open>main\<close>, for one entry of \<open>instances\<close>.\<close>

definition process_instance :: "env \<Rightarrow> string \<Rightarrow> pyval \<Rightarrow> event list \<Rightarrow> unit result \<times> event list" where
  "process_instance e policy instance_data tr =
     (case validate_instance_input instance_data of
        Inl err \<Rightarrow> (Inl err, tr)
      | Inr False \<Rightarrow> (Inr (), tr)
      | Inr True \<Rightarrow>
          (case py_getitem instance_data ''instance_path'' of
             Inl err \<Rightarrow> (Inl err, tr)
           | Inr instance_path \<Rightarrow>
               (case init e instance_data policy tr of
                  (Inl InstanceNotFoundError, tr1) \<Rightarrow> (Inr (), tr1)
                | (Inl err, tr1) \<Rightarrow> (Inl err, tr1)
                | (Inr filer, tr1) \<Rightarrow>
                    (case validate_instance_requirements filer of
                       Inl err \<Rightarrow> (Inl err, tr1)
                     | Inr False \<Rightarrow> (Inr (), tr1)
                     | Inr True \<Rightarrow>
                         (case increment_retention e \<lparr>self = filer, trace = tr1\<rparr> of
                            (Inl err, w) \<Rightarrow> (Inl err, trace w)
                          | (Inr _, w) \<Rightarrow> (Inr (), trace w))))))"

fun process_instances :: "env \<Rightarrow> string \<Rightarrow> pyval list \<Rightarrow> event list \<Rightarrow> unit result \<times> event list" where
  "process_instances e policy [] tr = (Inr (), tr)"
| "process_instances e policy (instance_data # rest) tr =
     (case process_instance e policy instance_data tr of
        (Inl err, tr1) \<Rightarrow> (Inl err, tr1)
      | (Inr _, tr1) \<Rightarrow> process_instances e policy rest tr1)"

text \<open>
  \<open>main\<close>. The request is the value of \<open>request.get_json(force=True)\<close>, or \<open>None\<close>
  where that raises \<open>BadRequest\<close>. The retention policy is handed on as the string
  that \<open>validate_json\<close> has found it to be.
\<close>

definition main :: "env \<Rightarrow> pyval option \<Rightarrow> event list \<Rightarrow> string result \<times> event list" where
  "main e request tr =
     (case request of
        None \<Rightarrow> (Inr ''done with error'', tr)
      | Some request_json \<Rightarrow>
          (case validate_json request_json of
             Inl err \<Rightarrow> (Inl err, tr)
           | Inr False \<Rightarrow> (Inr ''done with error'', tr)
           | Inr True \<Rightarrow>
               (case py_get request_json ''retention_policy'' PNone of
                  Inr (PStr policy) \<Rightarrow>
                    (case py_then (py_getitem request_json ''instances'') py_iter of
                       Inl err \<Rightarrow> (Inl err, tr)
                     | Inr instances \<Rightarrow>
                         (case process_instances e policy instances tr of
                            (Inl err, tr1) \<Rightarrow> (Inl err, tr1)
                          | (Inr _, tr1) \<Rightarrow> (Inr ''done'', tr1)))
                | Inr _ \<Rightarrow> (Inl TypeError, tr)
                | Inl err \<Rightarrow> (Inl err, tr))))"

section \<open>The library's time functions\<close>

text \<open>
  \<open>time.strptime(s, "%Y%m%d-%H%M%S")\<close> matches \<open>s\<close> against the regular expression
  the format stands for, each directive a group of alternatives tried in order;
  the first match must use up the string, and the date must exist. A parser returns
  the matches of its group, first choice first.
\<close>

definition two_digits :: "(nat \<Rightarrow> bool) \<Rightarrow> (nat \<Rightarrow> bool) \<Rightarrow> string \<Rightarrow> (int \<times> string) list" where
  "two_digits p1 p2 s =
     (case s of
        a # b # rest \<Rightarrow>
          if is_digit a \<and> is_digit b \<and> p1 (digit_value a) \<and> p2 (digit_value b)
          then [(int (digit_value a * 10 + digit_value b), rest)] else []
      | _ \<Rightarrow> [])"

definition one_digit :: "(nat \<Rightarrow> bool) \<Rightarrow> string \<Rightarrow> (int \<times> string) list" where
  "one_digit p s =
     (case s of
        a # rest \<Rightarrow> if is_digit a \<and> p (digit_value a) then [(int (digit_value a), rest)] else []
      | _ \<Rightarrow> [])"

definition literal :: "char \<Rightarrow> string \<Rightarrow> string list" where
  "literal c s = (case s of a # rest \<Rightarrow> if a = c then [rest] else [] | _ \<Rightarrow> [])"

definition directive_Y :: "string \<Rightarrow> (int \<times> string) list" where
  "directive_Y s =
     [(100 * hi + lo, r2). (hi, r1) \<leftarrow> two_digits (\<lambda>_. True) (\<lambda>_. True) s,
                           (lo, r2) \<leftarrow> two_digits (\<lambda>_. True) (\<lambda>_. True) r1]"

definition directive_m :: "string \<Rightarrow> (int \<times> string) list" where
  "directive_m s =
     two_digits (\<lambda>a. a = 1) (\<lambda>b. b \<le> 2) s @ two_digits (\<lambda>a. a = 0) (\<lambda>b. 1 \<le> b) s @
     one_digit (\<lambda>a. 1 \<le> a) s"

definition directive_d :: "string \<Rightarrow> (int \<times> string) list" where
  "directive_d s =
     two_digits (\<lambda>a. a = 3) (\<lambda>b. b \<le> 1) s @ two_digits (\<lambda>a. 1 \<le> a \<and> a \<le> 2) (\<lambda>_. True) s @
     two_digits (\<lambda>a. a = 0) (\<lambda>b. 1 \<le> b) s @ one_digit (\<lambda>a. 1 \<le> a) s @
     [(v, r2). r1 \<leftarrow> literal CHR '' '' s, (v, r2) \<leftarrow> one_digit (\<lambda>a. 1 \<le> a) r1]"

definition directive_H :: "string \<Rightarrow> (int \<times> string) list" where
  "directive_H s =
     two_digits (\<lambda>a. a = 2) (\<lambda>b. b \<le> 3) s @ two_digits (\<lambda>a. a \<le> 1) (\<lambda>_. True) s @
     one_digit (\<lambda>_. True) s"

definition directive_M :: "string \<Rightarrow> (int \<times> string) list" where
  "directive_M s = two_digits (\<lambda>a. a \<le> 5) (\<lambda>_. True) s @ one_digit (\<lambda>_. True) s"

definition directive_S :: "string \<Rightarrow> (int \<times> string) list" where
  "directive_S s =
     two_digits (\<lambda>a. a = 6) (\<lambda>b. b \<le> 1) s @ two_digits (\<lambda>a. a \<le> 5) (\<lambda>_. True) s @
     one_digit (\<lambda>_. True) s"

definition time_pattern_matches :: "string \<Rightarrow> (struct_time \<times> string) list" where
  "time_pattern_matches s =
     [(\<lparr>tm_year = y, tm_mon = m, tm_mday = d, tm_hour = h, tm_min = mi, tm_sec = sec\<rparr>, r7).
        (y, r1) \<leftarrow> directive_Y s, (m, r2) \<leftarrow> directive_m r1, (d, r3) \<leftarrow> directive_d r2,
        r4 \<leftarrow> literal CHR ''-'' r3,
        (h, r5) \<leftarrow> directive_H r4, (mi, r6) \<leftarrow> directive_M r5, (sec, r7) \<leftarrow> directive_S r6]"

definition is_leap :: "int \<Rightarrow> bool" where
  "is_leap y = (y mod 4 = 0 \<and> (y mod 100 \<noteq> 0 \<or> y mod 400 = 0))"

definition days_in_month :: "int \<Rightarrow> int \<Rightarrow> int" where
  "days_in_month y m =
     (if m = 2 then (if is_leap y then 29 else 28)
      else if m \<in> {4, 6, 9, 11} then 30 else 31)"

definition strptime_time_pattern :: "string \<Rightarrow> struct_time result" where
  "strptime_time_pattern s =
     (case time_pattern_matches s of
        [] \<Rightarrow> Inl ValueError
      | (t, rest) # _ \<Rightarrow>
          if rest \<noteq> [] then Inl ValueError
          else if tm_year t < 1 \<or> tm_mday t > days_in_month (tm_year t) (tm_mon t)
          then Inl ValueError
          else Inr t)"

text \<open>\<open>int(time.mktime(t))\<close> where the local time zone is UTC.\<close>

definition days_from_civil :: "int \<Rightarrow> int \<Rightarrow> int \<Rightarrow> int" where
  "days_from_civil y m d =
     (let y1 = (if m \<le> 2 then y - 1 else y);
          era = y1 div 400;
          yoe = y1 - era * 400;
          doy = (153 * (if m > 2 then m - 3 else m + 9) + 2) div 5 + d - 1;
          doe = yoe * 365 + yoe div 4 - yoe div 100 + doy
      in era * 146097 + doe - 719468)"

definition mktime_utc :: "struct_time \<Rightarrow> int result" where
  "mktime_utc t =
     Inr (days_from_civil (tm_year t) (tm_mon t) (tm_mday t) * 86400 +
          tm_hour t * 3600 + tm_min t * 60 + tm_sec t)"

section \<open>Reading a trace\<close>

definition calls :: "opname \<Rightarrow> event list \<Rightarrow> nat" where
  "calls op evs = length (filter (\<lambda>ev. ev = Call op) evs)"

definition requests :: "event list \<Rightarrow> request list" where
  "requests evs = concat (map (\<lambda>ev. case ev of Request q \<Rightarrow> [q] | _ \<Rightarrow> []) evs)"

definition retry_sleeps :: "event list \<Rightarrow> nat list" where
  "retry_sleeps evs = concat (map (\<lambda>ev. case ev of RetrySleep n \<Rightarrow> [n] | _ \<Rightarrow> []) evs)"

definition monitor_sleeps :: "event list \<Rightarrow> nat list" where
  "monitor_sleeps evs = concat (map (\<lambda>ev. case ev of MonitorSleep n \<Rightarrow> [n] | _ \<Rightarrow> []) evs)"

definition delete_targets :: "event list \<Rightarrow> pyval list" where
  "delete_targets evs = concat (map (\<lambda>q. case q of DeleteSnapshot t \<Rightarrow> [t] | _ \<Rightarrow> []) (requests evs))"

text \<open>
  A function that a decorated method wraps sends one request to the service, picked
  by the object, and leaves the object as it is.
\<close>

definition sends_one ::
  "(FilestoreInstance \<Rightarrow> request \<Rightarrow> bool) \<Rightarrow> (world \<Rightarrow> pyval result \<times> world) \<Rightarrow> bool" where
  "sends_one Q func =
     (\<forall>w. self (snd (func w)) = self w \<and>
          (\<exists>q. Q (self w) q \<and> trace (snd (func w)) = trace w @ [Request q]))"

section \<open>Sample runs\<close>

text \<open>
  A service that answers every request at once: the instance is an \<open>ENTERPRISE\<close>
  instance in state \<open>READY\<close>, \<open>snaps\<close> is its list of snapshots and \<open>details\<close> is
  what every poll of an operation returns.
\<close>

definition ready_instance :: pyval where
  "ready_instance =
     PDict [(''name'', PStr ''projects/p/locations/l/instances/i''),
            (''tier'', PStr ''ENTERPRISE''), (''state'', PStr ''READY'')]"

definition ready_snapshot :: "string \<Rightarrow> pyval" where
  "ready_snapshot nm = PDict [(''name'', PStr nm), (''state'', PStr ''READY'')]"

definition sample_service :: "pyval \<Rightarrow> pyval \<Rightarrow> event list \<Rightarrow> request \<Rightarrow> pyval result" where
  "sample_service snaps details hist q =
     (case q of
        BuildClient \<Rightarrow> Inr PNone
      | GetInstance _ \<Rightarrow> Inr ready_instance
      | ListSnapshots _ \<Rightarrow> Inr (PDict [(''snapshots'', snaps)])
      | CreateSnapshot _ _ \<Rightarrow> Inr (PDict [(''name'', PStr ''projects/p/locations/l/operations/op-1'')])
      | GetOperation _ \<Rightarrow> Inr details
      | DeleteSnapshot _ \<Rightarrow> Inr (PDict [(''name'', PStr ''projects/p/locations/l/operations/op-2'')]))"

definition sample_env :: "pyval \<Rightarrow> pyval \<Rightarrow> env" where
  "sample_env snaps details =
     \<lparr>service = sample_service snaps details, strftime = (\<lambda>hist. ''20220103-000000''),
      strptime = strptime_time_pattern, mktime = mktime_utc\<rparr>"

text \<open>A service that is out of reach: the client is built, and every request times out.\<close>

definition timeout_env :: env where
  "timeout_env =
     \<lparr>service = (\<lambda>hist q. case q of BuildClient \<Rightarrow> Inr PNone | _ \<Rightarrow> Inl SocketTimeout),
      strftime = (\<lambda>hist. ''20220103-000000''),
      strptime = strptime_time_pattern, mktime = mktime_utc\<rparr>"

definition operation_succeeded :: pyval where
  "operation_succeeded =
     PDict [(''name'', PStr ''projects/p/locations/l/operations/op-1''), (''done'', PBool True),
            (''response'', PDict [(''state'', PStr ''READY'')])]"

definition operation_done_only :: pyval where
  "operation_done_only =
     PDict [(''name'', PStr ''projects/p/locations/l/operations/op-1''), (''done'', PBool True)]"

definition snapshot_jan1 :: string where
  "snapshot_jan1 = ''projects/p/locations/l/instances/i/snapshots/sched-daily-20220101-000000''"

definition snapshot_jan2 :: string where
  "snapshot_jan2 = ''projects/p/locations/l/instances/i/snapshots/sched-daily-20220102-000000''"

definition two_snapshots :: pyval where
  "two_snapshots = PList [ready_snapshot snapshot_jan2, ready_snapshot snapshot_jan1]"

text \<open>The object that \<open>init\<close> builds from \<open>two_snapshots\<close> for the policy \<open>daily\<close>.\<close>

definition sample_instance :: "int \<Rightarrow> FilestoreInstance" where
  "sample_instance n =
     \<lparr>retention_policy = ''daily'', url = ''projects/p/locations/l/instances/i'', name = ''i'',
      max_snapshots = n, filestore_instance_json = ready_instance, snapshots = two_snapshots,
      scheduler_snapshots = [PStr snapshot_jan2, PStr snapshot_jan1],
      oldest_sched_snapshot = PStr snapshot_jan1\<rparr>"

definition sample_instance_data :: "pyval \<Rightarrow> pyval" where
  "sample_instance_data n =
     PDict [(''instance_path'', PStr ''/projects/p/locations/l/instances/i/''), (''snapshots'', n)]"

text \<open>
  What one decorated call may add to the trace, from attempt \<open>a\<close> of \<open>n\<close> on: requests
  that satisfy \<open>Q\<close>, at most one for each attempt left, and the sleeps between them.
\<close>

definition retry_events :: "(request \<Rightarrow> bool) \<Rightarrow> nat \<Rightarrow> nat \<Rightarrow> nat \<Rightarrow> event list \<Rightarrow> bool" where
  "retry_events Q b a n evs =
     ((\<forall>ev \<in> set evs. (\<exists>q. ev = Request q \<and> Q q) \<or> (\<exists>k. ev = RetrySleep k)) \<and>
      length (requests evs) \<le> n - a \<and> length evs \<le> 2 * (n - a) \<and>
      (\<exists>m. a + m \<le> n \<and> retry_sleeps evs = map (\<lambda>i. b ^ (i + 1)) [a..<a + m]))"

text \<open>A wrapped function whose every attempt ends in an error that \<open>retry\<close> catches and logs.\<close>

definition fails_retryably :: "(world \<Rightarrow> pyval result \<times> world) \<Rightarrow> bool" where
  "fails_retryably func =
     (\<forall>w. fst (func w) = Inl SocketTimeout \<or>
          (\<exists>status_code reason. fst (func w) = Inl (GoogleApiError (Some status_code) (Some reason))))"

text \<open>
  What monitoring the operation \<open>u\<close> may add to the trace, from attempt \<open>a\<close> of \<open>m\<close> on:
  polls of \<open>u\<close>, each a decorated call, and between two polls the sleep of the loop.
\<close>

definition monitor_events :: "string \<Rightarrow> nat \<Rightarrow> nat \<Rightarrow> event list \<Rightarrow> bool" where
  "monitor_events u m a evs =
     ((\<forall>ev \<in> set evs. ev = Call GetOperationOp \<or> ev = Request (GetOperation u) \<or>
          (\<exists>k. ev = RetrySleep k) \<or> (\<exists>k. ev = MonitorSleep k)) \<and>
      calls GetOperationOp evs \<le> Suc m - a \<and>
      (a \<le> m \<longrightarrow> 1 \<le> calls GetOperationOp evs) \<and>
      monitor_sleeps evs = map (\<lambda>k. 2 ^ k) [a..<a + (calls GetOperationOp evs - 1)] \<and>
      length (requests evs) \<le> 3 * calls GetOperationOp evs \<and>
      length evs \<le> 8 * calls GetOperationOp evs)"

definition request_of :: "string \<Rightarrow> pyval list \<Rightarrow> pyval" where
  "request_of policy instances =
     PDict [(''retention_policy'', PStr policy), (''instances'', PList instances)]"

text \<open>
  The creation is confirmed: \<open>create_snapshot\<close> returned a handle that is not empty,
  and monitoring that handle returned \<open>True\<close>.
\<close>

definition creation_confirmed :: "env \<Rightarrow> world \<Rightarrow> bool" where
  "creation_confirmed e w =
     (case create_snapshot e w of
        (Inr operation_url, w1) \<Rightarrow>
          py_bool operation_url \<and> fst (monitor_operation e operation_url w1) = Inr True
      | (Inl err, w1) \<Rightarrow> False)"

text \<open>
  A poll that is not terminal: the details are there, and the pass over them reaches
  neither \<open>return True\<close> nor \<open>return False\<close>.
\<close>

definition pending :: "pyval \<Rightarrow> bool" where
  "pending operation_details =
     (py_bool operation_details \<and> check_operation_details operation_details = Inr None)"

text \<open>Details that say \<open>done\<close> and hold neither a \<open>response\<close> nor an \<open>error\<close>.\<close>

definition done_without_outcome :: "pyval \<Rightarrow> bool" where
  "done_without_outcome operation_details =
     (case operation_details of
        PDict kvs \<Rightarrow>
          (case map_of kvs ''done'' of Some d \<Rightarrow> py_bool d | None \<Rightarrow> False) \<and>
          map_of kvs ''response'' = None \<and> map_of kvs ''error'' = None
      | _ \<Rightarrow> False)"

text \<open>
  The epoch of the time stamp in the name of a scheduler snapshot, as
  \<open>get_oldest_scheduler_snapshot\<close> computes it for the object \<open>s\<close>.
\<close>

definition embedded_epoch :: "env \<Rightarrow> FilestoreInstance \<Rightarrow> pyval \<Rightarrow> int result" where
  "embedded_epoch e s snapshot =
     snapshot_epoch e (length (SNAP_PREFIX @ retention_policy s) + 1) snapshot"


text \<open>
  The naming convention in the words of the specification: the resource name of the
  snapshot is \<open>sched-\<close>, the retention policy, a hyphen, and a time stamp of the form
  \<open>YYYYMMDD-HHMMSS\<close>.
\<close>

definition is_timestamp :: "string \<Rightarrow> bool" where
  "is_timestamp ts =
     (length ts = 15 \<and> list_all is_digit (take 8 ts) \<and> ts ! 8 = CHR ''-'' \<and>
      list_all is_digit (drop 9 ts))"

definition matches_naming_convention :: "string \<Rightarrow> string \<Rightarrow> bool" where
  "matches_naming_convention policy snapshot_name =
     (let resource_name = last (split CHR ''/'' snapshot_name);
          lead = SNAP_PREFIX @ policy @ ''-''
      in prefix lead resource_name \<and> is_timestamp (drop (length lead) resource_name))"

text \<open>A snapshot that the policy \<open>daily-weekly\<close> has taken of the same instance.\<close>

definition snapshot_other_policy :: string where
  "snapshot_other_policy =
     ''projects/p/locations/l/instances/i/snapshots/sched-daily-weekly-20220101-000000''"

definition mixed_snapshots :: pyval where
  "mixed_snapshots = PList [ready_snapshot snapshot_other_policy, ready_snapshot snapshot_jan1]"

text \<open>An instance of a supported tier, in state \<open>READY\<close>, with 241 snapshots.\<close>

definition over_limit_instance :: FilestoreInstance where
  "over_limit_instance =
     (sample_instance 2)\<lparr>snapshots := PList (replicate 241 (ready_snapshot snapshot_jan1))\<rparr>"

text \<open>
  A service whose requests fail with an exception that \<open>retry\<close> does not catch (the
  refresh of the access token fails).
\<close>

definition refresh_error_env :: env where
  "refresh_error_env =
     \<lparr>service = (\<lambda>hist q. case q of BuildClient \<Rightarrow> Inr PNone
                                  | _ \<Rightarrow> Inl (OtherException ''RefreshError'')),
      strftime = (\<lambda>hist. ''20220103-000000''),
      strptime = strptime_time_pattern, mktime = mktime_utc\<rparr>"

text \<open>
  A service that answers as the sample service does, except that every request for the
  list of snapshots times out.
\<close>

definition list_timeout_env :: env where
  "list_timeout_env =
     \<lparr>service = (\<lambda>hist q. case q of
                     ListSnapshots _ \<Rightarrow> Inl SocketTimeout
                   | _ \<Rightarrow> sample_service two_snapshots operation_succeeded hist q),
      strftime = (\<lambda>hist. ''20220103-000000''),
      strptime = strptime_time_pattern, mktime = mktime_utc\<rparr>"

section \<open>Properties\<close>

subsection \<open>Reading a trace\<close>

lemma py_then_simps [simp]:
  "py_then (Inl err) f = Inl err" "py_then (Inr v) f = f v"
  by (simp_all add: py_then_def)

lemma calls_simps [simp]:
  "calls op [] = 0"
  "calls op (Call op' # evs) = (if op' = op then Suc (calls op evs) else calls op evs)"
  "calls op (Request q # evs) = calls op evs"
  "calls op (RetrySleep k # evs) = calls op evs"
  "calls op (MonitorSleep k # evs) = calls op evs"
  "calls op (evs @ evs') = calls op evs + calls op evs'"
  by (simp_all add: calls_def)

lemma requests_simps [simp]:
  "requests [] = []"
  "requests (Call op # evs) = requests evs"
  "requests (Request q # evs) = q # requests evs"
  "requests (RetrySleep k # evs) = requests evs"
  "requests (MonitorSleep k # evs) = requests evs"
  "requests (evs @ evs') = requests evs @ requests evs'"
  by (simp_all add: requests_def)

lemma retry_sleeps_simps [simp]:
  "retry_sleeps [] = []"
  "retry_sleeps (Call op # evs) = retry_sleeps evs"
  "retry_sleeps (Request q # evs) = retry_sleeps evs"
  "retry_sleeps (RetrySleep k # evs) = k # retry_sleeps evs"
  "retry_sleeps (MonitorSleep k # evs) = retry_sleeps evs"
  "retry_sleeps (evs @ evs') = retry_sleeps evs @ retry_sleeps evs'"
  by (simp_all add: retry_sleeps_def)

lemma monitor_sleeps_simps [simp]:
  "monitor_sleeps [] = []"
  "monitor_sleeps (Call op # evs) = monitor_sleeps evs"
  "monitor_sleeps (Request q # evs) = monitor_sleeps evs"
  "monitor_sleeps (RetrySleep k # evs) = monitor_sleeps evs"
  "monitor_sleeps (MonitorSleep k # evs) = k # monitor_sleeps evs"
  "monitor_sleeps (evs @ evs') = monitor_sleeps evs @ monitor_sleeps evs'"
  by (simp_all add: monitor_sleeps_def)

lemma delete_targets_simps [simp]:
  "delete_targets [] = []"
  "delete_targets (Call op # evs) = delete_targets evs"
  "delete_targets (Request q # evs) =
     (case q of DeleteSnapshot t \<Rightarrow> [t] | _ \<Rightarrow> []) @ delete_targets evs"
  "delete_targets (RetrySleep k # evs) = delete_targets evs"
  "delete_targets (MonitorSleep k # evs) = delete_targets evs"
  "delete_targets (evs @ evs') = delete_targets evs @ delete_targets evs'"
  by (simp_all add: delete_targets_def)

lemma emit_simps [simp]:
  "self (emit ev w) = self w" "trace (emit ev w) = trace w @ [ev]"
  by (simp_all add: emit_def)

lemma execute_simps [simp]:
  "fst (execute e q w) = service e (trace w) q"
  "snd (execute e q w) = emit (Request q) w"
  by (simp_all add: execute_def)

subsection \<open>The retry decorator\<close>

lemma retry_wrapper_trace:
  assumes so: "sends_one Q func"
  shows "retry_wrapper func n b a w = (r, w') \<Longrightarrow> a \<le> n \<Longrightarrow>
         self w' = self w \<and> (\<exists>evs. trace w' = trace w @ evs \<and> retry_events (Q (self w)) b a n evs)"
proof (induction "n - a" arbitrary: a w r w')
  case 0
  then have "a = n" by simp
  with 0 show ?case
    by (simp add: retry_wrapper.simps retry_events_def)
next
  case (Suc k)
  then have lt: "a < n" by simp
  obtain r1 w1 where f: "func w = (r1, w1)" by fastforce
  from so f obtain q where q: "Q (self w) q" "trace w1 = trace w @ [Request q]" "self w1 = self w"
    unfolding sends_one_def by (metis snd_conv)
  have single: "retry_events (Q (self w)) b a n [Request q]"
    using q lt by (auto simp: retry_events_def intro: exI[of _ 0])
  let ?w2 = "emit (RetrySleep (b ^ (a + 1))) w1"
  have rec: "retry_wrapper func n b (a + 1) ?w2 = (r, w') \<Longrightarrow> ?case"
  proof -
    assume "retry_wrapper func n b (a + 1) ?w2 = (r, w')"
    moreover have "k = n - (a + 1)" using Suc.hyps(2) by simp
    ultimately have "self w' = self ?w2 \<and>
        (\<exists>evs. trace w' = trace ?w2 @ evs \<and> retry_events (Q (self ?w2)) b (a + 1) n evs)"
      using Suc.hyps(1)[of "a + 1" ?w2 r w'] lt by simp
    then obtain evs where evs: "self w' = self w" "trace w' = trace w @ Request q # RetrySleep (b ^ (a + 1)) # evs"
        "retry_events (Q (self w)) b (a + 1) n evs"
      using q by auto
    from evs(3) obtain m where m: "a + 1 + m \<le> n" "retry_sleeps evs = map (\<lambda>i. b ^ (i + 1)) [a + 1..<a + 1 + m]"
      by (auto simp: retry_events_def)
    let ?evs = "Request q # RetrySleep (b ^ (a + 1)) # evs"
    have "[a..<a + Suc m] = a # [a + 1..<a + 1 + m]"
      by (subst upt_rec) simp
    then have "retry_sleeps ?evs = map (\<lambda>i. b ^ (i + 1)) [a..<a + Suc m]"
      using m(2) by simp
    moreover have "a + Suc m \<le> n" using m(1) by simp
    ultimately have c4: "\<exists>m'. a + m' \<le> n \<and> retry_sleeps ?evs = map (\<lambda>i. b ^ (i + 1)) [a..<a + m']"
      by blast
    have c1: "\<forall>ev \<in> set ?evs. (\<exists>q. ev = Request q \<and> Q (self w) q) \<or> (\<exists>k. ev = RetrySleep k)"
      using evs(3) q(1) by (auto simp: retry_events_def)
    have c2: "length (requests ?evs) \<le> n - a"
      using evs(3) lt by (auto simp: retry_events_def)
    have c3: "length ?evs \<le> 2 * (n - a)"
      using evs(3) lt by (auto simp: retry_events_def)
    have "retry_events (Q (self w)) b a n ?evs"
      unfolding retry_events_def using c1 c2 c3 c4 by blast
    with evs show ?case by blast
  qed
  show ?case
  proof (cases r1)
    case (Inr v)
    with Suc.prems f lt q single show ?thesis
      by (auto simp: retry_wrapper.simps)
  next
    case (Inl err)
    show ?thesis
    proof (cases err)
      case (GoogleApiError sc rs)
      show ?thesis
      proof (cases "log_gcp_api_err err")
        case (Inl err2)
        with Suc.prems f lt q single GoogleApiError \<open>r1 = Inl err\<close> show ?thesis
          by (auto simp: retry_wrapper.simps)
      next
        case (Inr u)
        with Suc.prems f lt GoogleApiError \<open>r1 = Inl err\<close>
        have "retry_wrapper func n b (a + 1) ?w2 = (r, w')"
          by (simp add: retry_wrapper.simps)
        then show ?thesis by (rule rec)
      qed
    next
      case SocketTimeout
      with Suc.prems f lt \<open>r1 = Inl err\<close>
      have "retry_wrapper func n b (a + 1) ?w2 = (r, w')"
        by (simp add: retry_wrapper.simps)
      then show ?thesis by (rule rec)
    qed (use Suc.prems f lt q single \<open>r1 = Inl err\<close> in \<open>auto simp: retry_wrapper.simps\<close>)
  qed
qed

lemma retry_events_only:
  assumes "\<forall>ev \<in> set evs. (\<exists>q. ev = Request q \<and> Q q) \<or> (\<exists>k. ev = RetrySleep k)"
  shows "calls op evs = 0" and "monitor_sleeps evs = []" and "\<forall>q \<in> set (requests evs). Q q"
  using assms by (induction evs) auto

lemma retry_eventsD:
  assumes "retry_events Q b a n evs"
  shows "calls op evs = 0" and "monitor_sleeps evs = []" and "\<forall>q \<in> set (requests evs). Q q"
    and "length (requests evs) \<le> n - a" and "length evs \<le> 2 * (n - a)"
  using assms retry_events_only[of evs Q] by (auto simp: retry_events_def)

lemma retry_trace:
  assumes "sends_one Q func" and "retry op func w = (r, w')"
  shows "self w' = self w \<and>
         (\<exists>evs. trace w' = trace w @ Call op # evs \<and> retry_events (Q (self w)) 2 0 MAX_RETRIES evs)"
  using retry_wrapper_trace[OF assms(1), of MAX_RETRIES 2 0 "emit (Call op) w" r w'] assms(2)
  by (simp add: retry_def)

lemma retry_wrapper_exhausted:
  assumes so: "sends_one Q func" and fr: "fails_retryably func"
  shows "a \<le> n \<Longrightarrow>
         \<exists>w' evs. retry_wrapper func n b a w = (Inr PNone, w') \<and> trace w' = trace w @ evs \<and>
           length (requests evs) = n - a \<and> retry_sleeps evs = map (\<lambda>i. b ^ (i + 1)) [a..<n]"
proof (induction "n - a" arbitrary: a w)
  case 0
  then show ?case by (simp add: retry_wrapper.simps)
next
  case (Suc k)
  then have lt: "a < n" by simp
  obtain r1 w1 where f: "func w = (r1, w1)" by fastforce
  from so f obtain q where q: "trace w1 = trace w @ [Request q]"
    unfolding sends_one_def by (metis snd_conv)
  let ?w2 = "emit (RetrySleep (b ^ (a + 1))) w1"
  have "r1 = Inl SocketTimeout \<or> (\<exists>sc rs. r1 = Inl (GoogleApiError (Some sc) (Some rs)))"
    using fr f unfolding fails_retryably_def by (metis fst_conv)
  then have step: "retry_wrapper func n b a w = retry_wrapper func n b (a + 1) ?w2"
    using f lt by (subst retry_wrapper.simps) auto
  have "k = n - (a + 1)" "a + 1 \<le> n" using Suc.hyps(2) by simp_all
  from Suc.hyps(1)[OF this, of ?w2] obtain w' evs where
    rec: "retry_wrapper func n b (a + 1) ?w2 = (Inr PNone, w')" "trace w' = trace ?w2 @ evs"
      "length (requests evs) = n - (a + 1)" "retry_sleeps evs = map (\<lambda>i. b ^ (i + 1)) [a + 1..<n]"
    by blast
  have "[a..<n] = a # [a + 1..<n]" using lt by (subst upt_rec) simp
  then have "retry_sleeps (Request q # RetrySleep (b ^ (a + 1)) # evs) = map (\<lambda>i. b ^ (i + 1)) [a..<n]"
    using rec(4) by simp
  moreover have "length (requests (Request q # RetrySleep (b ^ (a + 1)) # evs)) = n - a"
    using rec(3) lt by simp
  moreover have "trace w' = trace w @ Request q # RetrySleep (b ^ (a + 1)) # evs"
    using rec(2) q by simp
  ultimately show ?case using step rec(1) by metis
qed


subsection \<open>The remote calls\<close>

lemma sends_one_get_instance: "sends_one (\<lambda>s q. q = GetInstance (url s)) (get_instance_func e)"
  by (simp add: sends_one_def get_instance_func_def)

lemma sends_one_get_operation: "sends_one (\<lambda>s q. q = GetOperation u) (get_operation_func e u)"
  by (simp add: sends_one_def get_operation_func_def)

lemma sends_one_list_snapshots: "sends_one (\<lambda>s q. q = ListSnapshots (url s)) (list_snapshots_func e)"
  by (simp add: sends_one_def list_snapshots_func_def execute_def split: sum.splits)

lemma sends_one_create_snapshot:
  "sends_one (\<lambda>s q. \<exists>snap_name. q = CreateSnapshot (url s) snap_name) (create_snapshot_func e)"
  by (simp add: sends_one_def create_snapshot_func_def execute_def Let_def split: sum.splits)

lemma sends_one_delete_snapshot:
  "sends_one (\<lambda>s q. q = DeleteSnapshot (oldest_sched_snapshot s)) (delete_snapshot_func e)"
  by (simp add: sends_one_def delete_snapshot_func_def execute_def split: sum.splits)

lemmas get_instance_trace =
  retry_trace[OF sends_one_get_instance, of GetInstanceOp, folded get_instance_def]
lemmas get_operation_trace =
  retry_trace[OF sends_one_get_operation, of GetOperationOp, folded get_operation_def]
lemmas list_snapshots_trace =
  retry_trace[OF sends_one_list_snapshots, of ListSnapshotsOp, folded list_snapshots_def]
lemmas create_snapshot_trace =
  retry_trace[OF sends_one_create_snapshot, of CreateSnapshotOp, folded create_snapshot_def]
lemmas delete_snapshot_trace =
  retry_trace[OF sends_one_delete_snapshot, of DeleteSnapshotOp, folded delete_snapshot_def]



subsection \<open>Monitoring\<close>

lemma monitor_events_single:
  assumes "retry_events (\<lambda>q. q = GetOperation u) 2 0 MAX_RETRIES evs" and "a \<le> m"
  shows "monitor_events u m a (Call GetOperationOp # evs)"
proof -
  have "calls GetOperationOp evs = 0" "monitor_sleeps evs = []"
    "length (requests evs) \<le> 3" "length evs \<le> 6"
    using retry_eventsD[OF assms(1)] by (simp_all add: MAX_RETRIES_def)
  moreover have "\<forall>ev \<in> set evs. ev = Request (GetOperation u) \<or> (\<exists>k. ev = RetrySleep k)"
    using assms(1) by (auto simp: retry_events_def)
  ultimately show ?thesis using assms(2)
    unfolding monitor_events_def by auto
qed

lemma monitor_loop_trace:
  "monitor_loop e u m a w = (r, w') \<Longrightarrow>
   self w' = self w \<and> (\<exists>evs. trace w' = trace w @ evs \<and> monitor_events u m a evs)"
proof (induction "Suc m - a" arbitrary: a w r w')
  case 0
  then have "\<not> a \<le> m" by simp
  with 0 show ?case
    by (simp add: monitor_loop.simps monitor_events_def)
next
  case (Suc k)
  then have le: "a \<le> m" by simp
  obtain r1 w1 where g: "get_operation e u w = (r1, w1)" by fastforce
  from get_operation_trace[OF g] obtain evs1 where
    evs1: "self w1 = self w" "trace w1 = trace w @ Call GetOperationOp # evs1"
      "retry_events (\<lambda>q. q = GetOperation u) 2 0 MAX_RETRIES evs1"
    by blast
  have single: "monitor_events u m a (Call GetOperationOp # evs1)"
    using monitor_events_single[OF evs1(3) le] .
  have stop: "(r, w') = (r', w1) \<Longrightarrow> ?case" for r'
    using evs1 single by auto
  let ?w2 = "if a < m then emit (MonitorSleep (2 ^ a)) w1 else w1"
  have rec: ?case if run: "monitor_loop e u m (a + 1) ?w2 = (r, w')"
  proof -
    have "k = Suc m - (a + 1)" using Suc.hyps(2) by simp
    from Suc.hyps(1)[OF this run] obtain evs2 where
      evs2: "self w' = self ?w2" "trace w' = trace ?w2 @ evs2" "monitor_events u m (a + 1) evs2"
      by blast
    let ?c2 = "calls GetOperationOp evs2"
    have c1: "calls GetOperationOp evs1 = 0" "monitor_sleeps evs1 = []"
      "length (requests evs1) \<le> 3" "length evs1 \<le> 6"
      using retry_eventsD[OF evs1(3)] by (simp_all add: MAX_RETRIES_def)
    have a1: "\<forall>ev \<in> set evs1. ev = Request (GetOperation u) \<or> (\<exists>k. ev = RetrySleep k)"
      using evs1(3) by (auto simp: retry_events_def)
    from evs2(3) have
      b1: "\<forall>ev \<in> set evs2. ev = Call GetOperationOp \<or> ev = Request (GetOperation u) \<or>
             (\<exists>k. ev = RetrySleep k) \<or> (\<exists>k. ev = MonitorSleep k)"
      and b2: "?c2 \<le> Suc m - (a + 1)"
      and b3: "a + 1 \<le> m \<longrightarrow> 1 \<le> ?c2"
      and b4: "monitor_sleeps evs2 = map (\<lambda>k. 2 ^ k) [a + 1..<a + 1 + (?c2 - 1)]"
      and b5: "length (requests evs2) \<le> 3 * ?c2"
      and b6: "length evs2 \<le> 8 * ?c2"
      by (simp_all add: monitor_events_def)
    let ?mid = "if a < m then [MonitorSleep (2 ^ a)] else []"
    let ?evs = "Call GetOperationOp # evs1 @ ?mid @ evs2"
    have tr: "trace w' = trace w @ ?evs"
      using evs1(2) evs2(2) by simp
    have sf: "self w' = self w" using evs1(1) evs2(1) by simp
    have cc: "calls GetOperationOp ?evs = Suc ?c2" using c1(1) by simp
    have sl: "monitor_sleeps ?evs = map (\<lambda>k. 2 ^ k) [a..<a + ?c2]"
    proof (cases "a < m")
      case True
      then have "1 \<le> ?c2" using b3 by simp
      then have "[a..<a + ?c2] = a # [a + 1..<a + 1 + (?c2 - 1)]"
        by (subst upt_rec) simp
      then show ?thesis using True c1(2) b4 by simp
    next
      case False
      then have "?c2 = 0" using b2 le by simp
      then show ?thesis using False c1(2) b4 by simp
    qed
    have "monitor_events u m a ?evs"
      unfolding monitor_events_def cc
      using a1 b1 b2 le sl c1 b5 b6 by (intro conjI) auto
    with tr sf show ?thesis by blast
  qed
  show ?case
  proof (cases r1)
    case (Inl err)
    with Suc.prems g le show ?thesis
      by (intro stop[of "Inl err"]) (simp add: monitor_loop.simps)
  next
    case (Inr details)
    note d = this
    show ?thesis
    proof (cases "py_bool details")
      case False
      with Suc.prems g le d show ?thesis
        by (intro stop[of "Inr False"]) (simp add: monitor_loop.simps)
    next
      case True
      note t = this
      show ?thesis
      proof (cases "check_operation_details details")
        case (Inl err)
        with Suc.prems g le d t show ?thesis
          by (intro stop[of "Inl err"]) (simp add: monitor_loop.simps)
      next
        case (Inr ob)
        show ?thesis
        proof (cases ob)
          case None
          with Suc.prems g le d t Inr have "monitor_loop e u m (a + 1) ?w2 = (r, w')"
            by (simp add: monitor_loop.simps)
          then show ?thesis by (rule rec)
        next
          case (Some b)
          with Suc.prems g le d t Inr show ?thesis
            by (intro stop[of "Inr b"]) (simp add: monitor_loop.simps)
        qed
      qed
    qed
  qed
qed

subsection \<open>Validation of the request\<close>

lemma validate_json_total:
  "validate_json request_json =
     Inr (\<exists>kvs policy instances. request_json = PDict kvs \<and>
            map_of kvs ''retention_policy'' = Some (PStr policy) \<and> policy \<noteq> [] \<and>
            length policy \<le> 50 \<and>
            map_of kvs ''instances'' = Some (PList instances) \<and> instances \<noteq> [] \<and>
            length instances \<le> 8)"
proof (cases request_json)
  case (PDict kvs)
  show ?thesis
  proof (cases "map_of kvs ''retention_policy''")
    case None
    then show ?thesis using PDict
      by (simp add: validate_json_def validate_json_schema_def)
  next
    case (Some p)
    note p = this
    show ?thesis
    proof (cases "map_of kvs ''instances''")
      case None
      then show ?thesis using PDict p
        by (cases p) (simp_all add: validate_json_def validate_json_schema_def
            RETENTION_NAME_LENGTH_def)
    next
      case (Some i)
      then show ?thesis using PDict p
        by (cases p; cases i) (simp_all add: validate_json_def validate_json_schema_def
            RETENTION_NAME_LENGTH_def MAX_INSTANCES_def)
    qed
  qed
qed (simp_all add: validate_json_def validate_json_schema_def)

lemma validate_json_schema_if_valid:
  "validate_json request_json = Inr True \<Longrightarrow> validate_json_schema request_json"
  by (auto simp: validate_json_def split: if_splits)

text \<open>
  C9. \<open>validate_json\<close> never raises, and it accepts a request if and only if the
  request meets the schema (an object whose \<open>retention_policy\<close> is a string and whose
  \<open>instances\<close> is an array), \<open>retention_policy\<close> is there, not empty and of at most
  50 characters, and \<open>instances\<close> is there, not empty and of at most 8 entries. When
  it does not accept, \<open>main\<close> returns \<open>done with error\<close> and the trace is as it
  was: no instance has been looked at and no request has been sent.
\<close>

theorem validate_json_accepts_iff:
  "validate_json request_json =
     Inr (validate_json_schema request_json \<and>
          (\<exists>kvs policy instances. request_json = PDict kvs \<and>
             map_of kvs ''retention_policy'' = Some (PStr policy) \<and> policy \<noteq> [] \<and>
             length policy \<le> 50 \<and>
             map_of kvs ''instances'' = Some (PList instances) \<and> instances \<noteq> [] \<and>
             length instances \<le> 8)) \<and>
   (validate_json request_json \<noteq> Inr True \<longrightarrow>
      main e (Some request_json) tr = (Inr ''done with error'', tr))"
proof (intro conjI impI)
  show "validate_json request_json =
     Inr (validate_json_schema request_json \<and>
          (\<exists>kvs policy instances. request_json = PDict kvs \<and>
             map_of kvs ''retention_policy'' = Some (PStr policy) \<and> policy \<noteq> [] \<and>
             length policy \<le> 50 \<and>
             map_of kvs ''instances'' = Some (PList instances) \<and> instances \<noteq> [] \<and>
             length instances \<le> 8))"
    using validate_json_total[of request_json] validate_json_schema_if_valid[of request_json]
    by auto
next
  assume "validate_json request_json \<noteq> Inr True"
  then have "validate_json request_json = Inr False"
    using validate_json_total[of request_json] by auto
  then show "main e (Some request_json) tr = (Inr ''done with error'', tr)"
    by (simp add: main_def)
qed

theorem validate_json_accepts_iff_witness:
  "validate_json (request_of ''daily'' (replicate 9 (sample_instance_data (PInt 2)))) = Inr False \<and>
   main timeout_env (Some (request_of ''daily'' (replicate 9 (sample_instance_data (PInt 2))))) []
     = (Inr ''done with error'', []) \<and>
   validate_json (request_of ''daily'' (replicate 8 (sample_instance_data (PInt 2)))) = Inr True"
proof -
  let ?nine = "request_of ''daily'' (replicate 9 (sample_instance_data (PInt 2)))"
  let ?eight = "request_of ''daily'' (replicate 8 (sample_instance_data (PInt 2)))"
  have nine: "validate_json ?nine = Inr False"
    using validate_json_accepts_iff[of ?nine timeout_env "[]"]
    by (simp add: request_of_def)
  have eight: "validate_json ?eight = Inr True"
    using validate_json_accepts_iff[of ?eight timeout_env "[]"]
    by (simp add: request_of_def validate_json_schema_def)
  from nine have "validate_json ?nine \<noteq> Inr True" by simp
  with validate_json_accepts_iff[of ?nine timeout_env "[]"]
  have "main timeout_env (Some ?nine) [] = (Inr ''done with error'', [])" by blast
  with nine eight show ?thesis by blast
qed

subsection \<open>The orchestration\<close>

lemma delete_targets_none:
  "\<forall>q \<in> set (requests evs). \<forall>t. q \<noteq> DeleteSnapshot t \<Longrightarrow> delete_targets evs = []"
  by (induction evs) (auto simp: delete_targets_def requests_def split: event.splits request.splits)

lemma delete_targets_all:
  "\<forall>q \<in> set (requests evs). q = DeleteSnapshot t \<Longrightarrow>
   delete_targets evs = replicate (length (requests evs)) t"
  by (induction evs) (auto simp: delete_targets_def requests_def split: event.splits)

lemma monitor_eventsD:
  assumes "monitor_events u m a evs"
  shows "calls GetOperationOp evs \<le> Suc m - a"
    and "op \<noteq> GetOperationOp \<Longrightarrow> calls op evs = 0"
    and "\<forall>q \<in> set (requests evs). q = GetOperation u"
    and "monitor_sleeps evs = map (\<lambda>k. 2 ^ k) [a..<a + (calls GetOperationOp evs - 1)]"
    and "length (requests evs) \<le> 3 * calls GetOperationOp evs"
    and "length evs \<le> 8 * calls GetOperationOp evs"
proof -
  have a: "\<forall>ev \<in> set evs. ev = Call GetOperationOp \<or> ev = Request (GetOperation u) \<or>
          (\<exists>k. ev = RetrySleep k) \<or> (\<exists>k. ev = MonitorSleep k)"
    using assms by (simp add: monitor_events_def)
  then show "op \<noteq> GetOperationOp \<Longrightarrow> calls op evs = 0"
    by (induction evs) auto
  from a show "\<forall>q \<in> set (requests evs). q = GetOperation u"
    by (induction evs) auto
qed (use assms in \<open>simp_all add: monitor_events_def\<close>)

lemma monitor_operation_trace:
  assumes "monitor_operation e v w = (r, w')"
  shows "self w' = self w \<and>
         (\<exists>evs. trace w' = trace w @ evs \<and>
            (evs = [] \<or> (\<exists>u. v = PStr u \<and> monitor_events u 8 1 evs)))"
proof (cases v)
  case (PStr u)
  with assms have "monitor_loop e u 8 1 w = (r, w')"
    by (simp add: monitor_operation_def)
  from monitor_loop_trace[OF this] PStr show ?thesis by blast
qed (use assms in \<open>auto simp: monitor_operation_def\<close>)

text \<open>
  The shape of every run of \<open>increment_retention\<close>: the events of the creation, then
  those of the monitoring, then those of the deletion; the last are there if and only
  if the creation returned a handle, the monitoring returned \<open>True\<close> and a deletion
  is needed.
\<close>

lemma increment_retention_trace:
  assumes "increment_retention e w = (r, w')"
  shows "self w' = self w \<and>
    (\<exists>rc w1 evsC evsM evsD.
       create_snapshot e w = (rc, w1) \<and>
       trace w1 = trace w @ Call CreateSnapshotOp # evsC \<and>
       retry_events (\<lambda>q. \<exists>snap_name. q = CreateSnapshot (url (self w)) snap_name) 2 0 MAX_RETRIES evsC \<and>
       trace w' = trace w1 @ evsM @ evsD \<and>
       (evsM = [] \<or> (\<exists>u. rc = Inr (PStr u) \<and> monitor_events u 8 1 evsM)) \<and>
       (if \<exists>u w2. rc = Inr u \<and> py_bool u \<and> monitor_operation e u w1 = (Inr True, w2) \<and>
              deletion_needed (self w)
        then \<exists>evs. evsD = Call DeleteSnapshotOp # evs \<and>
               retry_events (\<lambda>q. q = DeleteSnapshot (oldest_sched_snapshot (self w))) 2 0 MAX_RETRIES evs
        else evsD = []))"
proof -
  obtain rc w1 where c: "create_snapshot e w = (rc, w1)" by fastforce
  from create_snapshot_trace[OF c] obtain evsC where
    evsC: "self w1 = self w" "trace w1 = trace w @ Call CreateSnapshotOp # evsC"
      "retry_events (\<lambda>q. \<exists>snap_name. q = CreateSnapshot (url (self w)) snap_name) 2 0 MAX_RETRIES evsC"
    by blast
  let ?del = "\<lambda>evsD. if \<exists>u w2. rc = Inr u \<and> py_bool u \<and> monitor_operation e u w1 = (Inr True, w2) \<and>
              deletion_needed (self w)
        then \<exists>evs. evsD = Call DeleteSnapshotOp # evs \<and>
               retry_events (\<lambda>q. q = DeleteSnapshot (oldest_sched_snapshot (self w))) 2 0 MAX_RETRIES evs
        else evsD = []"
  have goal: ?thesis
    if "self w' = self w" "trace w' = trace w1 @ evsM @ evsD"
      "evsM = [] \<or> (\<exists>u. rc = Inr (PStr u) \<and> monitor_events u 8 1 evsM)" "?del evsD"
    for evsM evsD
    using that c evsC by blast
  show ?thesis
  proof (cases rc)
    case (Inl err)
    with assms c have "w' = w1" by (simp add: increment_retention_def)
    with Inl evsC show ?thesis by (intro goal[of "[]" "[]"]) auto
  next
    case (Inr u)
    note u = this
    show ?thesis
    proof (cases "py_bool u")
      case False
      with assms c u have "w' = w1" by (simp add: increment_retention_def)
      with False u evsC show ?thesis by (intro goal[of "[]" "[]"]) auto
    next
      case True
      note t = this
      obtain rm w2 where m: "monitor_operation e u w1 = (rm, w2)" by fastforce
      from monitor_operation_trace[OF m] obtain evsM where
        evsM: "self w2 = self w1" "trace w2 = trace w1 @ evsM"
          "evsM = [] \<or> (\<exists>u'. u = PStr u' \<and> monitor_events u' 8 1 evsM)"
        by blast
      have evsM': "evsM = [] \<or> (\<exists>u. rc = Inr (PStr u) \<and> monitor_events u 8 1 evsM)"
        using evsM(3) u by auto
      show ?thesis
      proof (cases "rm = Inr True \<and> deletion_needed (self w)")
        case False
        with assms c u t m evsM(1) evsC(1) have "w' = w2"
          by (auto simp: increment_retention_def split: sum.splits if_splits)
        with False u m evsM evsC evsM' show ?thesis
          by (intro goal[of evsM "[]"]) auto
      next
        case True
        obtain rd w3 where d: "delete_snapshot e w2 = (rd, w3)" by fastforce
        from delete_snapshot_trace[OF d] obtain evs where
          evs: "self w3 = self w2" "trace w3 = trace w2 @ Call DeleteSnapshotOp # evs"
            "retry_events (\<lambda>q. q = DeleteSnapshot (oldest_sched_snapshot (self w2))) 2 0 MAX_RETRIES evs"
          by blast
        from assms c u t m True evsM(1) evsC(1) d have "w' = w3"
          by (auto simp: increment_retention_def split: sum.splits)
        with True u t m evs evsM evsC evsM' show ?thesis
          by (intro goal[of evsM "Call DeleteSnapshotOp # evs"]) auto
      qed
    qed
  qed
qed

subsection \<open>Runs against the sample service\<close>

lemma sample_create_snapshot:
  "create_snapshot (sample_env snaps details) w =
     (Inr (PStr ''projects/p/locations/l/operations/op-1''),
      w\<lparr>trace := trace w @
          [Call CreateSnapshotOp,
           Request (CreateSnapshot (url (self w))
             (''sched-'' @ retention_policy (self w) @ ''-20220103-000000''))]\<rparr>)"
  by (simp add: create_snapshot_def retry_def retry_wrapper.simps MAX_RETRIES_def
      create_snapshot_func_def execute_def sample_env_def sample_service_def emit_def
      SNAP_PREFIX_def)

lemma sample_get_operation:
  "get_operation (sample_env snaps details) u w =
     (Inr details, w\<lparr>trace := trace w @ [Call GetOperationOp, Request (GetOperation u)]\<rparr>)"
  by (simp add: get_operation_def retry_def retry_wrapper.simps MAX_RETRIES_def
      get_operation_func_def execute_def sample_env_def sample_service_def emit_def)

lemma sample_monitor_succeeded:
  "monitor_operation (sample_env snaps operation_succeeded) (PStr u) w =
     (Inr True, w\<lparr>trace := trace w @ [Call GetOperationOp, Request (GetOperation u)]\<rparr>)"
  by (simp add: monitor_operation_def monitor_loop.simps sample_get_operation
      check_operation_details_def operation_succeeded_def)

lemma sample_delete_snapshot:
  "oldest_sched_snapshot (self w) = PStr t \<Longrightarrow>
   delete_snapshot (sample_env snaps details) w =
     (Inr (PBool True),
      w\<lparr>trace := trace w @ [Call DeleteSnapshotOp, Request (DeleteSnapshot (PStr t))]\<rparr>)"
  by (simp add: delete_snapshot_def retry_def retry_wrapper.simps MAX_RETRIES_def
      delete_snapshot_func_def execute_def sample_env_def sample_service_def emit_def)

lemma sample_increment_retention:
  "n \<le> 2 \<Longrightarrow>
   increment_retention (sample_env two_snapshots operation_succeeded)
       \<lparr>self = sample_instance n, trace = tr\<rparr> =
     (Inr (),
      \<lparr>self = sample_instance n,
       trace = tr @
               [Call CreateSnapshotOp,
                Request (CreateSnapshot ''projects/p/locations/l/instances/i''
                           ''sched-daily-20220103-000000''),
                Call GetOperationOp,
                Request (GetOperation ''projects/p/locations/l/operations/op-1''),
                Call DeleteSnapshotOp,
                Request (DeleteSnapshot (PStr snapshot_jan1))]\<rparr>)"
  by (simp add: increment_retention_def sample_create_snapshot sample_monitor_succeeded
      sample_delete_snapshot[where t = snapshot_jan1] deletion_needed_def sample_instance_def)

lemma sample_increment_retention_keep:
  "2 < n \<Longrightarrow>
   increment_retention (sample_env two_snapshots operation_succeeded)
       \<lparr>self = sample_instance n, trace = tr\<rparr> =
     (Inr (),
      \<lparr>self = sample_instance n,
       trace = tr @
               [Call CreateSnapshotOp,
                Request (CreateSnapshot ''projects/p/locations/l/instances/i''
                           ''sched-daily-20220103-000000''),
                Call GetOperationOp,
                Request (GetOperation ''projects/p/locations/l/operations/op-1'')]\<rparr>)"
  by (simp add: increment_retention_def sample_create_snapshot sample_monitor_succeeded
      deletion_needed_def sample_instance_def)

lemma sample_creation_confirmed:
  "creation_confirmed (sample_env snaps operation_succeeded) w"
  by (simp add: creation_confirmed_def sample_create_snapshot sample_monitor_succeeded)


lemma creation_confirmed_iff:
  assumes "create_snapshot e w = (rc, w1)"
  shows "creation_confirmed e w \<longleftrightarrow>
         (\<exists>u w2. rc = Inr u \<and> py_bool u \<and> monitor_operation e u w1 = (Inr True, w2))"
  using assms
  by (cases rc) (auto simp: creation_confirmed_def intro: prod.collapse[symmetric]
      simp: prod_eq_iff)

lemma deletion_needed_iff:
  "deletion_needed s = (max_snapshots s \<le> int (length (scheduler_snapshots s)))"
  by (auto simp: deletion_needed_def)

lemma increment_retention_delete_calls:
  assumes "increment_retention e w = (r, w')"
  shows "\<exists>evs. trace w' = trace w @ evs \<and>
      calls DeleteSnapshotOp evs =
        (if creation_confirmed e w \<and> deletion_needed (self w) then 1 else 0) \<and>
      (\<forall>t \<in> set (delete_targets evs). t = oldest_sched_snapshot (self w)) \<and>
      length (delete_targets evs) \<le> MAX_RETRIES \<and>
      (\<not> (creation_confirmed e w \<and> deletion_needed (self w)) \<longrightarrow> delete_targets evs = [])"
proof -
  from increment_retention_trace[OF assms] obtain rc w1 evsC evsM evsD where
    c: "create_snapshot e w = (rc, w1)"
    and t1: "trace w1 = trace w @ Call CreateSnapshotOp # evsC"
    and evsC: "retry_events (\<lambda>q. \<exists>snap_name. q = CreateSnapshot (url (self w)) snap_name) 2 0 MAX_RETRIES evsC"
    and t2: "trace w' = trace w1 @ evsM @ evsD"
    and evsM: "evsM = [] \<or> (\<exists>u. rc = Inr (PStr u) \<and> monitor_events u 8 1 evsM)"
    and evsD: "if \<exists>u w2. rc = Inr u \<and> py_bool u \<and> monitor_operation e u w1 = (Inr True, w2) \<and>
              deletion_needed (self w)
        then \<exists>evs. evsD = Call DeleteSnapshotOp # evs \<and>
               retry_events (\<lambda>q. q = DeleteSnapshot (oldest_sched_snapshot (self w))) 2 0 MAX_RETRIES evs
        else evsD = []"
    by blast
  let ?evs = "Call CreateSnapshotOp # evsC @ evsM @ evsD"
  have tr: "trace w' = trace w @ ?evs" using t1 t2 by simp
  have cC: "calls DeleteSnapshotOp evsC = 0" "delete_targets evsC = []"
    using retry_eventsD(1,3)[OF evsC] by (auto intro: delete_targets_none)
  have cM: "calls DeleteSnapshotOp evsM = 0 \<and> delete_targets evsM = []"
  proof (cases "evsM = []")
    case False
    with evsM obtain u where u: "monitor_events u 8 1 evsM" by blast
    have "\<forall>q \<in> set (requests evsM). \<forall>t. q \<noteq> DeleteSnapshot t"
      using monitor_eventsD(3)[OF u] by auto
    then have "delete_targets evsM = []" by (rule delete_targets_none)
    moreover have "calls DeleteSnapshotOp evsM = 0"
      using monitor_eventsD(2)[OF u] by simp
    ultimately show ?thesis by simp
  qed simp
  let ?cond = "creation_confirmed e w \<and> deletion_needed (self w)"
  have cond: "?cond \<longleftrightarrow> (\<exists>u w2. rc = Inr u \<and> py_bool u \<and>
      monitor_operation e u w1 = (Inr True, w2) \<and> deletion_needed (self w))"
    using creation_confirmed_iff[OF c] by blast
  have cD: "calls DeleteSnapshotOp evsD = (if ?cond then 1 else 0) \<and>
      (\<forall>t \<in> set (delete_targets evsD). t = oldest_sched_snapshot (self w)) \<and>
      length (delete_targets evsD) \<le> MAX_RETRIES \<and> (\<not> ?cond \<longrightarrow> delete_targets evsD = [])"
  proof (cases ?cond)
    case True
    with evsD cond obtain evs where evs: "evsD = Call DeleteSnapshotOp # evs"
      "retry_events (\<lambda>q. q = DeleteSnapshot (oldest_sched_snapshot (self w))) 2 0 MAX_RETRIES evs"
      by auto
    have "delete_targets evs = replicate (length (requests evs)) (oldest_sched_snapshot (self w))"
      using retry_eventsD(3)[OF evs(2)] by (rule delete_targets_all)
    moreover have "length (requests evs) \<le> MAX_RETRIES" "calls DeleteSnapshotOp evs = 0"
      using retry_eventsD(1,4)[OF evs(2)] by simp_all
    ultimately show ?thesis using True evs(1) by auto
  next
    case False
    with evsD cond have "evsD = []" by auto
    with False show ?thesis by simp
  qed
  show ?thesis
    using tr cC cM cD by (intro exI[of _ ?evs]) auto
qed

text \<open>
  C1. In every run of \<open>increment_retention\<close> the decorated method
  \<open>delete_snapshot\<close> is entered once if the creation was confirmed (the create call
  returned a handle that is not empty and monitoring it returned \<open>True\<close>) and a
  deletion is needed, and not at all otherwise; every delete request that is sent
  names the oldest scheduler snapshot computed before, and the retries of the one
  call send at most \<open>MAX_RETRIES\<close> of them. Where the handle is empty or the monitoring
  fails, the method is not entered and no delete request is sent.
\<close>

theorem increment_retention_deletes_at_most_once:
  assumes "increment_retention e w = (r, w')"
  shows "\<exists>evs. trace w' = trace w @ evs \<and>
      calls DeleteSnapshotOp evs \<le> 1 \<and>
      (calls DeleteSnapshotOp evs = 1 \<longleftrightarrow> creation_confirmed e w \<and> deletion_needed (self w)) \<and>
      (\<forall>t \<in> set (delete_targets evs). t = oldest_sched_snapshot (self w)) \<and>
      length (delete_targets evs) \<le> MAX_RETRIES \<and>
      (\<not> creation_confirmed e w \<longrightarrow> calls DeleteSnapshotOp evs = 0 \<and> delete_targets evs = [])"
proof -
  from increment_retention_delete_calls[OF assms] obtain evs where
    "trace w' = trace w @ evs"
    "calls DeleteSnapshotOp evs =
        (if creation_confirmed e w \<and> deletion_needed (self w) then 1 else 0)"
    "\<forall>t \<in> set (delete_targets evs). t = oldest_sched_snapshot (self w)"
    "length (delete_targets evs) \<le> MAX_RETRIES"
    "\<not> (creation_confirmed e w \<and> deletion_needed (self w)) \<longrightarrow> delete_targets evs = []"
    by blast
  then show ?thesis
    by (intro exI[of _ evs]) (auto split: if_splits)
qed

theorem increment_retention_deletes_at_most_once_witness:
  "creation_confirmed (sample_env two_snapshots operation_succeeded)
     \<lparr>self = sample_instance 2, trace = []\<rparr> \<and>
   deletion_needed (sample_instance 2) \<and>
   (\<exists>w' evs. increment_retention (sample_env two_snapshots operation_succeeded)
        \<lparr>self = sample_instance 2, trace = []\<rparr> = (Inr (), w') \<and>
      trace w' = evs \<and> calls DeleteSnapshotOp evs = 1 \<and>
      delete_targets evs = [oldest_sched_snapshot (sample_instance 2)])"
proof -
  let ?e = "sample_env two_snapshots operation_succeeded"
  let ?w = "\<lparr>self = sample_instance 2, trace = []\<rparr>"
  have run: "increment_retention ?e ?w = (Inr (), snd (increment_retention ?e ?w))"
    by (simp add: sample_increment_retention)
  have conf: "creation_confirmed ?e ?w" by (rule sample_creation_confirmed)
  have need: "deletion_needed (sample_instance 2)"
    by (simp add: deletion_needed_def sample_instance_def)
  from increment_retention_deletes_at_most_once[OF run] obtain evs where
    evs: "trace (snd (increment_retention ?e ?w)) = trace ?w @ evs"
      "calls DeleteSnapshotOp evs = 1 \<longleftrightarrow> creation_confirmed ?e ?w \<and> deletion_needed (self ?w)"
    by blast
  from evs(2) conf need have one: "calls DeleteSnapshotOp evs = 1" by simp
  have "delete_targets (trace (snd (increment_retention ?e ?w))) =
      [oldest_sched_snapshot (sample_instance 2)]"
    by (simp add: sample_increment_retention) (simp add: sample_instance_def)
  with evs(1) one run conf need show ?thesis by auto
qed

subsection \<open>What one decorated call sends\<close>

text \<open>
  A run of a decorated call, attempt by attempt: each attempt sends one request, and a
  sleep follows each attempt that failed with an error that \<open>retry\<close> catches. So the
  requests are one more than the sleeps, unless every attempt failed; then the two are
  equal and the result is \<open>None\<close>.
\<close>

lemma retry_wrapper_run:
  assumes so: "sends_one Q func"
  shows "retry_wrapper func n b a w = (r, w') \<Longrightarrow> a < n \<Longrightarrow>
         \<exists>evs. trace w' = trace w @ evs \<and>
           (length (requests evs) = Suc (length (retry_sleeps evs)) \<and>
              length (retry_sleeps evs) < n - a \<or>
            length (requests evs) = n - a \<and> length (retry_sleeps evs) = n - a \<and> r = Inr PNone)"
proof (induction "n - a" arbitrary: a w)
  case 0
  then show ?case by simp
next
  case (Suc k)
  note lt = \<open>a < n\<close>
  obtain r1 w1 where f: "func w = (r1, w1)" by fastforce
  from so f obtain q where q: "trace w1 = trace w @ [Request q]"
    unfolding sends_one_def by (metis snd_conv)
  let ?w2 = "emit (RetrySleep (b ^ (a + 1))) w1"
  let ?again = "r1 = Inl SocketTimeout \<or>
      (\<exists>sc rs. r1 = Inl (GoogleApiError sc rs) \<and> log_gcp_api_err (GoogleApiError sc rs) = Inr ())"
  show ?case
  proof (cases ?again)
    case False
    have "retry_wrapper func n b a w = (fst (retry_wrapper func n b a w), w1)"
      using f lt False
      by (subst retry_wrapper.simps, subst (2) retry_wrapper.simps)
        (auto split: sum.splits py_error.splits)
    with Suc.prems(1) have "w' = w1" by simp
    with q lt show ?thesis by (intro exI[of _ "[Request q]"]) simp
  next
    case True
    then have step: "retry_wrapper func n b a w = retry_wrapper func n b (a + 1) ?w2"
      using f lt by (subst retry_wrapper.simps) auto
    show ?thesis
    proof (cases "a + 1 < n")
      case False
      with lt have "a + 1 = n" by simp
      then have "retry_wrapper func n b (a + 1) ?w2 = (Inr PNone, ?w2)"
        by (subst retry_wrapper.simps) simp
      with step Suc.prems(1) have "r = Inr PNone" "w' = ?w2" by simp_all
      with q \<open>a + 1 = n\<close> show ?thesis
        by (intro exI[of _ "[Request q, RetrySleep (b ^ (a + 1))]"]) auto
    next
      case True
      have "k = n - (a + 1)" using Suc.hyps(2) by simp
      from Suc.hyps(1)[OF this _ True, of ?w2] step Suc.prems(1) obtain evs where
        evs: "trace w' = trace ?w2 @ evs"
          "length (requests evs) = Suc (length (retry_sleeps evs)) \<and>
              length (retry_sleeps evs) < n - (a + 1) \<or>
           length (requests evs) = n - (a + 1) \<and> length (retry_sleeps evs) = n - (a + 1) \<and>
             r = Inr PNone"
        by auto
      let ?evs = "Request q # RetrySleep (b ^ (a + 1)) # evs"
      have "trace w' = trace w @ ?evs" using evs(1) q by simp
      moreover have "length (requests ?evs) = Suc (length (retry_sleeps ?evs)) \<and>
              length (retry_sleeps ?evs) < n - a \<or>
            length (requests ?evs) = n - a \<and> length (retry_sleeps ?evs) = n - a \<and> r = Inr PNone"
        using evs(2) True by auto
      ultimately show ?thesis by blast
    qed
  qed
qed

lemma retry_run:
  assumes "sends_one Q func" and "retry op func w = (r, w')"
  shows "\<exists>evs. trace w' = trace w @ Call op # evs \<and>
           (length (requests evs) = Suc (length (retry_sleeps evs)) \<and>
              length (retry_sleeps evs) < MAX_RETRIES \<or>
            length (requests evs) = MAX_RETRIES \<and> length (retry_sleeps evs) = MAX_RETRIES \<and>
              r = Inr PNone)"
  using retry_wrapper_run[OF assms(1), of MAX_RETRIES 2 0 "emit (Call op) w" r w'] assms(2)
  by (simp add: retry_def MAX_RETRIES_def)

lemma increment_retention_reaches_delete:
  assumes "increment_retention e w = (r, w')" and "creation_confirmed e w"
    and "deletion_needed (self w)"
  shows "\<exists>w2 rd evs0. delete_snapshot e w2 = (rd, w') \<and> self w2 = self w \<and>
           trace w2 = trace w @ evs0 \<and> calls DeleteSnapshotOp evs0 = 0 \<and>
           delete_targets evs0 = []"
proof -
  obtain rc w1 where c: "create_snapshot e w = (rc, w1)" by fastforce
  from creation_confirmed_iff[OF c] assms(2) obtain u w2 where
    u: "rc = Inr u" "py_bool u" "monitor_operation e u w1 = (Inr True, w2)"
    by blast
  from create_snapshot_trace[OF c] obtain evsC where
    evsC: "self w1 = self w" "trace w1 = trace w @ Call CreateSnapshotOp # evsC"
      "retry_events (\<lambda>q. \<exists>snap_name. q = CreateSnapshot (url (self w)) snap_name) 2 0 MAX_RETRIES evsC"
    by blast
  from monitor_operation_trace[OF u(3)] obtain evsM where
    evsM: "self w2 = self w1" "trace w2 = trace w1 @ evsM"
      "evsM = [] \<or> (\<exists>u'. u = PStr u' \<and> monitor_events u' 8 1 evsM)"
    by blast
  have cC: "calls DeleteSnapshotOp evsC = 0" "delete_targets evsC = []"
    using retry_eventsD(1,3)[OF evsC(3)] by (auto intro: delete_targets_none)
  have cM: "calls DeleteSnapshotOp evsM = 0 \<and> delete_targets evsM = []"
  proof (cases "evsM = []")
    case False
    with evsM(3) obtain u' where u': "monitor_events u' 8 1 evsM" by blast
    have "\<forall>q \<in> set (requests evsM). \<forall>t. q \<noteq> DeleteSnapshot t"
      using monitor_eventsD(3)[OF u'] by auto
    then have "delete_targets evsM = []" by (rule delete_targets_none)
    moreover have "calls DeleteSnapshotOp evsM = 0"
      using monitor_eventsD(2)[OF u'] by simp
    ultimately show ?thesis by simp
  qed simp
  obtain rd w3 where d: "delete_snapshot e w2 = (rd, w3)" by fastforce
  from assms(1,3) c u evsC(1) evsM(1) d have "w' = w3"
    by (auto simp: increment_retention_def split: sum.splits)
  with d evsC evsM cC cM show ?thesis
    by (intro exI[of _ w2] exI[of _ rd] exI[of _ "Call CreateSnapshotOp # evsC @ evsM"]) simp
qed

lemma increment_retention_delete_sent:
  assumes "increment_retention e w = (r, w')" and "creation_confirmed e w"
    and "deletion_needed (self w)"
  shows "\<exists>evs0 evsD. trace w' = trace w @ evs0 @ Call DeleteSnapshotOp # evsD \<and>
           calls DeleteSnapshotOp evs0 = 0 \<and> delete_targets evs0 = [] \<and>
           calls DeleteSnapshotOp evsD = 0 \<and>
           requests evsD =
             replicate (length (requests evsD)) (DeleteSnapshot (oldest_sched_snapshot (self w))) \<and>
           1 \<le> length (requests evsD) \<and> length (requests evsD) \<le> MAX_RETRIES \<and>
           (length (requests evsD) = Suc (length (retry_sleeps evsD)) \<or>
            length (retry_sleeps evsD) = MAX_RETRIES)"
proof -
  from increment_retention_reaches_delete[OF assms] obtain w2 rd evs0 where
    d: "delete_snapshot e w2 = (rd, w')" and s: "self w2 = self w"
    and t: "trace w2 = trace w @ evs0" "calls DeleteSnapshotOp evs0 = 0" "delete_targets evs0 = []"
    by blast
  from delete_snapshot_trace[OF d] s obtain evsD where
    evsD: "trace w' = trace w2 @ Call DeleteSnapshotOp # evsD"
      "retry_events (\<lambda>q. q = DeleteSnapshot (oldest_sched_snapshot (self w))) 2 0 MAX_RETRIES evsD"
    by auto
  from d have "retry DeleteSnapshotOp (delete_snapshot_func e) w2 = (rd, w')"
    by (simp add: delete_snapshot_def)
  from retry_run[OF sends_one_delete_snapshot this] evsD(1)
  have run: "length (requests evsD) = Suc (length (retry_sleeps evsD)) \<and>
              length (retry_sleeps evsD) < MAX_RETRIES \<or>
            length (requests evsD) = MAX_RETRIES \<and> length (retry_sleeps evsD) = MAX_RETRIES \<and>
              rd = Inr PNone"
    by auto
  have "\<forall>q \<in> set (requests evsD). q = DeleteSnapshot (oldest_sched_snapshot (self w))"
    using retry_eventsD(3)[OF evsD(2)] .
  then have "requests evsD =
      replicate (length (requests evsD)) (DeleteSnapshot (oldest_sched_snapshot (self w)))"
    by (simp add: replicate_length_same)
  moreover have "1 \<le> length (requests evsD)" "length (requests evsD) \<le> MAX_RETRIES"
    using run by (auto simp: MAX_RETRIES_def)
  moreover have "length (requests evsD) = Suc (length (retry_sleeps evsD)) \<or>
            length (retry_sleeps evsD) = MAX_RETRIES"
    using run by auto
  moreover have "trace w' = trace w @ evs0 @ Call DeleteSnapshotOp # evsD"
    using evsD(1) t(1) by simp
  moreover have "calls DeleteSnapshotOp evsD = 0"
    using retry_eventsD(1)[OF evsD(2)] .
  ultimately show ?thesis using t(2,3) by blast
qed


text \<open>
  C6. \<open>deletion_needed\<close> is true if and only if the number of scheduler snapshots
  is at least \<open>max_snapshots\<close>: true when the two are equal, true when the number is
  greater, false when it is less. In a run of \<open>increment_retention\<close> whose creation
  is confirmed and where the number is at or above \<open>max_snapshots\<close>, however far above,
  \<open>delete_snapshot\<close> is entered exactly once, and that one call sends at least one
  delete request and at most \<open>MAX_RETRIES\<close>; every delete request of the run is sent
  by that call and names the one oldest scheduler snapshot, and a further request is
  sent only after the sleep that follows a failed attempt, so the requests are one more
  than the sleeps unless every attempt failed. Where the number is below
  \<open>max_snapshots\<close>, the method is not entered and no delete request is sent.
\<close>

theorem deletion_needed_at_or_above_target:
  "deletion_needed s = (max_snapshots s \<le> int (length (scheduler_snapshots s))) \<and>
   (increment_retention e w = (r, w') \<and> creation_confirmed e w \<longrightarrow>
      (\<exists>evs. trace w' = trace w @ evs \<and>
         calls DeleteSnapshotOp evs =
           (if max_snapshots (self w) \<le> int (length (scheduler_snapshots (self w)))
            then 1 else 0) \<and>
         (if max_snapshots (self w) \<le> int (length (scheduler_snapshots (self w)))
          then 1 \<le> length (delete_targets evs) \<and> length (delete_targets evs) \<le> MAX_RETRIES \<and>
               set (delete_targets evs) = {oldest_sched_snapshot (self w)} \<and>
               (\<exists>evs0 evsD. evs = evs0 @ Call DeleteSnapshotOp # evsD \<and>
                  delete_targets evs0 = [] \<and>
                  (length (delete_targets evsD) = Suc (length (retry_sleeps evsD)) \<or>
                   length (retry_sleeps evsD) = MAX_RETRIES))
          else delete_targets evs = [])))"
proof (intro conjI impI)
  show "deletion_needed s = (max_snapshots s \<le> int (length (scheduler_snapshots s)))"
    by (rule deletion_needed_iff)
next
  assume a: "increment_retention e w = (r, w') \<and> creation_confirmed e w"
  let ?need = "max_snapshots (self w) \<le> int (length (scheduler_snapshots (self w)))"
  let ?old = "oldest_sched_snapshot (self w)"
  from a obtain evs where evs: "trace w' = trace w @ evs"
    "calls DeleteSnapshotOp evs =
        (if creation_confirmed e w \<and> deletion_needed (self w) then 1 else 0)"
    "\<not> (creation_confirmed e w \<and> deletion_needed (self w)) \<longrightarrow> delete_targets evs = []"
    using increment_retention_delete_calls[of e w r w'] by blast
  have calls: "calls DeleteSnapshotOp evs = (if ?need then 1 else 0)"
    using evs(2) a by (simp add: deletion_needed_iff)
  have rest: "if ?need
          then 1 \<le> length (delete_targets evs) \<and> length (delete_targets evs) \<le> MAX_RETRIES \<and>
               set (delete_targets evs) = {?old} \<and>
               (\<exists>evs0 evsD. evs = evs0 @ Call DeleteSnapshotOp # evsD \<and>
                  delete_targets evs0 = [] \<and>
                  (length (delete_targets evsD) = Suc (length (retry_sleeps evsD)) \<or>
                   length (retry_sleeps evsD) = MAX_RETRIES))
          else delete_targets evs = []"
  proof (cases ?need)
    case False
    with evs(3) show ?thesis by (simp add: deletion_needed_iff)
  next
    case True
    then have need: "deletion_needed (self w)" by (simp add: deletion_needed_iff)
    from a have run: "increment_retention e w = (r, w')" and conf: "creation_confirmed e w"
      by simp_all
    from increment_retention_delete_sent[OF run conf need] obtain evs0 evsD where
      d: "trace w' = trace w @ evs0 @ Call DeleteSnapshotOp # evsD"
        "delete_targets evs0 = []"
        "requests evsD = replicate (length (requests evsD)) (DeleteSnapshot ?old)"
        "1 \<le> length (requests evsD)" "length (requests evsD) \<le> MAX_RETRIES"
        "length (requests evsD) = Suc (length (retry_sleeps evsD)) \<or>
         length (retry_sleeps evsD) = MAX_RETRIES"
      by blast
    from d(1) evs(1) have split: "evs = evs0 @ Call DeleteSnapshotOp # evsD" by simp
    have "\<forall>q \<in> set (requests evsD). q = DeleteSnapshot ?old"
      using d(3) by (metis in_set_replicate)
    then have tD: "delete_targets evsD = replicate (length (requests evsD)) ?old"
      by (rule delete_targets_all)
    then have lD: "length (delete_targets evsD) = length (requests evsD)" by simp
    have tE: "delete_targets evs = delete_targets evsD" using split d(2) by simp
    have "set (delete_targets evs) = {?old}"
      using tE tD d(4) by (cases "length (requests evsD)") auto
    moreover have "1 \<le> length (delete_targets evs)" "length (delete_targets evs) \<le> MAX_RETRIES"
      using tE lD d(4,5) by simp_all
    moreover have "\<exists>evs0 evsD. evs = evs0 @ Call DeleteSnapshotOp # evsD \<and>
                  delete_targets evs0 = [] \<and>
                  (length (delete_targets evsD) = Suc (length (retry_sleeps evsD)) \<or>
                   length (retry_sleeps evsD) = MAX_RETRIES)"
      using split d(2,6) lD by (intro exI[of _ evs0] exI[of _ evsD]) simp
    ultimately show ?thesis using True by simp
  qed
  from evs(1) calls rest
  show "\<exists>evs. trace w' = trace w @ evs \<and>
         calls DeleteSnapshotOp evs = (if ?need then 1 else 0) \<and>
         (if ?need
          then 1 \<le> length (delete_targets evs) \<and> length (delete_targets evs) \<le> MAX_RETRIES \<and>
               set (delete_targets evs) = {?old} \<and>
               (\<exists>evs0 evsD. evs = evs0 @ Call DeleteSnapshotOp # evsD \<and>
                  delete_targets evs0 = [] \<and>
                  (length (delete_targets evsD) = Suc (length (retry_sleeps evsD)) \<or>
                   length (retry_sleeps evsD) = MAX_RETRIES))
          else delete_targets evs = [])"
    by (intro exI[of _ evs] conjI)
qed

theorem deletion_needed_at_or_above_target_witness:
  "deletion_needed (sample_instance 2) \<and> deletion_needed (sample_instance 1) \<and>
   \<not> deletion_needed (sample_instance 3) \<and>
   (\<exists>w' evs. increment_retention (sample_env two_snapshots operation_succeeded)
        \<lparr>self = sample_instance 1, trace = []\<rparr> = (Inr (), w') \<and>
      trace w' = evs \<and> calls DeleteSnapshotOp evs = 1 \<and>
      length (delete_targets evs) \<le> 3 \<and> set (delete_targets evs) = {PStr snapshot_jan1} \<and>
      delete_targets evs = [PStr snapshot_jan1]) \<and>
   (\<exists>w' evs. increment_retention (sample_env two_snapshots operation_succeeded)
        \<lparr>self = sample_instance 3, trace = []\<rparr> = (Inr (), w') \<and>
      trace w' = evs \<and> calls DeleteSnapshotOp evs = 0 \<and> delete_targets evs = [])"
proof -
  let ?e = "sample_env two_snapshots operation_succeeded"
  let ?w = "\<lambda>n. \<lparr>self = sample_instance n, trace = []\<rparr>"
  have dn: "deletion_needed (sample_instance 2)" "deletion_needed (sample_instance 1)"
    "\<not> deletion_needed (sample_instance 3)"
    using deletion_needed_at_or_above_target[of "sample_instance 2" ?e "?w 2" "Inr ()" "?w 2"]
      deletion_needed_at_or_above_target[of "sample_instance 1" ?e "?w 2" "Inr ()" "?w 2"]
      deletion_needed_at_or_above_target[of "sample_instance 3" ?e "?w 2" "Inr ()" "?w 2"]
    by (simp_all add: sample_instance_def)
  have run1: "increment_retention ?e (?w 1) = (Inr (), snd (increment_retention ?e (?w 1)))"
    by (simp add: sample_increment_retention)
  have run3: "increment_retention ?e (?w 3) = (Inr (), snd (increment_retention ?e (?w 3)))"
    by (simp add: sample_increment_retention_keep)
  have conf: "creation_confirmed ?e (?w n)" for n by (rule sample_creation_confirmed)
  have m3: "MAX_RETRIES = 3" by (simp add: MAX_RETRIES_def)
  from deletion_needed_at_or_above_target[of "sample_instance 1" ?e "?w 1" "Inr ()"
      "snd (increment_retention ?e (?w 1))"] run1 conf[of 1]
  obtain evs1 where evs1: "trace (snd (increment_retention ?e (?w 1))) = evs1"
    "calls DeleteSnapshotOp evs1 = 1" "length (delete_targets evs1) \<le> 3"
    "set (delete_targets evs1) = {PStr snapshot_jan1}"
    by (auto simp: sample_instance_def m3)
  have t1: "delete_targets (trace (snd (increment_retention ?e (?w 1)))) = [PStr snapshot_jan1]"
    by (simp add: sample_increment_retention)
  from deletion_needed_at_or_above_target[of "sample_instance 3" ?e "?w 3" "Inr ()"
      "snd (increment_retention ?e (?w 3))"] run3 conf[of 3]
  obtain evs3 where evs3: "trace (snd (increment_retention ?e (?w 3))) = evs3"
    "calls DeleteSnapshotOp evs3 = 0" "delete_targets evs3 = []"
    by (auto simp: sample_instance_def)
  from dn run1 run3 evs1 evs3 t1 show ?thesis by blast
qed

subsection \<open>Bounds on retrying and polling\<close>

lemma retry_bounded:
  assumes "sends_one Q func" and "retry op func w = (r, w')"
  shows "\<exists>evs. trace w' = trace w @ evs \<and> calls op evs = 1 \<and>
           length (requests evs) \<le> MAX_RETRIES \<and> length evs \<le> 1 + 2 * MAX_RETRIES"
proof -
  from retry_trace[OF assms] obtain evs where
    evs: "trace w' = trace w @ Call op # evs" "retry_events (Q (self w)) 2 0 MAX_RETRIES evs"
    by blast
  from retry_eventsD[OF evs(2)] evs(1) show ?thesis
    by (intro exI[of _ "Call op # evs"]) simp
qed

lemma retry_exhausted:
  assumes "sends_one Q func" and "fails_retryably func"
  shows "\<exists>w' evs. retry op func w = (Inr PNone, w') \<and> trace w' = trace w @ evs \<and>
           length (requests evs) = MAX_RETRIES \<and> retry_sleeps evs = [2, 4, 8]"
proof -
  from retry_wrapper_exhausted[OF assms, of 0 MAX_RETRIES 2 "emit (Call op) w"]
  obtain w' evs where
    evs: "retry_wrapper func MAX_RETRIES 2 0 (emit (Call op) w) = (Inr PNone, w')"
      "trace w' = trace (emit (Call op) w) @ evs"
      "length (requests evs) = MAX_RETRIES - 0"
      "retry_sleeps evs = map (\<lambda>i. 2 ^ (i + 1)) [0..<MAX_RETRIES]"
    by blast
  have "map (\<lambda>i. (2::nat) ^ (i + 1)) [0..<MAX_RETRIES] = [2, 4, 8]"
    by (simp add: MAX_RETRIES_def upt_rec)
  with evs show ?thesis
    by (intro exI[of _ w'] exI[of _ "Call op # evs"]) (simp add: retry_def)
qed

lemma create_none_stops:
  "create_snapshot e w = (Inr PNone, w1) \<Longrightarrow> increment_retention e w = (Inr (), w1)"
  by (simp add: increment_retention_def)

lemma get_operation_none_fails:
  "get_operation e u w = (Inr PNone, w1) \<Longrightarrow> a \<le> m \<Longrightarrow>
   monitor_loop e u m a w = (Inr False, w1)"
  by (simp add: monitor_loop.simps)

lemma monitor_operation_bounded:
  assumes "monitor_operation e (PStr u) w = (r, w')"
  shows "\<exists>evs. trace w' = trace w @ evs \<and>
           1 \<le> calls GetOperationOp evs \<and> calls GetOperationOp evs \<le> 8 \<and>
           monitor_sleeps evs = map (\<lambda>k. 2 ^ k) [1..<calls GetOperationOp evs] \<and>
           length (requests evs) \<le> 8 * MAX_RETRIES \<and> length evs \<le> 64"
proof -
  from assms have "monitor_loop e u 8 1 w = (r, w')"
    by (simp add: monitor_operation_def)
  from monitor_loop_trace[OF this] obtain evs where
    evs: "trace w' = trace w @ evs" "monitor_events u 8 1 evs"
    by blast
  define c where "c = calls GetOperationOp evs"
  from evs(2) have "1 \<le> (8::nat) \<longrightarrow> 1 \<le> c"
    unfolding monitor_events_def c_def by blast
  then have c1: "1 \<le> c" by simp
  have c8: "c \<le> Suc 8 - 1"
    unfolding c_def by (rule monitor_eventsD(1)[OF evs(2)])
  have sl: "monitor_sleeps evs = map (\<lambda>k. 2 ^ k) [1..<1 + (c - 1)]"
    unfolding c_def by (rule monitor_eventsD(4)[OF evs(2)])
  have rq: "length (requests evs) \<le> 3 * c"
    unfolding c_def by (rule monitor_eventsD(5)[OF evs(2)])
  have ln: "length evs \<le> 8 * c"
    unfolding c_def by (rule monitor_eventsD(6)[OF evs(2)])
  from c1 have "1 + (c - 1) = c" by arith
  with sl have sl': "monitor_sleeps evs = map (\<lambda>k. 2 ^ k) [1..<c]" by metis
  from c8 have c8': "c \<le> 8" by arith
  from rq c8' have rq': "length (requests evs) \<le> 8 * MAX_RETRIES"
    unfolding MAX_RETRIES_def by arith
  from ln c8' have ln': "length evs \<le> 64" by arith
  show ?thesis
    using evs(1) c1 c8' sl' rq' ln' unfolding c_def by blast
qed

lemma monitor_loop_all_pending:
  assumes pend: "\<forall>w0. \<exists>d. fst (get_operation e u w0) = Inr d \<and> pending d"
  shows "\<exists>w' evs. monitor_loop e u m a w = (Inr False, w') \<and> trace w' = trace w @ evs \<and>
           calls GetOperationOp evs = Suc m - a \<and>
           monitor_sleeps evs = map (\<lambda>k. 2 ^ k) [a..<m]"
proof (induction "Suc m - a" arbitrary: a w)
  case 0
  then show ?case by (simp add: monitor_loop.simps)
next
  case (Suc k)
  then have le: "a \<le> m" by simp
  from pend obtain d where d0: "fst (get_operation e u w) = Inr d" "pending d" by blast
  then obtain w1 where g: "get_operation e u w = (Inr d, w1)"
    by (cases "get_operation e u w") simp
  from get_operation_trace[OF g] obtain evs1 where
    evs1: "trace w1 = trace w @ Call GetOperationOp # evs1"
      "retry_events (\<lambda>q. q = GetOperation u) 2 0 MAX_RETRIES evs1"
    by blast
  have c1: "calls GetOperationOp evs1 = 0" "monitor_sleeps evs1 = []"
    using retry_eventsD[OF evs1(2)] by simp_all
  let ?w2 = "if a < m then emit (MonitorSleep (2 ^ a)) w1 else w1"
  let ?mid = "if a < m then [MonitorSleep (2 ^ a)] else []"
  have step: "monitor_loop e u m a w = monitor_loop e u m (a + 1) ?w2"
    using g le d0(2) by (subst monitor_loop.simps) (simp add: pending_def)
  have "k = Suc m - (a + 1)" using Suc.hyps(2) by simp
  from Suc.hyps(1)[OF this, of ?w2] obtain w' evs2 where
    rec: "monitor_loop e u m (a + 1) ?w2 = (Inr False, w')" "trace w' = trace ?w2 @ evs2"
      "calls GetOperationOp evs2 = Suc m - (a + 1)"
      "monitor_sleeps evs2 = map (\<lambda>k. 2 ^ k) [a + 1..<m]"
    by blast
  let ?evs = "Call GetOperationOp # evs1 @ ?mid @ evs2"
  have tr: "trace w' = trace w @ ?evs" using evs1(1) rec(2) by simp
  have "calls GetOperationOp ?evs = Suc (calls GetOperationOp evs2)"
    using c1(1) by simp
  then have cc: "calls GetOperationOp ?evs = Suc m - a"
    using rec(3) le by arith
  have sl: "monitor_sleeps ?evs = map (\<lambda>k. 2 ^ k) [a..<m]"
  proof (cases "a < m")
    case True
    then have "[a..<m] = a # [a + 1..<m]" by (subst upt_rec) simp
    with True c1(2) rec(4) show ?thesis by simp
  next
    case False
    with c1(2) rec(4) show ?thesis by simp
  qed
  from step rec(1) tr cc sl show ?case by metis
qed

lemma monitor_operation_all_pending:
  assumes "\<forall>w0. \<exists>d. fst (get_operation e u w0) = Inr d \<and> pending d"
  shows "\<exists>w' evs. monitor_operation e (PStr u) w = (Inr False, w') \<and> trace w' = trace w @ evs \<and>
           calls GetOperationOp evs = 8 \<and> monitor_sleeps evs = [2, 4, 8, 16, 32, 64, 128]"
proof -
  have "map (\<lambda>k. (2::nat) ^ k) [1..<8] = [2, 4, 8, 16, 32, 64, 128]"
    by (simp add: upt_rec)
  with monitor_loop_all_pending[OF assms, of 8 1 w] show ?thesis
    by (simp add: monitor_operation_def)
qed

subsection \<open>The oldest scheduler snapshot\<close>

lemma set_update_subset:
  "set (AList.update k v al) \<subseteq> insert (k, v) (set al)"
  by (induction al) auto

lemma min_from_least:
  "min_from b xs \<in> set (b # xs) \<and> (\<forall>y \<in> set (b # xs). snd (min_from b xs) \<le> snd y)"
proof (induction xs arbitrary: b)
  case Nil
  show ?case by simp
next
  case (Cons x xs)
  let ?b = "if snd x < snd b then x else b"
  from Cons[of ?b] have "min_from ?b xs \<in> set (?b # xs)"
    and le: "\<forall>y \<in> set (?b # xs). snd (min_from ?b xs) \<le> snd y" by blast+
  then have "min_from b (x # xs) \<in> set (b # x # xs)" by (auto split: if_splits)
  moreover have "snd (min_from ?b xs) \<le> snd ?b" using le by simp
  then have "snd (min_from b (x # xs)) \<le> snd b" "snd (min_from b (x # xs)) \<le> snd x"
    by (auto split: if_splits)
  ultimately show ?case using le by auto
qed

lemma epoch_loop_sound:
  assumes "epoch_loop e n xs d = Inr d'"
    and "\<forall>(k, v) \<in> set d. snapshot_epoch e n k = Inr v"
  shows "(\<forall>(k, v) \<in> set d'. snapshot_epoch e n k = Inr v) \<and>
         fst ` set d' = fst ` set d \<union> set xs"
  using assms
proof (induction xs arbitrary: d)
  case Nil
  then show ?case by simp
next
  case (Cons x xs)
  from Cons.prems(1) obtain ep where
    ep: "snapshot_epoch e n x = Inr ep"
    and rest: "epoch_loop e n xs (AList.update x ep d) = Inr d'"
    by (cases "snapshot_epoch e n x") (auto simp: epoch_step_def)
  have "\<forall>(k, v) \<in> set (AList.update x ep d). snapshot_epoch e n k = Inr v"
    using Cons.prems(2) ep set_update_subset[of x ep d] by auto
  from Cons.IH[OF rest this] show ?case
    by (auto simp: dom_update)
qed



lemma get_oldest_sound:
  assumes "get_oldest_scheduler_snapshot e s = Inr x" and "scheduler_snapshots s \<noteq> []"
  shows "\<exists>ep. x \<in> set (scheduler_snapshots s) \<and> embedded_epoch e s x = Inr ep \<and>
           (\<forall>y \<in> set (scheduler_snapshots s). \<forall>ep'. embedded_epoch e s y = Inr ep' \<longrightarrow> ep \<le> ep')"
proof -
  let ?n = "length (SNAP_PREFIX @ retention_policy s) + 1"
  from assms obtain d where d: "epoch_loop e ?n (scheduler_snapshots s) [] = Inr d"
    and m: "py_min_key d = Inr x"
    by (cases "epoch_loop e ?n (scheduler_snapshots s) []")
      (auto simp: get_oldest_scheduler_snapshot_def Let_def)
  from epoch_loop_sound[OF d] have
    good: "\<forall>(k, v) \<in> set d. snapshot_epoch e ?n k = Inr v"
    and keys: "fst ` set d = set (scheduler_snapshots s)" by auto
  from m obtain b bs where bs: "d = b # bs" "x = fst (min_from b bs)"
    by (cases d) (auto simp: py_min_key_def)
  let ?m = "min_from b bs"
  from min_from_least[of b bs] bs(1) have
    mem: "?m \<in> set d" and least: "\<forall>y \<in> set d. snd ?m \<le> snd y" by auto
  from mem good have ep: "snapshot_epoch e ?n (fst ?m) = Inr (snd ?m)" by (cases ?m) auto
  have "x \<in> set (scheduler_snapshots s)" using mem keys bs(2) by force
  moreover have "embedded_epoch e s x = Inr (snd ?m)"
    using ep bs(2) by (simp add: embedded_epoch_def)
  moreover have "snd ?m \<le> ep'"
    if "y \<in> set (scheduler_snapshots s)" "embedded_epoch e s y = Inr ep'" for y ep'
  proof -
    from that(1) keys obtain v where v: "(y, v) \<in> set d" by force
    with good have "snapshot_epoch e ?n y = Inr v" by auto
    with that(2) have "v = ep'" by (simp add: embedded_epoch_def)
    with least v show ?thesis by force
  qed
  ultimately show ?thesis by blast
qed


lemmas time_defs =
  strptime_time_pattern_def time_pattern_matches_def directive_Y_def directive_m_def
  directive_d_def directive_H_def directive_M_def directive_S_def two_digits_def one_digit_def
  literal_def is_digit_def digit_value_def mktime_utc_def days_from_civil_def
  days_in_month_def is_leap_def






subsection \<open>The scheduler snapshots\<close>

lemma scheduler_snapshot_step_cases:
  assumes "scheduler_snapshot_step policy x acc = Inr l"
  shows "l = acc \<or>
         (\<exists>n. l = acc @ [n] \<and> py_getitem x ''name'' = Inr n \<and>
            py_contains (SNAP_PREFIX @ policy @ ''-'') n = Inr True \<and>
            py_getitem x ''state'' = Inr (PStr ''READY''))"
  using assms
  by (cases "py_getitem x ''name''"; cases "py_getitem x ''state''")
    (auto simp: scheduler_snapshot_step_def py_then_def split: sum.splits if_splits)

lemma scheduler_snapshots_loop_names:
  assumes "scheduler_snapshots_loop policy xs acc = Inr l"
  shows "\<exists>ys. l = acc @ ys \<and>
           (\<forall>y \<in> set ys. \<exists>x \<in> set xs. py_getitem x ''name'' = Inr y \<and>
              py_contains (SNAP_PREFIX @ policy @ ''-'') y = Inr True \<and>
              py_getitem x ''state'' = Inr (PStr ''READY''))"
  using assms
proof (induction xs arbitrary: acc)
  case Nil
  then show ?case by simp
next
  case (Cons x xs)
  from Cons.prems obtain l1 where
    l1: "scheduler_snapshot_step policy x acc = Inr l1"
    and rest: "scheduler_snapshots_loop policy xs l1 = Inr l"
    by (cases "scheduler_snapshot_step policy x acc") auto
  from Cons.IH[OF rest] obtain ys where
    ys: "l = l1 @ ys" "\<forall>y \<in> set ys. \<exists>x \<in> set xs. py_getitem x ''name'' = Inr y \<and>
              py_contains (SNAP_PREFIX @ policy @ ''-'') y = Inr True \<and>
              py_getitem x ''state'' = Inr (PStr ''READY'')"
    by blast
  from scheduler_snapshot_step_cases[OF l1] show ?case
  proof
    assume "l1 = acc"
    with ys show ?thesis by (intro exI[of _ ys]) auto
  next
    assume "\<exists>n. l1 = acc @ [n] \<and> py_getitem x ''name'' = Inr n \<and>
            py_contains (SNAP_PREFIX @ policy @ ''-'') n = Inr True \<and>
            py_getitem x ''state'' = Inr (PStr ''READY'')"
    then obtain n where n: "l1 = acc @ [n]" "py_getitem x ''name'' = Inr n"
      "py_contains (SNAP_PREFIX @ policy @ ''-'') n = Inr True"
      "py_getitem x ''state'' = Inr (PStr ''READY'')" by blast
    with ys show ?thesis by (intro exI[of _ "n # ys"]) auto
  qed
qed

lemma validate_instance_requirements_iff:
  "validate_instance_requirements s = Inr True \<longleftrightarrow>
     (\<exists>t. tier s = Inr (PStr t) \<and> t \<in> set SUPPORTED_TIERS) \<and>
     (\<exists>n. py_len (snapshots s) = Inr n \<and> n \<noteq> MAX_NUMBER_OF_SNAPSHOTS) \<and>
     state s = Inr (PStr ''READY'')"
  by (cases "tier s"; cases "py_len (snapshots s)"; cases "state s")
    (auto simp: validate_instance_requirements_def)

subsection \<open>More runs against the sample service\<close>

lemma sample_get_instance:
  "get_instance (sample_env snaps details) w =
     (Inr ready_instance,
      w\<lparr>trace := trace w @ [Call GetInstanceOp, Request (GetInstance (url (self w)))]\<rparr>)"
  by (simp add: get_instance_def retry_def retry_wrapper.simps MAX_RETRIES_def
      get_instance_func_def execute_def sample_env_def sample_service_def emit_def)

lemma sample_list_snapshots:
  "list_snapshots (sample_env snaps details) w =
     (Inr snaps,
      w\<lparr>trace := trace w @ [Call ListSnapshotsOp, Request (ListSnapshots (url (self w)))]\<rparr>)"
  by (simp add: list_snapshots_def retry_def retry_wrapper.simps MAX_RETRIES_def
      list_snapshots_func_def execute_def sample_env_def sample_service_def emit_def)

lemma sample_resource_names:
  "strip CHR ''/'' (lstrip CHR ''/'' ''/projects/p/locations/l/instances/i/'') =
     ''projects/p/locations/l/instances/i''"
  "last (split CHR ''/'' ''projects/p/locations/l/instances/i'') = ''i''"
  "last (split CHR ''/'' snapshot_jan1) = ''sched-daily-20220101-000000''"
  "last (split CHR ''/'' snapshot_jan2) = ''sched-daily-20220102-000000''"
  "last (split CHR ''/'' snapshot_other_policy) = ''sched-daily-weekly-20220101-000000''"
  by (simp_all add: strip_def lstrip_def snapshot_jan1_def snapshot_jan2_def
      snapshot_other_policy_def)

lemma sample_scheduler_snapshots:
  "scheduler_snapshots_loop ''daily'' [ready_snapshot snapshot_jan2, ready_snapshot snapshot_jan1] []
     = Inr [PStr snapshot_jan2, PStr snapshot_jan1]"
  "scheduler_snapshots_loop ''daily''
     [ready_snapshot snapshot_other_policy, ready_snapshot snapshot_jan1] []
     = Inr [PStr snapshot_other_policy, PStr snapshot_jan1]"
  by (simp_all add: scheduler_snapshot_step_def ready_snapshot_def SNAP_PREFIX_def
      snapshot_jan1_def snapshot_jan2_def snapshot_other_policy_def)

lemma sample_epochs:
  "snapshot_epoch (sample_env snaps details) (length (SNAP_PREFIX @ ''daily'') + 1)
     (PStr snapshot_jan1) = Inr 1640995200"
  "snapshot_epoch (sample_env snaps details) (length (SNAP_PREFIX @ ''daily'') + 1)
     (PStr snapshot_jan2) = Inr 1641081600"
  "snapshot_epoch (sample_env snaps details) (length (SNAP_PREFIX @ ''daily'') + 1)
     (PStr snapshot_other_policy) = Inl ValueError"
  by (simp_all add: snapshot_epoch_def sample_resource_names sample_env_def SNAP_PREFIX_def
      time_defs)

lemma sample_epochs_at:
  "n = 12 \<Longrightarrow> snapshot_epoch (sample_env snaps details) n (PStr snapshot_jan1) = Inr 1640995200"
  "n = 12 \<Longrightarrow> snapshot_epoch (sample_env snaps details) n (PStr snapshot_jan2) = Inr 1641081600"
  "n = 12 \<Longrightarrow> snapshot_epoch (sample_env snaps details) n (PStr snapshot_other_policy) = Inl ValueError"
  using sample_epochs[of snaps details] by (simp_all add: SNAP_PREFIX_def eval_nat_numeral)

lemma sample_names_distinct:
  "snapshot_jan1 \<noteq> snapshot_jan2" "snapshot_jan2 \<noteq> snapshot_jan1"
  "snapshot_other_policy \<noteq> snapshot_jan1" "snapshot_jan1 \<noteq> snapshot_other_policy"
  by (simp_all add: snapshot_jan1_def snapshot_jan2_def snapshot_other_policy_def)

lemma sample_oldest:
  "retention_policy s = ''daily'' \<Longrightarrow>
   scheduler_snapshots s = [PStr snapshot_jan2, PStr snapshot_jan1] \<Longrightarrow>
   get_oldest_scheduler_snapshot (sample_env snaps details) s = Inr (PStr snapshot_jan1)"
  by (simp add: get_oldest_scheduler_snapshot_def epoch_step_def sample_epochs_at
      py_min_key_def sample_names_distinct SNAP_PREFIX_def)

lemma sample_oldest_raises:
  "retention_policy s = ''daily'' \<Longrightarrow>
   scheduler_snapshots s = [PStr snapshot_other_policy, PStr snapshot_jan1] \<Longrightarrow>
   get_oldest_scheduler_snapshot (sample_env snaps details) s = Inl ValueError"
  by (simp add: get_oldest_scheduler_snapshot_def epoch_step_def sample_epochs_at
      SNAP_PREFIX_def)

lemma sample_filestore_build:
  "filestore_build (sample_env snaps details) w =
     (Inr PNone, w\<lparr>trace := trace w @ [Request BuildClient]\<rparr>)"
  by (simp add: filestore_build_def execute_def sample_env_def sample_service_def emit_def)

lemma sample_scheduler_list:
  "retention_policy s = ''daily'' \<Longrightarrow> snapshots s = two_snapshots \<Longrightarrow>
   get_scheduler_snapshots_list s = Inr [PStr snapshot_jan2, PStr snapshot_jan1]"
  "retention_policy s = ''daily'' \<Longrightarrow> snapshots s = mixed_snapshots \<Longrightarrow>
   get_scheduler_snapshots_list s = Inr [PStr snapshot_other_policy, PStr snapshot_jan1]"
  using sample_scheduler_snapshots
  by (simp_all add: get_scheduler_snapshots_list_def two_snapshots_def mixed_snapshots_def)

lemma ready_instance_truthy: "py_bool ready_instance"
  by (simp add: ready_instance_def)

lemma sample_init:
  "init (sample_env two_snapshots details) (sample_instance_data (PInt n)) ''daily'' tr =
     (Inr (sample_instance n),
      tr @ [Request BuildClient,
            Call GetInstanceOp, Request (GetInstance ''projects/p/locations/l/instances/i''),
            Call ListSnapshotsOp, Request (ListSnapshots ''projects/p/locations/l/instances/i'')])"
  by (simp add: init_def Let_def sample_instance_data_def sample_resource_names
      sample_filestore_build sample_get_instance sample_list_snapshots sample_scheduler_list
      sample_oldest sample_instance_def ready_instance_truthy)

lemma sample_init_raises:
  "init (sample_env mixed_snapshots details) (sample_instance_data (PInt n)) ''daily'' tr =
     (Inl ValueError,
      tr @ [Request BuildClient,
            Call GetInstanceOp, Request (GetInstance ''projects/p/locations/l/instances/i''),
            Call ListSnapshotsOp, Request (ListSnapshots ''projects/p/locations/l/instances/i'')])"
  by (simp add: init_def Let_def sample_instance_data_def sample_resource_names
      sample_filestore_build sample_get_instance sample_list_snapshots sample_scheduler_list
      sample_oldest_raises ready_instance_truthy)


lemma sample_validate_instance_input:
  "validate_instance_input (sample_instance_data (PInt n)) = Inr (0 < n \<and> n \<le> 240)"
  "validate_instance_input (sample_instance_data (PStr ''ten'')) = Inl ValueError"
  by (auto simp: validate_instance_input_def sample_instance_data_def
      MAX_NUMBER_OF_SNAPSHOTS_def int_of_str_def INT_MAX_STR_DIGITS_def is_space_def
      is_digit_def)

lemma sample_validate_instance_requirements:
  "validate_instance_requirements (sample_instance n) = Inr True"
  by (simp add: validate_instance_requirements_def sample_instance_def tier_def state_def
      ready_instance_def SUPPORTED_TIERS_def two_snapshots_def MAX_NUMBER_OF_SNAPSHOTS_def)

lemma sample_instance_path:
  "py_getitem (sample_instance_data v) ''instance_path'' =
     Inr (PStr ''/projects/p/locations/l/instances/i/'')"
  by (simp add: sample_instance_data_def)

lemma sample_process_instance:
  "0 < n \<Longrightarrow> n \<le> 2 \<Longrightarrow>
   process_instance (sample_env two_snapshots operation_succeeded) ''daily''
       (sample_instance_data (PInt n)) tr =
     (Inr (),
      tr @ [Request BuildClient,
            Call GetInstanceOp, Request (GetInstance ''projects/p/locations/l/instances/i''),
            Call ListSnapshotsOp, Request (ListSnapshots ''projects/p/locations/l/instances/i''),
            Call CreateSnapshotOp,
            Request (CreateSnapshot ''projects/p/locations/l/instances/i''
                       ''sched-daily-20220103-000000''),
            Call GetOperationOp,
            Request (GetOperation ''projects/p/locations/l/operations/op-1''),
            Call DeleteSnapshotOp,
            Request (DeleteSnapshot (PStr snapshot_jan1))])"
  by (simp add: process_instance_def sample_validate_instance_input sample_instance_path
      sample_init sample_validate_instance_requirements sample_increment_retention)

text \<open>
  C2. Evaluation at an instance of a supported tier in state \<open>READY\<close> with 241
  snapshots: \<open>validate_instance_requirements\<close> returns \<open>True\<close>, since it compares
  the number of snapshots with the limit by equality.
\<close>

theorem validate_instance_requirements_over_limit:
  "py_len (snapshots over_limit_instance) = Inr 241 \<and>
   tier over_limit_instance = Inr (PStr ''ENTERPRISE'') \<and>
   state over_limit_instance = Inr (PStr ''READY'') \<and>
   validate_instance_requirements over_limit_instance = Inr True"
  by (simp add: validate_instance_requirements_def over_limit_instance_def sample_instance_def
      tier_def state_def ready_instance_def SUPPORTED_TIERS_def MAX_NUMBER_OF_SNAPSHOTS_def)

text \<open>
  C4. Evaluation at a list of two \<open>READY\<close> snapshots, the first taken by the policy
  \<open>daily-weekly\<close>: for the policy \<open>daily\<close> the subset holds both, since the name
  of the first contains \<open>sched-daily-\<close>, though the name does not match the naming
  convention for \<open>daily\<close>; the construction then raises \<open>ValueError\<close> where it
  parses what follows \<open>sched-daily-\<close> as a time stamp.
\<close>

theorem scheduler_snapshots_include_other_policy:
  "get_scheduler_snapshots_list ((sample_instance 2)\<lparr>snapshots := mixed_snapshots\<rparr>)
     = Inr [PStr snapshot_other_policy, PStr snapshot_jan1] \<and>
   \<not> matches_naming_convention ''daily'' snapshot_other_policy \<and>
   matches_naming_convention ''daily-weekly'' snapshot_other_policy \<and>
   matches_naming_convention ''daily'' snapshot_jan1 \<and>
   fst (init (sample_env mixed_snapshots operation_succeeded) (sample_instance_data (PInt 2))
          ''daily'' []) = Inl ValueError"
proof -
  have "get_scheduler_snapshots_list ((sample_instance 2)\<lparr>snapshots := mixed_snapshots\<rparr>)
     = Inr [PStr snapshot_other_policy, PStr snapshot_jan1]"
    by (rule sample_scheduler_list(2)) (simp_all add: sample_instance_def)
  moreover have "\<not> matches_naming_convention ''daily'' snapshot_other_policy"
    "matches_naming_convention ''daily-weekly'' snapshot_other_policy"
    "matches_naming_convention ''daily'' snapshot_jan1"
    by (simp_all add: matches_naming_convention_def sample_resource_names SNAP_PREFIX_def
        is_timestamp_def is_digit_def)
  ultimately show ?thesis by (simp add: sample_init_raises)
qed

subsection \<open>Polls that are done without an outcome\<close>

lemma done_without_outcome_pending:
  assumes "done_without_outcome d"
  shows "pending d"
proof (cases d)
  case (PDict kvs)
  with assms obtain dn where dn: "map_of kvs ''done'' = Some dn" "py_bool dn"
    "map_of kvs ''response'' = None" "map_of kvs ''error'' = None"
    by (auto simp: done_without_outcome_def split: option.splits)
  from dn(1) have "kvs \<noteq> []" by auto
  with PDict dn show ?thesis
    by (simp add: pending_def check_operation_details_def)
qed (use assms in \<open>simp_all add: done_without_outcome_def\<close>)

lemma monitor_loop_pending_step:
  assumes "get_operation e u w = (Inr d, w1)" and "pending d" and "a < m"
  shows "monitor_loop e u m a w = monitor_loop e u m (a + 1) (emit (MonitorSleep (2 ^ a)) w1)"
  using assms by (subst monitor_loop.simps) (simp add: pending_def)

text \<open>
  C10. A poll whose details say \<open>done\<close> and hold neither a \<open>response\<close> nor an
  \<open>error\<close> is not terminal: before the last attempt the loop sleeps
  \<open>2 ^ attempt\<close> seconds and goes on with the next attempt, which polls again. When
  every poll has this shape, monitoring polls 8 times, sleeps 2, 4, ..., 128 seconds
  between the polls and returns \<open>False\<close>.
\<close>

theorem monitor_done_without_outcome_not_terminal:
  "(get_operation e u w = (Inr d, w1) \<and> done_without_outcome d \<and> a < 8 \<longrightarrow>
      monitor_loop e u 8 a w =
        monitor_loop e u 8 (a + 1) (emit (MonitorSleep (2 ^ a)) w1)) \<and>
   ((\<forall>w0. \<exists>d. fst (get_operation e u w0) = Inr d \<and> done_without_outcome d) \<longrightarrow>
      (\<exists>w' evs. monitor_operation e (PStr u) w = (Inr False, w') \<and> trace w' = trace w @ evs \<and>
         calls GetOperationOp evs = 8 \<and> monitor_sleeps evs = [2, 4, 8, 16, 32, 64, 128]))"
proof (intro conjI impI)
  assume "get_operation e u w = (Inr d, w1) \<and> done_without_outcome d \<and> a < 8"
  then show "monitor_loop e u 8 a w =
        monitor_loop e u 8 (a + 1) (emit (MonitorSleep (2 ^ a)) w1)"
    using monitor_loop_pending_step[of e u w d w1 a 8] done_without_outcome_pending[of d]
    by blast
next
  assume "\<forall>w0. \<exists>d. fst (get_operation e u w0) = Inr d \<and> done_without_outcome d"
  then have "\<forall>w0. \<exists>d. fst (get_operation e u w0) = Inr d \<and> pending d"
    using done_without_outcome_pending by blast
  then show "\<exists>w' evs. monitor_operation e (PStr u) w = (Inr False, w') \<and> trace w' = trace w @ evs \<and>
         calls GetOperationOp evs = 8 \<and> monitor_sleeps evs = [2, 4, 8, 16, 32, 64, 128]"
    by (rule monitor_operation_all_pending)
qed

theorem monitor_done_without_outcome_not_terminal_witness:
  "done_without_outcome operation_done_only \<and>
   get_operation (sample_env two_snapshots operation_done_only) ''op-1''
       \<lparr>self = sample_instance 2, trace = []\<rparr>
     = (Inr operation_done_only,
        \<lparr>self = sample_instance 2,
         trace = [Call GetOperationOp, Request (GetOperation ''op-1'')]\<rparr>) \<and>
   monitor_loop (sample_env two_snapshots operation_done_only) ''op-1'' 8 1
       \<lparr>self = sample_instance 2, trace = []\<rparr>
     = monitor_loop (sample_env two_snapshots operation_done_only) ''op-1'' 8 2
         \<lparr>self = sample_instance 2,
          trace = [Call GetOperationOp, Request (GetOperation ''op-1''), MonitorSleep 2]\<rparr> \<and>
   (\<exists>w' evs. monitor_operation (sample_env two_snapshots operation_done_only) (PStr ''op-1'')
        \<lparr>self = sample_instance 2, trace = []\<rparr> = (Inr False, w') \<and>
      trace w' = evs \<and> calls GetOperationOp evs = 8 \<and>
      monitor_sleeps evs = [2, 4, 8, 16, 32, 64, 128])"
proof -
  let ?e = "sample_env two_snapshots operation_done_only"
  let ?w = "\<lparr>self = sample_instance 2, trace = []\<rparr>"
  let ?w1 = "\<lparr>self = sample_instance 2,
         trace = [Call GetOperationOp, Request (GetOperation ''op-1'')]\<rparr>"
  have d: "done_without_outcome operation_done_only"
    by (simp add: done_without_outcome_def operation_done_only_def)
  have g: "get_operation ?e ''op-1'' ?w = (Inr operation_done_only, ?w1)"
    by (simp add: sample_get_operation)
  have allp: "\<forall>w0. \<exists>d. fst (get_operation ?e ''op-1'' w0) = Inr d \<and> done_without_outcome d"
    using d by (simp add: sample_get_operation)
  note inst = monitor_done_without_outcome_not_terminal[of ?e "''op-1''" ?w operation_done_only ?w1 1]
  from inst g d have "monitor_loop ?e ''op-1'' 8 1 ?w =
      monitor_loop ?e ''op-1'' 8 (1 + 1) (emit (MonitorSleep (2 ^ 1)) ?w1)"
    by simp
  then have step: "monitor_loop ?e ''op-1'' 8 1 ?w = monitor_loop ?e ''op-1'' 8 2
         \<lparr>self = sample_instance 2,
          trace = [Call GetOperationOp, Request (GetOperation ''op-1''), MonitorSleep 2]\<rparr>"
    by (simp add: emit_def numeral_2_eq_2)
  from inst allp obtain w' evs where
    "monitor_operation ?e (PStr ''op-1'') ?w = (Inr False, w')" "trace w' = trace ?w @ evs"
    "calls GetOperationOp evs = 8" "monitor_sleeps evs = [2, 4, 8, 16, 32, 64, 128]"
    by blast
  with d g step show ?thesis by simp
qed

subsection \<open>What the callers do with no result\<close>

lemma init_instance_not_found:
  assumes "py_get d ''instance_path'' PNone = Inr (PStr p)"
    and "py_then (py_get d ''snapshots'' PNone) py_int = Inr n"
    and "\<forall>hist. \<exists>b. service e hist BuildClient = Inr b"
    and "fails_retryably (get_instance_func e)"
  shows "fst (init e d policy tr) = Inl InstanceNotFoundError"
proof -
  let ?u = "strip CHR ''/'' (lstrip CHR ''/'' p)"
  let ?w0 = "\<lparr>self = \<lparr>retention_policy = policy, url = ?u,
                 name = last (split CHR ''/'' ?u),
                 max_snapshots = n, filestore_instance_json = PNone,
                 snapshots = PNone, scheduler_snapshots = [],
                 oldest_sched_snapshot = PNone\<rparr>, trace = tr\<rparr>"
  from assms(3) obtain b where b: "service e tr BuildClient = Inr b" by blast
  let ?w1 = "emit (Request BuildClient) ?w0"
  have fb: "filestore_build e ?w0 = (Inr b, ?w1)"
    using b by (simp add: filestore_build_def execute_def)
  from retry_exhausted[OF sends_one_get_instance assms(4), where op = GetInstanceOp and w = ?w1]
  obtain w2 where gi: "get_instance e ?w1 = (Inr PNone, w2)"
    by (auto simp: get_instance_def)
  show ?thesis
    using assms(1,2) fb gi by (simp add: init_def Let_def)
qed

lemma validate_instance_input_accepts:
  assumes "validate_instance_input d = Inr True"
  shows "\<exists>kvs p s n. d = PDict kvs \<and> map_of kvs ''instance_path'' = Some p \<and> py_bool p \<and>
           map_of kvs ''snapshots'' = Some s \<and> py_bool s \<and> py_int s = Inr n \<and>
           0 < n \<and> n \<le> MAX_NUMBER_OF_SNAPSHOTS"
proof (cases d)
  case (PDict kvs)
  show ?thesis
  proof (cases "map_of kvs ''instance_path''")
    case None
    with assms PDict show ?thesis by (simp add: validate_instance_input_def)
  next
    case (Some p)
    note p = this
    show ?thesis
    proof (cases "map_of kvs ''snapshots''")
      case None
      with assms PDict p show ?thesis
        by (simp add: validate_instance_input_def split: if_splits)
    next
      case (Some s)
      with assms PDict p show ?thesis
        by (cases "py_int s") (auto simp: validate_instance_input_def split: if_splits)
    qed
  qed
qed (use assms in \<open>simp_all add: validate_instance_input_def\<close>)

lemma process_instance_not_found:
  assumes "validate_instance_input d = Inr True"
    and "py_get d ''instance_path'' PNone = Inr (PStr p)"
    and "\<forall>hist. \<exists>b. service e hist BuildClient = Inr b"
    and "fails_retryably (get_instance_func e)"
  shows "fst (init e d policy tr) = Inl InstanceNotFoundError \<and>
         fst (process_instance e policy d tr) = Inr ()"
proof -
  from validate_instance_input_accepts[OF assms(1)] obtain kvs p' s n where
    a: "d = PDict kvs" "map_of kvs ''instance_path'' = Some p'" "map_of kvs ''snapshots'' = Some s"
      "py_int s = Inr n"
    by blast
  then have n: "py_then (py_get d ''snapshots'' PNone) py_int = Inr n"
    and v: "py_getitem d ''instance_path'' = Inr p'"
    by simp_all
  have nf: "fst (init e d policy tr) = Inl InstanceNotFoundError"
    using init_instance_not_found[OF assms(2) n assms(3,4), of policy tr] .
  then obtain tr1 where "init e d policy tr = (Inl InstanceNotFoundError, tr1)"
    by (cases "init e d policy tr") auto
  with assms(1) v nf show ?thesis
    by (simp add: process_instance_def)
qed

text \<open>
  The bounds of the remote calls. Each of the five wrapped functions sends one request
  for each time it is called. A decorated call is entered once, sends at most
  \<open>MAX_RETRIES = 3\<close> requests and adds at most 7 events to the trace; when every attempt
  ends in an error that \<open>retry\<close> catches, it sends 3 requests, sleeps 2, 4 and 8 seconds
  and returns \<open>None\<close> (\<open>retry_run\<close> above reads the same off a single run). Three
  callers take \<open>None\<close> as the failure of the step: \<open>increment_retention\<close> stops after
  a creation that returned \<open>None\<close>, the monitor loop returns \<open>False\<close> on a poll that
  returned \<open>None\<close>, and the construction raises \<open>InstanceNotFoundError\<close> when
  \<open>get_instance\<close> returned \<open>None\<close>, on which \<open>main\<close> goes on with the next instance.
  Monitoring polls at least once and at most 8 times, sleeps \<open>2 ^ attempt\<close> seconds
  after attempt 1, 2, ... between two polls, sends at most 24 requests and adds at most
  64 events; when no poll is terminal it polls 8 times and returns \<open>False\<close>.
\<close>

lemma remote_calls_are_bounded:
  "(sends_one (\<lambda>s q. q = GetInstance (url s)) (get_instance_func e) \<and>
    sends_one (\<lambda>s q. q = GetOperation u) (get_operation_func e u) \<and>
    sends_one (\<lambda>s q. q = ListSnapshots (url s)) (list_snapshots_func e) \<and>
    sends_one (\<lambda>s q. \<exists>snap_name. q = CreateSnapshot (url s) snap_name) (create_snapshot_func e) \<and>
    sends_one (\<lambda>s q. q = DeleteSnapshot (oldest_sched_snapshot s)) (delete_snapshot_func e)) \<and>
   MAX_RETRIES = 3 \<and>
   (sends_one Q func \<and> retry op func w = (r, w') \<longrightarrow>
      (\<exists>evs. trace w' = trace w @ evs \<and> calls op evs = 1 \<and>
         length (requests evs) \<le> MAX_RETRIES \<and> length evs \<le> 1 + 2 * MAX_RETRIES)) \<and>
   (sends_one Q func \<and> fails_retryably func \<longrightarrow>
      (\<exists>w' evs. retry op func w = (Inr PNone, w') \<and> trace w' = trace w @ evs \<and>
         length (requests evs) = MAX_RETRIES \<and> retry_sleeps evs = [2, 4, 8])) \<and>
   (create_snapshot e w = (Inr PNone, w1) \<longrightarrow> increment_retention e w = (Inr (), w1)) \<and>
   (get_operation e u w = (Inr PNone, w1) \<and> a \<le> m \<longrightarrow>
      monitor_loop e u m a w = (Inr False, w1)) \<and>
   (validate_instance_input d = Inr True \<and> py_get d ''instance_path'' PNone = Inr (PStr p) \<and>
    (\<forall>hist. \<exists>b. service e hist BuildClient = Inr b) \<and> fails_retryably (get_instance_func e) \<longrightarrow>
      fst (init e d policy tr) = Inl InstanceNotFoundError \<and>
      fst (process_instance e policy d tr) = Inr ()) \<and>
   (monitor_operation e (PStr u) w = (rm, w') \<longrightarrow>
      (\<exists>evs. trace w' = trace w @ evs \<and>
         1 \<le> calls GetOperationOp evs \<and> calls GetOperationOp evs \<le> 8 \<and>
         monitor_sleeps evs = map (\<lambda>k. 2 ^ k) [1..<calls GetOperationOp evs] \<and>
         length (requests evs) \<le> 8 * MAX_RETRIES \<and> length evs \<le> 64)) \<and>
   ((\<forall>w0. \<exists>dt. fst (get_operation e u w0) = Inr dt \<and> pending dt) \<longrightarrow>
      (\<exists>w' evs. monitor_operation e (PStr u) w = (Inr False, w') \<and> trace w' = trace w @ evs \<and>
         calls GetOperationOp evs = 8 \<and> monitor_sleeps evs = [2, 4, 8, 16, 32, 64, 128]))"
proof (intro conjI impI)
  show "MAX_RETRIES = 3" by (simp add: MAX_RETRIES_def)
next
  assume "sends_one Q func \<and> retry op func w = (r, w')"
  then show "\<exists>evs. trace w' = trace w @ evs \<and> calls op evs = 1 \<and>
         length (requests evs) \<le> MAX_RETRIES \<and> length evs \<le> 1 + 2 * MAX_RETRIES"
    using retry_bounded[of Q func op w r w'] by blast
next
  assume "sends_one Q func \<and> fails_retryably func"
  then show "\<exists>w' evs. retry op func w = (Inr PNone, w') \<and> trace w' = trace w @ evs \<and>
         length (requests evs) = MAX_RETRIES \<and> retry_sleeps evs = [2, 4, 8]"
    using retry_exhausted[of Q func op w] by blast
next
  assume "create_snapshot e w = (Inr PNone, w1)"
  then show "increment_retention e w = (Inr (), w1)" by (rule create_none_stops)
next
  assume "get_operation e u w = (Inr PNone, w1) \<and> a \<le> m"
  then show "monitor_loop e u m a w = (Inr False, w1)"
    using get_operation_none_fails by blast
next
  assume a: "validate_instance_input d = Inr True \<and>
    py_get d ''instance_path'' PNone = Inr (PStr p) \<and>
    (\<forall>hist. \<exists>b. service e hist BuildClient = Inr b) \<and> fails_retryably (get_instance_func e)"
  then have "fst (init e d policy tr) = Inl InstanceNotFoundError \<and>
         fst (process_instance e policy d tr) = Inr ()"
    using process_instance_not_found[of d p e policy tr] by blast
  then show "fst (init e d policy tr) = Inl InstanceNotFoundError"
    and "fst (process_instance e policy d tr) = Inr ()" by simp_all
next
  assume "monitor_operation e (PStr u) w = (rm, w')"
  then show "\<exists>evs. trace w' = trace w @ evs \<and>
         1 \<le> calls GetOperationOp evs \<and> calls GetOperationOp evs \<le> 8 \<and>
         monitor_sleeps evs = map (\<lambda>k. 2 ^ k) [1..<calls GetOperationOp evs] \<and>
         length (requests evs) \<le> 8 * MAX_RETRIES \<and> length evs \<le> 64"
    by (rule monitor_operation_bounded)
next
  assume "\<forall>w0. \<exists>dt. fst (get_operation e u w0) = Inr dt \<and> pending dt"
  then show "\<exists>w' evs. monitor_operation e (PStr u) w = (Inr False, w') \<and> trace w' = trace w @ evs \<and>
         calls GetOperationOp evs = 8 \<and> monitor_sleeps evs = [2, 4, 8, 16, 32, 64, 128]"
    by (rule monitor_operation_all_pending)
qed (rule sends_one_get_instance sends_one_get_operation sends_one_list_snapshots
    sends_one_create_snapshot sends_one_delete_snapshot)+


lemma timeout_env_fails:
  "fails_retryably (create_snapshot_func timeout_env)"
  "fails_retryably (get_instance_func timeout_env)"
  "fails_retryably (get_operation_func timeout_env u)"
  "\<forall>hist. \<exists>b. service timeout_env hist BuildClient = Inr b"
  by (simp_all add: fails_retryably_def create_snapshot_func_def get_instance_func_def
      get_operation_func_def execute_def timeout_env_def Let_def)

lemma operation_done_only_pending: "pending operation_done_only"
  by (simp add: pending_def check_operation_details_def operation_done_only_def)

lemma remote_calls_are_bounded_witness:
  "(\<exists>w1 evs. create_snapshot timeout_env \<lparr>self = sample_instance 2, trace = []\<rparr> = (Inr PNone, w1) \<and>
      trace w1 = evs \<and> calls CreateSnapshotOp evs = 1 \<and> length (requests evs) = 3 \<and>
      retry_sleeps evs = [2, 4, 8] \<and>
      increment_retention timeout_env \<lparr>self = sample_instance 2, trace = []\<rparr> = (Inr (), w1)) \<and>
   (\<exists>w1. get_operation timeout_env ''op-1'' \<lparr>self = sample_instance 2, trace = []\<rparr> = (Inr PNone, w1) \<and>
      monitor_loop timeout_env ''op-1'' 8 1 \<lparr>self = sample_instance 2, trace = []\<rparr> = (Inr False, w1)) \<and>
   fst (init timeout_env (sample_instance_data (PInt 2)) ''daily'' []) = Inl InstanceNotFoundError \<and>
   fst (process_instance timeout_env ''daily'' (sample_instance_data (PInt 2)) []) = Inr () \<and>
   (\<exists>w' evs. monitor_operation (sample_env two_snapshots operation_done_only) (PStr ''op-1'')
        \<lparr>self = sample_instance 2, trace = []\<rparr> = (Inr False, w') \<and>
      trace w' = evs \<and> calls GetOperationOp evs = 8 \<and>
      monitor_sleeps evs = [2, 4, 8, 16, 32, 64, 128] \<and> length evs \<le> 64)"
proof -
  let ?w = "\<lparr>self = sample_instance 2, trace = []\<rparr>"
  let ?Qc = "\<lambda>s q. \<exists>snap_name. q = CreateSnapshot (url s) snap_name"
  let ?Qg = "\<lambda>(s::FilestoreInstance) q. q = GetOperation ''op-1''"
  \<comment> \<open>the creation runs out of attempts\<close>
  note c = remote_calls_are_bounded[where e = timeout_env and Q = ?Qc
      and func = "create_snapshot_func timeout_env" and op = CreateSnapshotOp and w = ?w]
  have so: "sends_one ?Qc (create_snapshot_func timeout_env)" using c by blast
  from c so timeout_env_fails(1) obtain w1 evs where
    run: "retry CreateSnapshotOp (create_snapshot_func timeout_env) ?w = (Inr PNone, w1)"
      "trace w1 = trace ?w @ evs" "length (requests evs) = MAX_RETRIES" "retry_sleeps evs = [2, 4, 8]"
    by meson
  have c3: "MAX_RETRIES = 3" using c by blast
  from remote_calls_are_bounded[where e = timeout_env and Q = ?Qc
      and func = "create_snapshot_func timeout_env" and op = CreateSnapshotOp and w = ?w
      and r = "Inr PNone" and w' = w1] so run(1)
  obtain evs' where "trace w1 = trace ?w @ evs'" "calls CreateSnapshotOp evs' = 1"
    by meson
  with run(2) have calls: "calls CreateSnapshotOp evs = 1" by simp
  from run(1) have cr: "create_snapshot timeout_env ?w = (Inr PNone, w1)"
    by (simp add: create_snapshot_def)
  with remote_calls_are_bounded[where e = timeout_env and w = ?w and ?w1.0 = w1]
  have stop: "increment_retention timeout_env ?w = (Inr (), w1)" by blast
  \<comment> \<open>a poll runs out of attempts\<close>
  note g = remote_calls_are_bounded[where e = timeout_env and u = "''op-1''" and Q = ?Qg
      and func = "get_operation_func timeout_env ''op-1''" and op = GetOperationOp and w = ?w]
  have sg: "sends_one ?Qg (get_operation_func timeout_env ''op-1'')" using g by blast
  from g sg timeout_env_fails(3)[of "''op-1''"] obtain w2 where
    "retry GetOperationOp (get_operation_func timeout_env ''op-1'') ?w = (Inr PNone, w2)"
    by meson
  then have go: "get_operation timeout_env ''op-1'' ?w = (Inr PNone, w2)"
    by (simp add: get_operation_def)
  with remote_calls_are_bounded[where e = timeout_env and u = "''op-1''" and w = ?w
      and ?w1.0 = w2 and a = 1 and m = 8]
  have mf: "monitor_loop timeout_env ''op-1'' 8 1 ?w = (Inr False, w2)" by simp
  \<comment> \<open>the instance is not found\<close>
  have vi: "validate_instance_input (sample_instance_data (PInt 2)) = Inr True"
    by (simp add: sample_validate_instance_input)
  have ip: "py_get (sample_instance_data (PInt 2)) ''instance_path'' PNone =
      Inr (PStr ''/projects/p/locations/l/instances/i/'')"
    by (simp add: sample_instance_data_def)
  from remote_calls_are_bounded[where e = timeout_env and d = "sample_instance_data (PInt 2)"
      and p = "''/projects/p/locations/l/instances/i/''" and policy = "''daily''" and tr = "[]"]
    vi ip timeout_env_fails(2,4)
  have nf: "fst (init timeout_env (sample_instance_data (PInt 2)) ''daily'' []) =
      Inl InstanceNotFoundError"
    "fst (process_instance timeout_env ''daily'' (sample_instance_data (PInt 2)) []) = Inr ()"
    by blast+
  \<comment> \<open>no poll is terminal\<close>
  let ?e = "sample_env two_snapshots operation_done_only"
  have allp: "\<forall>w0. \<exists>dt. fst (get_operation ?e ''op-1'' w0) = Inr dt \<and> pending dt"
    using operation_done_only_pending by (simp add: sample_get_operation)
  from remote_calls_are_bounded[where e = ?e and u = "''op-1''" and w = ?w] allp
  obtain w' evsm where
    mo: "monitor_operation ?e (PStr ''op-1'') ?w = (Inr False, w')" "trace w' = trace ?w @ evsm"
      "calls GetOperationOp evsm = 8" "monitor_sleeps evsm = [2, 4, 8, 16, 32, 64, 128]"
    by meson
  from remote_calls_are_bounded[where e = ?e and u = "''op-1''" and w = ?w
      and rm = "Inr False" and w' = w'] mo(1)
  obtain evsb where "trace w' = trace ?w @ evsb" "length evsb \<le> 64"
    by meson
  with mo(2) have len: "length evsm \<le> 64" by simp
  show ?thesis
    using cr run(2,3,4) c3 calls stop go mf nf mo len by simp
qed

subsection \<open>Construction and the run after it\<close>

lemma get_scheduler_snapshots_list_cong:
  "snapshots s' = snapshots s \<Longrightarrow> retention_policy s' = retention_policy s \<Longrightarrow>
   get_scheduler_snapshots_list s' = get_scheduler_snapshots_list s"
  by (simp add: get_scheduler_snapshots_list_def)

lemma get_oldest_scheduler_snapshot_cong:
  "scheduler_snapshots s' = scheduler_snapshots s \<Longrightarrow> retention_policy s' = retention_policy s \<Longrightarrow>
   get_oldest_scheduler_snapshot e s' = get_oldest_scheduler_snapshot e s"
  by (simp add: get_oldest_scheduler_snapshot_def)

lemma init_trace:
  assumes "init e d policy tr = (Inr s, tr1)"
  shows "\<exists>evsI evsL.
      tr1 = tr @ Request BuildClient # Call GetInstanceOp # evsI @ Call ListSnapshotsOp # evsL \<and>
      retry_events (\<lambda>q. q = GetInstance (url s)) 2 0 MAX_RETRIES evsI \<and>
      retry_events (\<lambda>q. q = ListSnapshots (url s)) 2 0 MAX_RETRIES evsL \<and>
      retention_policy s = policy \<and>
      get_scheduler_snapshots_list s = Inr (scheduler_snapshots s) \<and>
      get_oldest_scheduler_snapshot e s = Inr (oldest_sched_snapshot s)"
proof -
  from assms obtain p where p: "py_get d ''instance_path'' PNone = Inr (PStr p)"
    by (cases "py_get d ''instance_path'' PNone")
      (auto simp: init_def split: pyval.splits)
  let ?u = "strip CHR ''/'' (lstrip CHR ''/'' p)"
  from assms p obtain n where n: "py_then (py_get d ''snapshots'' PNone) py_int = Inr n"
    by (cases "py_then (py_get d ''snapshots'' PNone) py_int") (auto simp: init_def Let_def)
  let ?s0 = "\<lparr>retention_policy = policy, url = ?u, name = last (split CHR ''/'' ?u),
              max_snapshots = n, filestore_instance_json = PNone,
              snapshots = PNone, scheduler_snapshots = [], oldest_sched_snapshot = PNone\<rparr>"
  let ?w0 = "\<lparr>self = ?s0, trace = tr\<rparr>"
  obtain rb w1 where fb: "filestore_build e ?w0 = (rb, w1)" by fastforce
  then have w1: "w1 = emit (Request BuildClient) ?w0"
    by (auto simp: filestore_build_def execute_def)
  obtain rg w2 where gi: "get_instance e w1 = (rg, w2)" by fastforce
  from get_instance_trace[OF gi] w1 obtain evsI where
    evsI: "self w2 = ?s0" "trace w2 = tr @ Request BuildClient # Call GetInstanceOp # evsI"
      "retry_events (\<lambda>q. q = GetInstance ?u) 2 0 MAX_RETRIES evsI"
    by auto
  from assms p n fb gi obtain b details where rb: "rb = Inr b" and rg: "rg = Inr details"
    and truthy: "py_bool details"
    by (cases rb; cases rg) (auto simp: init_def Let_def split: if_splits)
  let ?w2' = "w2\<lparr>self := (self w2)\<lparr>filestore_instance_json := details\<rparr>\<rparr>"
  obtain rl w3 where ls: "list_snapshots e ?w2' = (rl, w3)" by fastforce
  from list_snapshots_trace[OF ls] evsI(1,2) obtain evsL where
    evsL: "self w3 = ?s0\<lparr>filestore_instance_json := details\<rparr>"
      "trace w3 = tr @ Request BuildClient # Call GetInstanceOp # evsI @ Call ListSnapshotsOp # evsL"
      "retry_events (\<lambda>q. q = ListSnapshots ?u) 2 0 MAX_RETRIES evsL"
    by auto
  let ?s1 = "\<lambda>snaps. (self w3)\<lparr>snapshots := snaps\<rparr>"
  from assms p n fb gi rb rg truthy ls obtain snaps sched oldest where
    rl: "rl = Inr snaps"
    and sched: "get_scheduler_snapshots_list (?s1 snaps) = Inr sched"
    and oldest: "get_oldest_scheduler_snapshot e ((?s1 snaps)\<lparr>scheduler_snapshots := sched\<rparr>) = Inr oldest"
    and s: "s = (?s1 snaps)\<lparr>scheduler_snapshots := sched, oldest_sched_snapshot := oldest\<rparr>"
    and tr1: "tr1 = trace w3"
    by (cases rl) (auto simp: init_def Let_def split: sum.splits)
  have "get_scheduler_snapshots_list s = Inr (scheduler_snapshots s)"
    using sched s get_scheduler_snapshots_list_cong[of s "?s1 snaps"] by simp
  moreover have "get_oldest_scheduler_snapshot e s = Inr (oldest_sched_snapshot s)"
    using oldest s
      get_oldest_scheduler_snapshot_cong[of s "(?s1 snaps)\<lparr>scheduler_snapshots := sched\<rparr>" e]
    by simp
  moreover have "url s = ?u" "retention_policy s = policy" using s evsL(1) by simp_all
  ultimately show ?thesis using evsI(3) evsL(2,3) tr1 by auto
qed

lemma scheduler_snapshots_from_listing:
  assumes "get_scheduler_snapshots_list s = Inr l" and "t \<in> set l"
  shows "\<exists>listing snap. py_iter (snapshots s) = Inr listing \<and> snap \<in> set listing \<and>
           py_getitem snap ''name'' = Inr t \<and> py_getitem snap ''state'' = Inr (PStr ''READY'')"
proof -
  from assms(1) obtain listing where listing: "py_iter (snapshots s) = Inr listing"
    and loop: "scheduler_snapshots_loop (retention_policy s) listing [] = Inr l"
    by (cases "py_iter (snapshots s)") (auto simp: get_scheduler_snapshots_list_def)
  from scheduler_snapshots_loop_names[OF loop] assms(2) listing show ?thesis by auto
qed

lemma oldest_is_member:
  assumes "get_oldest_scheduler_snapshot e s = Inr x"
  shows "(x = PNone \<and> scheduler_snapshots s = []) \<or> x \<in> set (scheduler_snapshots s)"
proof (cases "scheduler_snapshots s = []")
  case True
  with assms show ?thesis by (simp add: get_oldest_scheduler_snapshot_def)
next
  case False
  from get_oldest_sound[OF assms False] show ?thesis by blast
qed

lemma increment_retention_requests:
  assumes "increment_retention e w = (r, w')"
  shows "self w' = self w \<and>
    (\<exists>evs. trace w' = trace w @ evs \<and>
       calls ListSnapshotsOp evs = 0 \<and> calls GetInstanceOp evs = 0 \<and>
       (\<forall>q \<in> set (requests evs).
          (\<exists>snap_name. q = CreateSnapshot (url (self w)) snap_name) \<or> (\<exists>u. q = GetOperation u) \<or>
          q = DeleteSnapshot (oldest_sched_snapshot (self w))))"
proof -
  from increment_retention_trace[OF assms] have sf: "self w' = self w" by (rule conjunct1)
  from increment_retention_trace[OF assms] obtain rc w1 evsC evsM evsD where
    c: "create_snapshot e w = (rc, w1)"
    and t1: "trace w1 = trace w @ Call CreateSnapshotOp # evsC"
    and evsC: "retry_events (\<lambda>q. \<exists>snap_name. q = CreateSnapshot (url (self w)) snap_name) 2 0 MAX_RETRIES evsC"
    and t2: "trace w' = trace w1 @ evsM @ evsD"
    and evsM: "evsM = [] \<or> (\<exists>u. rc = Inr (PStr u) \<and> monitor_events u 8 1 evsM)"
    and evsD: "if \<exists>u w2. rc = Inr u \<and> py_bool u \<and> monitor_operation e u w1 = (Inr True, w2) \<and>
              deletion_needed (self w)
        then \<exists>evs. evsD = Call DeleteSnapshotOp # evs \<and>
               retry_events (\<lambda>q. q = DeleteSnapshot (oldest_sched_snapshot (self w))) 2 0 MAX_RETRIES evs
        else evsD = []"
    by blast
  let ?ok = "\<lambda>q. (\<exists>snap_name. q = CreateSnapshot (url (self w)) snap_name) \<or> (\<exists>u. q = GetOperation u) \<or>
          q = DeleteSnapshot (oldest_sched_snapshot (self w))"
  have C: "calls ListSnapshotsOp evsC = 0" "calls GetInstanceOp evsC = 0"
    "\<forall>q \<in> set (requests evsC). ?ok q"
    using retry_eventsD(1,3)[OF evsC] by auto
  have M: "calls ListSnapshotsOp evsM = 0 \<and> calls GetInstanceOp evsM = 0 \<and>
    (\<forall>q \<in> set (requests evsM). ?ok q)"
  proof (cases "evsM = []")
    case False
    with evsM obtain u where u: "monitor_events u 8 1 evsM" by blast
    from monitor_eventsD(2,3)[OF u] show ?thesis by auto
  qed simp
  have D: "calls ListSnapshotsOp evsD = 0 \<and> calls GetInstanceOp evsD = 0 \<and>
    (\<forall>q \<in> set (requests evsD). ?ok q)"
  proof (cases "evsD = []")
    case False
    with evsD obtain evs where evs: "evsD = Call DeleteSnapshotOp # evs"
      "retry_events (\<lambda>q. q = DeleteSnapshot (oldest_sched_snapshot (self w))) 2 0 MAX_RETRIES evs"
      by (auto split: if_splits)
    from retry_eventsD(1,3)[OF evs(2)] evs(1) show ?thesis by auto
  qed simp
  let ?evs = "Call CreateSnapshotOp # evsC @ evsM @ evsD"
  have "trace w' = trace w @ ?evs" using t1 t2 by simp
  moreover have "calls ListSnapshotsOp ?evs = 0" "calls GetInstanceOp ?evs = 0"
    using C M D by simp_all
  moreover have "\<forall>q \<in> set (requests ?evs). ?ok q"
    using C(3) M D by auto
  ultimately show ?thesis using sf by blast
qed

text \<open>
  C8. The object that \<open>init\<close> has built holds the snapshot list of the one list
  call of the construction, the scheduler snapshots computed from that list and the
  oldest of them. A run of \<open>increment_retention\<close> on it leaves the object as it is
  and sends no request but create, get-operation and delete requests: the instance
  and its snapshots are not fetched again. Every delete request names
  \<open>oldest_sched_snapshot\<close>, which is \<open>None\<close> or the name of a snapshot of the list
  fetched during construction, where no create request had been sent yet.
\<close>

theorem increment_retention_keeps_fetched_state:
  assumes "init e instance_data policy tr = (Inr s, tr1)"
    and "increment_retention e \<lparr>self = s, trace = tr1\<rparr> = (r, w')"
  shows "self w' = s \<and>
    get_scheduler_snapshots_list s = Inr (scheduler_snapshots s) \<and>
    get_oldest_scheduler_snapshot e s = Inr (oldest_sched_snapshot s) \<and>
    (\<exists>evs0 evs. tr1 = tr @ evs0 \<and> trace w' = tr1 @ evs \<and>
       calls GetInstanceOp evs0 = 1 \<and> calls ListSnapshotsOp evs0 = 1 \<and>
       (\<forall>q \<in> set (requests evs0).
          q = BuildClient \<or> q = GetInstance (url s) \<or> q = ListSnapshots (url s)) \<and>
       calls GetInstanceOp evs = 0 \<and> calls ListSnapshotsOp evs = 0 \<and>
       (\<forall>q \<in> set (requests evs).
          (\<exists>snap_name. q = CreateSnapshot (url s) snap_name) \<or> (\<exists>u. q = GetOperation u) \<or>
          q = DeleteSnapshot (oldest_sched_snapshot s))) \<and>
    (\<forall>t \<in> set (scheduler_snapshots s).
       \<exists>listing snap. py_iter (snapshots s) = Inr listing \<and> snap \<in> set listing \<and>
         py_getitem snap ''name'' = Inr t) \<and>
    ((oldest_sched_snapshot s = PNone \<and> scheduler_snapshots s = []) \<or>
     oldest_sched_snapshot s \<in> set (scheduler_snapshots s))"
proof -
  from init_trace[OF assms(1)] obtain evsI evsL where
    tr1: "tr1 = tr @ Request BuildClient # Call GetInstanceOp # evsI @ Call ListSnapshotsOp # evsL"
    and evsI: "retry_events (\<lambda>q. q = GetInstance (url s)) 2 0 MAX_RETRIES evsI"
    and evsL: "retry_events (\<lambda>q. q = ListSnapshots (url s)) 2 0 MAX_RETRIES evsL"
    and sched: "get_scheduler_snapshots_list s = Inr (scheduler_snapshots s)"
    and oldest: "get_oldest_scheduler_snapshot e s = Inr (oldest_sched_snapshot s)"
    by blast
  let ?evs0 = "Request BuildClient # Call GetInstanceOp # evsI @ Call ListSnapshotsOp # evsL"
  have c0: "calls GetInstanceOp ?evs0 = 1" "calls ListSnapshotsOp ?evs0 = 1"
    using retry_eventsD(1)[OF evsI] retry_eventsD(1)[OF evsL] by simp_all
  have q0: "\<forall>q \<in> set (requests ?evs0).
      q = BuildClient \<or> q = GetInstance (url s) \<or> q = ListSnapshots (url s)"
    using retry_eventsD(3)[OF evsI] retry_eventsD(3)[OF evsL] by auto
  from increment_retention_requests[OF assms(2)] obtain evs where
    sf: "self w' = s" and evs: "trace w' = tr1 @ evs"
      "calls ListSnapshotsOp evs = 0" "calls GetInstanceOp evs = 0"
      "\<forall>q \<in> set (requests evs).
          (\<exists>snap_name. q = CreateSnapshot (url s) snap_name) \<or> (\<exists>u. q = GetOperation u) \<or>
          q = DeleteSnapshot (oldest_sched_snapshot s)"
    by auto
  have fromlist: "\<forall>t \<in> set (scheduler_snapshots s).
       \<exists>listing snap. py_iter (snapshots s) = Inr listing \<and> snap \<in> set listing \<and>
         py_getitem snap ''name'' = Inr t"
    using scheduler_snapshots_from_listing[OF sched] by blast
  have mem: "(oldest_sched_snapshot s = PNone \<and> scheduler_snapshots s = []) \<or>
     oldest_sched_snapshot s \<in> set (scheduler_snapshots s)"
    using oldest_is_member[OF oldest] .
  have "\<exists>evs0 evs. tr1 = tr @ evs0 \<and> trace w' = tr1 @ evs \<and>
       calls GetInstanceOp evs0 = 1 \<and> calls ListSnapshotsOp evs0 = 1 \<and>
       (\<forall>q \<in> set (requests evs0).
          q = BuildClient \<or> q = GetInstance (url s) \<or> q = ListSnapshots (url s)) \<and>
       calls GetInstanceOp evs = 0 \<and> calls ListSnapshotsOp evs = 0 \<and>
       (\<forall>q \<in> set (requests evs).
          (\<exists>snap_name. q = CreateSnapshot (url s) snap_name) \<or> (\<exists>u. q = GetOperation u) \<or>
          q = DeleteSnapshot (oldest_sched_snapshot s))"
    using tr1 c0 q0 evs by (intro exI[of _ ?evs0] exI[of _ evs] conjI) assumption+
  with sf sched oldest fromlist mem show ?thesis by (intro conjI) assumption+
qed

theorem increment_retention_keeps_fetched_state_witness:
  "init (sample_env two_snapshots operation_succeeded) (sample_instance_data (PInt 2)) ''daily'' []
     = (Inr (sample_instance 2),
        [Request BuildClient,
         Call GetInstanceOp, Request (GetInstance ''projects/p/locations/l/instances/i''),
         Call ListSnapshotsOp, Request (ListSnapshots ''projects/p/locations/l/instances/i'')]) \<and>
   (\<exists>w'. increment_retention (sample_env two_snapshots operation_succeeded)
        \<lparr>self = sample_instance 2,
         trace = [Request BuildClient,
           Call GetInstanceOp, Request (GetInstance ''projects/p/locations/l/instances/i''),
           Call ListSnapshotsOp, Request (ListSnapshots ''projects/p/locations/l/instances/i'')]\<rparr>
        = (Inr (), w') \<and> self w' = sample_instance 2 \<and>
        delete_targets (trace w') = [PStr snapshot_jan1]) \<and>
   get_oldest_scheduler_snapshot (sample_env two_snapshots operation_succeeded) (sample_instance 2)
     = Inr (PStr snapshot_jan1) \<and>
   PStr snapshot_jan1 \<in> set (scheduler_snapshots (sample_instance 2))"
proof -
  let ?e = "sample_env two_snapshots operation_succeeded"
  let ?tr1 = "[Request BuildClient,
         Call GetInstanceOp, Request (GetInstance ''projects/p/locations/l/instances/i''),
         Call ListSnapshotsOp, Request (ListSnapshots ''projects/p/locations/l/instances/i'')]"
  let ?w = "\<lparr>self = sample_instance 2, trace = ?tr1\<rparr>"
  have i: "init ?e (sample_instance_data (PInt 2)) ''daily'' [] = (Inr (sample_instance 2), ?tr1)"
    by (simp add: sample_init)
  have run: "increment_retention ?e ?w = (Inr (), snd (increment_retention ?e ?w))"
    by (simp add: sample_increment_retention)
  from increment_retention_keeps_fetched_state[OF i run] have
    sf: "self (snd (increment_retention ?e ?w)) = sample_instance 2"
    and oldest: "get_oldest_scheduler_snapshot ?e (sample_instance 2) =
      Inr (oldest_sched_snapshot (sample_instance 2))"
    and mem: "(oldest_sched_snapshot (sample_instance 2) = PNone \<and>
        scheduler_snapshots (sample_instance 2) = []) \<or>
      oldest_sched_snapshot (sample_instance 2) \<in> set (scheduler_snapshots (sample_instance 2))"
    by blast+
  have o: "oldest_sched_snapshot (sample_instance 2) = PStr snapshot_jan1"
    by (simp add: sample_instance_def)
  have dt: "delete_targets (trace (snd (increment_retention ?e ?w))) = [PStr snapshot_jan1]"
    by (simp add: sample_increment_retention)
  from i run sf oldest mem o dt show ?thesis by auto
qed

subsection \<open>The outcomes of \<open>main\<close>\<close>

lemma validate_json_accepted:
  assumes "validate_json request_json = Inr True"
  shows "\<exists>policy instances. py_get request_json ''retention_policy'' PNone = Inr (PStr policy) \<and>
           py_getitem request_json ''instances'' = Inr (PList instances) \<and>
           py_then (py_getitem request_json ''instances'') py_iter = Inr instances"
proof -
  from assms validate_json_total[of request_json] obtain kvs policy instances where
    "request_json = PDict kvs" "map_of kvs ''retention_policy'' = Some (PStr policy)"
    "map_of kvs ''instances'' = Some (PList instances)"
    by auto
  then show ?thesis by simp
qed

lemma validate_json_result: "\<exists>b. validate_json request_json = Inr b"
  using validate_json_total[of request_json] by blast

lemma process_instances_append:
  "process_instances e policy (xs @ ys) tr =
     (case process_instances e policy xs tr of
        (Inl err, tr1) \<Rightarrow> (Inl err, tr1)
      | (Inr u, tr1) \<Rightarrow> process_instances e policy ys tr1)"
  by (induction xs arbitrary: tr) (auto split: prod.splits sum.splits)

lemma process_instance_skip:
  "validate_instance_input x = Inr False \<Longrightarrow> process_instance e policy x tr = (Inr (), tr)"
  by (simp add: process_instance_def)

lemma process_instances_skip:
  assumes "validate_instance_input x = Inr False"
  shows "process_instances e policy (xs @ x # ys) tr = process_instances e policy (xs @ ys) tr"
  using process_instance_skip[OF assms]
  by (simp add: process_instances_append split: prod.splits sum.splits)

lemma process_instances_raise:
  "process_instances e policy xs tr = (Inl err, tr') \<Longrightarrow>
   \<exists>x \<in> set xs. \<exists>tr0. process_instance e policy x tr0 = (Inl err, tr')"
proof (induction xs arbitrary: tr)
  case Nil
  then show ?case by simp
next
  case (Cons x xs)
  obtain r1 tr1 where p: "process_instance e policy x tr = (r1, tr1)" by fastforce
  show ?case
  proof (cases r1)
    case (Inl err1)
    with Cons.prems p show ?thesis by auto
  next
    case (Inr u)
    with Cons.prems p have "process_instances e policy xs tr1 = (Inl err, tr')" by simp
    from Cons.IH[OF this] show ?thesis by auto
  qed
qed

lemma process_instances_done:
  "\<forall>x \<in> set xs. \<forall>tr0. \<exists>tr1. process_instance e policy x tr0 = (Inr (), tr1) \<Longrightarrow>
   \<exists>tr'. process_instances e policy xs tr = (Inr (), tr')"
proof (induction xs arbitrary: tr)
  case Nil
  then show ?case by simp
next
  case (Cons x xs)
  from Cons.prems have "\<exists>tr1. process_instance e policy x tr = (Inr (), tr1)" by simp
  then obtain tr1 where p: "process_instance e policy x tr = (Inr (), tr1)" by blast
  from Cons.prems have "\<forall>x \<in> set xs. \<forall>tr0. \<exists>tr1. process_instance e policy x tr0 = (Inr (), tr1)"
    by simp
  from Cons.IH[OF this, of tr1] obtain tr' where
    "process_instances e policy xs tr1 = (Inr (), tr')" by blast
  with p show ?case by simp
qed

lemma main_returns:
  "main e request tr = (Inr out, tr') \<Longrightarrow> out = ''done'' \<or> out = ''done with error''"
  by (auto simp: main_def split: option.splits sum.splits bool.splits pyval.splits prod.splits)

lemma main_rejects:
  "request = None \<or> (\<exists>rj. request = Some rj \<and> validate_json rj = Inr False) \<Longrightarrow>
   main e request tr = (Inr ''done with error'', tr)"
  by (auto simp: main_def)

lemma main_raises_from_instance:
  assumes "main e request tr = (Inl err, tr')"
  shows "\<exists>rj policy instances x tr0. request = Some rj \<and>
           py_get rj ''retention_policy'' PNone = Inr (PStr policy) \<and>
           py_getitem rj ''instances'' = Inr (PList instances) \<and> x \<in> set instances \<and>
           process_instance e policy x tr0 = (Inl err, tr')"
proof -
  from assms obtain rj where rj: "request = Some rj"
    by (cases request) (auto simp: main_def)
  from validate_json_result[of rj] assms rj have v: "validate_json rj = Inr True"
    by (auto simp: main_def split: bool.splits)
  from validate_json_accepted[OF v] obtain policy instances where
    a: "py_get rj ''retention_policy'' PNone = Inr (PStr policy)"
      "py_getitem rj ''instances'' = Inr (PList instances)"
      "py_then (py_getitem rj ''instances'') py_iter = Inr instances"
    by blast
  with assms rj v have "process_instances e policy instances tr = (Inl err, tr')"
    by (auto simp: main_def split: prod.splits sum.splits)
  from process_instances_raise[OF this] a rj show ?thesis by blast
qed

lemma main_done:
  assumes "validate_json rj = Inr True"
    and "py_get rj ''retention_policy'' PNone = Inr (PStr policy)"
    and "py_getitem rj ''instances'' = Inr (PList instances)"
    and "\<forall>x \<in> set instances. \<forall>tr0. \<exists>tr1. process_instance e policy x tr0 = (Inr (), tr1)"
  shows "\<exists>tr1. main e (Some rj) tr = (Inr ''done'', tr1)"
proof -
  from process_instances_done[OF assms(4), of tr] obtain tr1 where
    "process_instances e policy instances tr = (Inr (), tr1)" by blast
  with assms(1,2,3) show ?thesis by (simp add: main_def)
qed

lemma validate_instance_input_rejects:
  assumes "(case map_of kvs ''instance_path'' of None \<Rightarrow> True | Some p \<Rightarrow> \<not> py_bool p) \<or>
           (case map_of kvs ''snapshots'' of None \<Rightarrow> True
            | Some s \<Rightarrow> \<not> py_bool s \<or> (\<exists>n. py_int s = Inr n \<and> (n \<le> 0 \<or> MAX_NUMBER_OF_SNAPSHOTS < n)))"
  shows "validate_instance_input (PDict kvs) = Inr False"
  using assms
  by (cases "map_of kvs ''instance_path''"; cases "map_of kvs ''snapshots''")
    (auto simp: validate_instance_input_def)


lemma refresh_error_init:
  "init refresh_error_env (sample_instance_data (PInt n)) ''daily'' tr =
     (Inl (OtherException ''RefreshError''),
      tr @ [Request BuildClient,
            Call GetInstanceOp, Request (GetInstance ''projects/p/locations/l/instances/i'')])"
proof -
  have b: "filestore_build refresh_error_env w =
      (Inr PNone, w\<lparr>trace := trace w @ [Request BuildClient]\<rparr>)" for w
    by (simp add: filestore_build_def execute_def refresh_error_env_def emit_def)
  have g: "get_instance refresh_error_env w =
      (Inl (OtherException ''RefreshError''),
       w\<lparr>trace := trace w @ [Call GetInstanceOp, Request (GetInstance (url (self w)))]\<rparr>)" for w
    by (simp add: get_instance_def retry_def retry_wrapper.simps MAX_RETRIES_def
        get_instance_func_def execute_def refresh_error_env_def emit_def)
  show ?thesis
    by (simp add: init_def Let_def sample_instance_data_def sample_resource_names b g)
qed

lemma refresh_error_process_instance:
  "0 < n \<Longrightarrow> n \<le> 240 \<Longrightarrow>
   process_instance refresh_error_env ''daily'' (sample_instance_data (PInt n)) tr =
     (Inl (OtherException ''RefreshError''),
      tr @ [Request BuildClient,
            Call GetInstanceOp, Request (GetInstance ''projects/p/locations/l/instances/i'')])"
  by (simp add: process_instance_def sample_validate_instance_input sample_instance_path
      refresh_error_init)

lemma sample_validate_json:
  "validate_json (request_of ''daily'' xs) = Inr (xs \<noteq> [] \<and> length xs \<le> 8)"
  by (simp add: validate_json_total request_of_def)

lemma sample_main:
  "main (sample_env two_snapshots operation_succeeded)
      (Some (request_of ''daily''
               [sample_instance_data (PInt 0), sample_instance_data (PInt 2)])) []
     = (Inr ''done'',
        [Request BuildClient,
         Call GetInstanceOp, Request (GetInstance ''projects/p/locations/l/instances/i''),
         Call ListSnapshotsOp, Request (ListSnapshots ''projects/p/locations/l/instances/i''),
         Call CreateSnapshotOp,
         Request (CreateSnapshot ''projects/p/locations/l/instances/i''
                    ''sched-daily-20220103-000000''),
         Call GetOperationOp,
         Request (GetOperation ''projects/p/locations/l/operations/op-1''),
         Call DeleteSnapshotOp,
         Request (DeleteSnapshot (PStr snapshot_jan1))])"
proof -
  have skip: "process_instance (sample_env two_snapshots operation_succeeded) ''daily''
      (sample_instance_data (PInt 0)) [] = (Inr (), [])"
    by (simp add: process_instance_def sample_validate_instance_input)
  show ?thesis
    by (simp add: main_def sample_validate_json skip sample_process_instance)
      (simp add: request_of_def skip sample_process_instance)
qed

text \<open>
  Two runs in which \<open>main\<close> raises. In the first the request is well formed and the
  service fails with an exception that is neither a \<open>googleapiclient\<close> error nor a
  socket timeout: \<open>retry\<close> does not catch it, the constructor passes it on, and
  \<open>main\<close>, which handles only \<open>InstanceNotFoundError\<close> there, passes it on to its
  caller. In the second the first instance has \<open>snapshots\<close> set to the string
  \<open>ten\<close>: \<open>int\<close> raises \<open>ValueError\<close> inside \<open>validate_instance_input\<close>, and the
  second instance is not processed.
\<close>

theorem main_raises_counterexample:
  "main refresh_error_env (Some (request_of ''daily'' [sample_instance_data (PInt 2)])) []
     = (Inl (OtherException ''RefreshError''),
        [Request BuildClient,
         Call GetInstanceOp, Request (GetInstance ''projects/p/locations/l/instances/i'')]) \<and>
   main (sample_env two_snapshots operation_succeeded)
      (Some (request_of ''daily''
               [sample_instance_data (PStr ''ten''), sample_instance_data (PInt 2)])) []
     = (Inl ValueError, [])"
proof -
  have raise: "process_instance (sample_env two_snapshots operation_succeeded) ''daily''
      (sample_instance_data (PStr ''ten'')) [] = (Inl ValueError, [])"
    by (simp add: process_instance_def sample_validate_instance_input)
  show ?thesis
    by (simp add: main_def sample_validate_json raise refresh_error_process_instance)
      (simp add: request_of_def raise refresh_error_process_instance)
qed

lemma process_instances_raises_at:
  assumes "process_instances e policy xs tr = (Inr (), tr1)"
    and "process_instance e policy x tr1 = (Inl err, tr2)"
  shows "process_instances e policy (xs @ x # ys) tr = (Inl err, tr2)"
  using assms by (simp add: process_instances_append)

lemma main_raises_at:
  assumes "validate_json rj = Inr True"
    and "py_get rj ''retention_policy'' PNone = Inr (PStr policy)"
    and "py_getitem rj ''instances'' = Inr (PList (xs @ x # ys))"
    and "process_instances e policy xs tr = (Inr (), tr1)"
    and "process_instance e policy x tr1 = (Inl err, tr2)"
  shows "main e (Some rj) tr = (Inl err, tr2)"
  using assms(1,2,3) process_instances_raises_at[OF assms(4,5), of ys]
  by (simp add: main_def)

lemma process_instance_passes_on:
  assumes "validate_instance_input x = Inr True"
  shows "init e x policy tr = (Inl err, tr1) \<Longrightarrow>
           process_instance e policy x tr =
             (if err = InstanceNotFoundError then Inr () else Inl err, tr1)"
    and "init e x policy tr = (Inr filer, tr1) \<Longrightarrow>
         validate_instance_requirements filer = Inl err \<Longrightarrow>
           process_instance e policy x tr = (Inl err, tr1)"
    and "init e x policy tr = (Inr filer, tr1) \<Longrightarrow>
         validate_instance_requirements filer = Inr True \<Longrightarrow>
         increment_retention e \<lparr>self = filer, trace = tr1\<rparr> = (Inl err, w2) \<Longrightarrow>
           process_instance e policy x tr = (Inl err, trace w2)"
proof -
  from validate_instance_input_accepts[OF assms] obtain kvs p where
    "x = PDict kvs" "map_of kvs ''instance_path'' = Some p"
    by blast
  then have v: "py_getitem x ''instance_path'' = Inr p" by simp
  show "init e x policy tr = (Inl err, tr1) \<Longrightarrow>
           process_instance e policy x tr =
             (if err = InstanceNotFoundError then Inr () else Inl err, tr1)"
    using assms v by (cases err) (simp_all add: process_instance_def)
  show "init e x policy tr = (Inr filer, tr1) \<Longrightarrow>
         validate_instance_requirements filer = Inl err \<Longrightarrow>
           process_instance e policy x tr = (Inl err, tr1)"
    using assms v by (simp add: process_instance_def)
  show "init e x policy tr = (Inr filer, tr1) \<Longrightarrow>
         validate_instance_requirements filer = Inr True \<Longrightarrow>
         increment_retention e \<lparr>self = filer, trace = tr1\<rparr> = (Inl err, w2) \<Longrightarrow>
           process_instance e policy x tr = (Inl err, trace w2)"
    using assms v by (simp add: process_instance_def)
qed

lemma timeout_init:
  "init timeout_env (sample_instance_data (PInt 2)) ''daily'' [] =
     (Inl InstanceNotFoundError,
      [Request BuildClient, Call GetInstanceOp,
       Request (GetInstance ''projects/p/locations/l/instances/i''), RetrySleep 2,
       Request (GetInstance ''projects/p/locations/l/instances/i''), RetrySleep 4,
       Request (GetInstance ''projects/p/locations/l/instances/i''), RetrySleep 8])"
proof -
  have b: "filestore_build timeout_env w =
      (Inr PNone, w\<lparr>trace := trace w @ [Request BuildClient]\<rparr>)" for w
    by (simp add: filestore_build_def execute_def timeout_env_def emit_def)
  have g: "get_instance timeout_env w =
      (Inr PNone,
       w\<lparr>trace := trace w @
          [Call GetInstanceOp, Request (GetInstance (url (self w))), RetrySleep 2,
           Request (GetInstance (url (self w))), RetrySleep 4,
           Request (GetInstance (url (self w))), RetrySleep 8]\<rparr>)" for w
    by (simp add: get_instance_def retry_def retry_wrapper.simps MAX_RETRIES_def
        get_instance_func_def execute_def timeout_env_def emit_def eval_nat_numeral)
  show ?thesis
    by (simp add: init_def Let_def sample_instance_data_def sample_resource_names b g)
qed

text \<open>
  C3. What \<open>main\<close> does with a request. Whenever it returns, it returns \<open>done\<close> or
  \<open>done with error\<close>. A body that is not JSON, or that \<open>validate_json\<close> rejects, gives
  \<open>done with error\<close> with nothing added to the trace. \<open>main\<close> raises nothing of
  its own: an exception that leaves it was raised while one instance of the batch was
  processed. If every instance is processed without an exception, the result is
  \<open>done\<close>. An instance entry that is an object and whose \<open>instance_path\<close> is
  missing or empty, or whose \<open>snapshots\<close> is missing, falsy, or converts to an
  integer that is not in 1..240, fails \<open>validate_instance_input\<close>; such an entry is
  skipped with no effect, and the batch is processed as if the entry were not there.
  Conversely, an exception raised
  while an instance is processed, the instances before it having been processed
  without one, leaves \<open>main\<close> with the trace as it was when the exception was
  raised, and the instances after it are not processed. For an instance that passed
  \<open>validate_instance_input\<close>, the one exception that does not leave its processing is
  \<open>InstanceNotFoundError\<close> raised by the constructor: the instance is then skipped.
  Every other exception of the constructor, and every exception of
  \<open>validate_instance_requirements\<close> and of \<open>increment_retention\<close>, is passed on.
\<close>

theorem main_outcomes_and_skipping:
  "(main e request tr = (Inr out, tr') \<longrightarrow> out = ''done'' \<or> out = ''done with error'') \<and>
   (request = None \<or> (\<exists>rj. request = Some rj \<and> validate_json rj = Inr False) \<longrightarrow>
      main e request tr = (Inr ''done with error'', tr)) \<and>
   (main e request tr = (Inl err, tr') \<longrightarrow>
      (\<exists>rj policy instances x tr0. request = Some rj \<and>
         py_get rj ''retention_policy'' PNone = Inr (PStr policy) \<and>
         py_getitem rj ''instances'' = Inr (PList instances) \<and> x \<in> set instances \<and>
         process_instance e policy x tr0 = (Inl err, tr'))) \<and>
   (validate_json rj = Inr True \<and>
    py_get rj ''retention_policy'' PNone = Inr (PStr policy) \<and>
    py_getitem rj ''instances'' = Inr (PList instances) \<and>
    (\<forall>x \<in> set instances. \<forall>tr0. \<exists>tr1. process_instance e policy x tr0 = (Inr (), tr1)) \<longrightarrow>
      (\<exists>tr1. main e (Some rj) tr = (Inr ''done'', tr1))) \<and>
   ((case map_of kvs ''instance_path'' of None \<Rightarrow> True | Some p \<Rightarrow> \<not> py_bool p) \<or>
    (case map_of kvs ''snapshots'' of None \<Rightarrow> True
     | Some s \<Rightarrow> \<not> py_bool s \<or>
         (\<exists>n. py_int s = Inr n \<and> (n \<le> 0 \<or> MAX_NUMBER_OF_SNAPSHOTS < n))) \<longrightarrow>
      validate_instance_input (PDict kvs) = Inr False) \<and>
   (validate_instance_input x = Inr False \<longrightarrow>
      process_instance e policy x tr = (Inr (), tr) \<and>
      process_instances e policy (xs @ x # ys) tr = process_instances e policy (xs @ ys) tr) \<and>
   (validate_json rj = Inr True \<and>
    py_get rj ''retention_policy'' PNone = Inr (PStr policy) \<and>
    py_getitem rj ''instances'' = Inr (PList (xs @ x # ys)) \<and>
    process_instances e policy xs tr = (Inr (), tr1) \<and>
    process_instance e policy x tr1 = (Inl err, tr2) \<longrightarrow>
      main e (Some rj) tr = (Inl err, tr2)) \<and>
   (validate_instance_input x = Inr True \<and> init e x policy tr = (Inl err, tr1) \<longrightarrow>
      process_instance e policy x tr =
        (if err = InstanceNotFoundError then Inr () else Inl err, tr1)) \<and>
   (validate_instance_input x = Inr True \<and> init e x policy tr = (Inr filer, tr1) \<and>
    validate_instance_requirements filer = Inl err \<longrightarrow>
      process_instance e policy x tr = (Inl err, tr1)) \<and>
   (validate_instance_input x = Inr True \<and> init e x policy tr = (Inr filer, tr1) \<and>
    validate_instance_requirements filer = Inr True \<and>
    increment_retention e \<lparr>self = filer, trace = tr1\<rparr> = (Inl err, w2) \<longrightarrow>
      process_instance e policy x tr = (Inl err, trace w2))"
proof (intro conjI impI)
  assume "main e request tr = (Inr out, tr')"
  then show "out = ''done'' \<or> out = ''done with error''" by (rule main_returns)
next
  assume "request = None \<or> (\<exists>rj. request = Some rj \<and> validate_json rj = Inr False)"
  then show "main e request tr = (Inr ''done with error'', tr)" by (rule main_rejects)
next
  assume "main e request tr = (Inl err, tr')"
  then show "\<exists>rj policy instances x tr0. request = Some rj \<and>
         py_get rj ''retention_policy'' PNone = Inr (PStr policy) \<and>
         py_getitem rj ''instances'' = Inr (PList instances) \<and> x \<in> set instances \<and>
         process_instance e policy x tr0 = (Inl err, tr')"
    by (rule main_raises_from_instance)
next
  assume "validate_json rj = Inr True \<and>
    py_get rj ''retention_policy'' PNone = Inr (PStr policy) \<and>
    py_getitem rj ''instances'' = Inr (PList instances) \<and>
    (\<forall>x \<in> set instances. \<forall>tr0. \<exists>tr1. process_instance e policy x tr0 = (Inr (), tr1))"
  then show "\<exists>tr1. main e (Some rj) tr = (Inr ''done'', tr1)"
    using main_done[of rj policy instances e tr] by blast
next
  assume "(case map_of kvs ''instance_path'' of None \<Rightarrow> True | Some p \<Rightarrow> \<not> py_bool p) \<or>
    (case map_of kvs ''snapshots'' of None \<Rightarrow> True
     | Some s \<Rightarrow> \<not> py_bool s \<or>
         (\<exists>n. py_int s = Inr n \<and> (n \<le> 0 \<or> MAX_NUMBER_OF_SNAPSHOTS < n)))"
  then show "validate_instance_input (PDict kvs) = Inr False"
    by (rule validate_instance_input_rejects)
next
  assume "validate_instance_input x = Inr False"
  then show "process_instance e policy x tr = (Inr (), tr)" by (rule process_instance_skip)
next
  assume "validate_instance_input x = Inr False"
  then show "process_instances e policy (xs @ x # ys) tr = process_instances e policy (xs @ ys) tr"
    by (rule process_instances_skip)
next
  assume "validate_json rj = Inr True \<and>
    py_get rj ''retention_policy'' PNone = Inr (PStr policy) \<and>
    py_getitem rj ''instances'' = Inr (PList (xs @ x # ys)) \<and>
    process_instances e policy xs tr = (Inr (), tr1) \<and>
    process_instance e policy x tr1 = (Inl err, tr2)"
  then show "main e (Some rj) tr = (Inl err, tr2)"
    using main_raises_at[of rj policy xs x ys e tr tr1 err tr2] by blast
next
  assume "validate_instance_input x = Inr True \<and> init e x policy tr = (Inl err, tr1)"
  then show "process_instance e policy x tr =
        (if err = InstanceNotFoundError then Inr () else Inl err, tr1)"
    using process_instance_passes_on(1)[of x e policy tr err tr1] by blast
next
  assume "validate_instance_input x = Inr True \<and> init e x policy tr = (Inr filer, tr1) \<and>
    validate_instance_requirements filer = Inl err"
  then show "process_instance e policy x tr = (Inl err, tr1)"
    using process_instance_passes_on(2)[of x e policy tr filer tr1 err] by blast
next
  assume "validate_instance_input x = Inr True \<and> init e x policy tr = (Inr filer, tr1) \<and>
    validate_instance_requirements filer = Inr True \<and>
    increment_retention e \<lparr>self = filer, trace = tr1\<rparr> = (Inl err, w2)"
  then show "process_instance e policy x tr = (Inl err, trace w2)"
    using process_instance_passes_on(3)[of x e policy tr filer tr1 err w2] by blast
qed

theorem main_outcomes_and_skipping_witness:
  "main (sample_env two_snapshots operation_succeeded) None [] = (Inr ''done with error'', []) \<and>
   main (sample_env two_snapshots operation_succeeded) (Some (request_of ''daily'' [])) []
     = (Inr ''done with error'', []) \<and>
   (\<exists>x tr0. x \<in> set [sample_instance_data (PInt 2)] \<and>
      process_instance refresh_error_env ''daily'' x tr0 =
        (Inl (OtherException ''RefreshError''),
         [Request BuildClient, Call GetInstanceOp,
          Request (GetInstance ''projects/p/locations/l/instances/i'')])) \<and>
   (\<exists>tr1. main (sample_env two_snapshots operation_succeeded)
       (Some (request_of ''daily'' [sample_instance_data (PInt 0)])) [] = (Inr ''done'', tr1)) \<and>
   validate_instance_input (sample_instance_data (PInt 0)) = Inr False \<and>
   validate_instance_input (sample_instance_data (PInt 241)) = Inr False \<and>
   process_instances (sample_env two_snapshots operation_succeeded) ''daily''
       [sample_instance_data (PInt 0), sample_instance_data (PInt 2)] [] =
     process_instances (sample_env two_snapshots operation_succeeded) ''daily''
       [sample_instance_data (PInt 2)] [] \<and>
   main refresh_error_env
       (Some (request_of ''daily''
                [sample_instance_data (PInt 0), sample_instance_data (PInt 2),
                 sample_instance_data (PInt 1)])) []
     = (Inl (OtherException ''RefreshError''),
        [Request BuildClient, Call GetInstanceOp,
         Request (GetInstance ''projects/p/locations/l/instances/i'')]) \<and>
   fst (process_instance timeout_env ''daily'' (sample_instance_data (PInt 2)) []) = Inr ()"
proof -
  let ?e = "sample_env two_snapshots operation_succeeded"
  have c1: "main ?e None [] = (Inr ''done with error'', [])"
    using main_outcomes_and_skipping[of ?e None "[]"] by simp
  have c2: "main ?e (Some (request_of ''daily'' [])) [] = (Inr ''done with error'', [])"
    using main_outcomes_and_skipping[of ?e "Some (request_of ''daily'' [])" "[]"]
    by (simp add: sample_validate_json)
  have "main refresh_error_env (Some (request_of ''daily'' [sample_instance_data (PInt 2)])) []
     = (Inl (OtherException ''RefreshError''),
        [Request BuildClient,
         Call GetInstanceOp, Request (GetInstance ''projects/p/locations/l/instances/i'')])"
    by (simp add: main_def sample_validate_json refresh_error_process_instance)
      (simp add: request_of_def refresh_error_process_instance)
  with main_outcomes_and_skipping[of refresh_error_env
      "Some (request_of ''daily'' [sample_instance_data (PInt 2)])" "[]" _ _
      "OtherException ''RefreshError''"]
  have c3: "\<exists>x tr0. x \<in> set [sample_instance_data (PInt 2)] \<and>
      process_instance refresh_error_env ''daily'' x tr0 =
        (Inl (OtherException ''RefreshError''),
         [Request BuildClient, Call GetInstanceOp,
          Request (GetInstance ''projects/p/locations/l/instances/i'')])"
    by (simp add: request_of_def)
  have v0: "validate_instance_input (sample_instance_data (PInt 0)) = Inr False"
    using main_outcomes_and_skipping[where
        kvs = "[(''instance_path'', PStr ''/projects/p/locations/l/instances/i/''),
                (''snapshots'', PInt 0)]"]
    by (simp add: sample_instance_data_def)
  have v241: "validate_instance_input (sample_instance_data (PInt 241)) = Inr False"
    using main_outcomes_and_skipping[where
        kvs = "[(''instance_path'', PStr ''/projects/p/locations/l/instances/i/''),
                (''snapshots'', PInt 241)]"]
    by (simp add: sample_instance_data_def MAX_NUMBER_OF_SNAPSHOTS_def)
  have skip: "process_instance ?e ''daily'' (sample_instance_data (PInt 0)) tr0 = (Inr (), tr0)"
    for tr0
    using main_outcomes_and_skipping[where x = "sample_instance_data (PInt 0)" and e = ?e
        and policy = "''daily''" and tr = tr0] v0 by blast
  have c4: "\<exists>tr1. main ?e (Some (request_of ''daily'' [sample_instance_data (PInt 0)])) []
      = (Inr ''done'', tr1)"
    using main_outcomes_and_skipping[where rj = "request_of ''daily'' [sample_instance_data (PInt 0)]"
        and policy = "''daily''" and instances = "[sample_instance_data (PInt 0)]" and e = ?e
        and tr = "[]"] skip
    by (simp add: sample_validate_json) (simp add: request_of_def)
  have c6: "process_instances ?e ''daily''
       [sample_instance_data (PInt 0), sample_instance_data (PInt 2)] [] =
     process_instances ?e ''daily'' [sample_instance_data (PInt 2)] []"
    using main_outcomes_and_skipping[where x = "sample_instance_data (PInt 0)" and e = ?e
        and policy = "''daily''" and tr = "[]" and xs = "[]"
        and ys = "[sample_instance_data (PInt 2)]"] v0
    by simp
  have skipr: "process_instances refresh_error_env ''daily'' [sample_instance_data (PInt 0)] []
      = (Inr (), [])"
    using main_outcomes_and_skipping[where x = "sample_instance_data (PInt 0)"
        and e = refresh_error_env and policy = "''daily''" and tr = "[]"] v0
    by simp
  have c7: "main refresh_error_env
       (Some (request_of ''daily''
                [sample_instance_data (PInt 0), sample_instance_data (PInt 2),
                 sample_instance_data (PInt 1)])) []
     = (Inl (OtherException ''RefreshError''),
        [Request BuildClient, Call GetInstanceOp,
         Request (GetInstance ''projects/p/locations/l/instances/i'')])"
    using main_outcomes_and_skipping[where
        rj = "request_of ''daily''
                [sample_instance_data (PInt 0), sample_instance_data (PInt 2),
                 sample_instance_data (PInt 1)]"
        and policy = "''daily''" and xs = "[sample_instance_data (PInt 0)]"
        and x = "sample_instance_data (PInt 2)" and ys = "[sample_instance_data (PInt 1)]"
        and e = refresh_error_env and tr = "[]" and ?tr1.0 = "[]"
        and err = "OtherException ''RefreshError''"
        and ?tr2.0 = "[Request BuildClient, Call GetInstanceOp,
                      Request (GetInstance ''projects/p/locations/l/instances/i'')]"]
      skipr refresh_error_process_instance[of 2 "[]"]
    by (simp add: sample_validate_json) (simp add: request_of_def)
  have c8: "fst (process_instance timeout_env ''daily'' (sample_instance_data (PInt 2)) []) = Inr ()"
    using main_outcomes_and_skipping[where x = "sample_instance_data (PInt 2)"
        and e = timeout_env and policy = "''daily''" and tr = "[]"
        and err = InstanceNotFoundError
        and ?tr1.0 = "snd (init timeout_env (sample_instance_data (PInt 2)) ''daily'' [])"]
      timeout_init
    by (simp add: sample_validate_instance_input)
  from c1 c2 c3 c4 v0 v241 c6 c7 c8 show ?thesis by (intro conjI)
qed

subsection \<open>A listing that runs out of attempts\<close>

lemma list_timeout_build:
  "filestore_build list_timeout_env w =
     (Inr PNone, w\<lparr>trace := trace w @ [Request BuildClient]\<rparr>)"
  by (simp add: filestore_build_def execute_def list_timeout_env_def sample_service_def emit_def)

lemma list_timeout_get_instance:
  "get_instance list_timeout_env w =
     (Inr ready_instance,
      w\<lparr>trace := trace w @ [Call GetInstanceOp, Request (GetInstance (url (self w)))]\<rparr>)"
  by (simp add: get_instance_def retry_def retry_wrapper.simps MAX_RETRIES_def
      get_instance_func_def execute_def list_timeout_env_def sample_service_def emit_def)

lemma list_timeout_list_snapshots:
  "list_snapshots list_timeout_env w =
     (Inr PNone,
      w\<lparr>trace := trace w @
         [Call ListSnapshotsOp, Request (ListSnapshots (url (self w))), RetrySleep 2,
          Request (ListSnapshots (url (self w))), RetrySleep 4,
          Request (ListSnapshots (url (self w))), RetrySleep 8]\<rparr>)"
  by (simp add: list_snapshots_def retry_def retry_wrapper.simps MAX_RETRIES_def
      list_snapshots_func_def execute_def list_timeout_env_def emit_def eval_nat_numeral)

lemma list_timeout_init:
  "init list_timeout_env (sample_instance_data (PInt n)) ''daily'' tr =
     (Inl TypeError,
      tr @ [Request BuildClient,
            Call GetInstanceOp, Request (GetInstance ''projects/p/locations/l/instances/i''),
            Call ListSnapshotsOp,
            Request (ListSnapshots ''projects/p/locations/l/instances/i''), RetrySleep 2,
            Request (ListSnapshots ''projects/p/locations/l/instances/i''), RetrySleep 4,
            Request (ListSnapshots ''projects/p/locations/l/instances/i''), RetrySleep 8])"
  by (simp add: init_def Let_def sample_instance_data_def sample_resource_names
      list_timeout_build list_timeout_get_instance list_timeout_list_snapshots
      ready_instance_truthy get_scheduler_snapshots_list_def)

text \<open>
  C7. Evaluation at a service whose requests for the list of snapshots all time out.
  The decorated \<open>list_snapshots\<close> sends \<open>MAX_RETRIES = 3\<close> requests, sleeps 2, 4 and 8
  seconds and returns \<open>None\<close>. The constructor, which raises
  \<open>InstanceNotFoundError\<close> when \<open>get_instance\<close> returned \<open>None\<close>, assigns this
  \<open>None\<close> to \<open>snapshots\<close> unchecked; \<open>get_scheduler_snapshots_list\<close> iterates over it
  and raises \<open>TypeError\<close>, which leaves \<open>main\<close>: in a batch of two instances the
  second is not processed.
\<close>

theorem list_snapshots_exhausted_raises:
  "list_snapshots list_timeout_env \<lparr>self = sample_instance 2, trace = []\<rparr> =
     (Inr PNone,
      \<lparr>self = sample_instance 2,
       trace = [Call ListSnapshotsOp,
                Request (ListSnapshots ''projects/p/locations/l/instances/i''), RetrySleep 2,
                Request (ListSnapshots ''projects/p/locations/l/instances/i''), RetrySleep 4,
                Request (ListSnapshots ''projects/p/locations/l/instances/i''), RetrySleep 8]\<rparr>) \<and>
   init list_timeout_env (sample_instance_data (PInt 2)) ''daily'' [] =
     (Inl TypeError,
      [Request BuildClient,
       Call GetInstanceOp, Request (GetInstance ''projects/p/locations/l/instances/i''),
       Call ListSnapshotsOp,
       Request (ListSnapshots ''projects/p/locations/l/instances/i''), RetrySleep 2,
       Request (ListSnapshots ''projects/p/locations/l/instances/i''), RetrySleep 4,
       Request (ListSnapshots ''projects/p/locations/l/instances/i''), RetrySleep 8]) \<and>
   main list_timeout_env
       (Some (request_of ''daily''
                [sample_instance_data (PInt 2), sample_instance_data (PInt 2)])) [] =
     (Inl TypeError,
      [Request BuildClient,
       Call GetInstanceOp, Request (GetInstance ''projects/p/locations/l/instances/i''),
       Call ListSnapshotsOp,
       Request (ListSnapshots ''projects/p/locations/l/instances/i''), RetrySleep 2,
       Request (ListSnapshots ''projects/p/locations/l/instances/i''), RetrySleep 4,
       Request (ListSnapshots ''projects/p/locations/l/instances/i''), RetrySleep 8])"
proof -
  have p: "process_instance list_timeout_env ''daily'' (sample_instance_data (PInt 2)) [] =
     (Inl TypeError,
      [Request BuildClient,
       Call GetInstanceOp, Request (GetInstance ''projects/p/locations/l/instances/i''),
       Call ListSnapshotsOp,
       Request (ListSnapshots ''projects/p/locations/l/instances/i''), RetrySleep 2,
       Request (ListSnapshots ''projects/p/locations/l/instances/i''), RetrySleep 4,
       Request (ListSnapshots ''projects/p/locations/l/instances/i''), RetrySleep 8])"
    by (simp add: process_instance_def sample_validate_instance_input sample_instance_path
        list_timeout_init)
  have m: "main list_timeout_env
       (Some (request_of ''daily''
                [sample_instance_data (PInt 2), sample_instance_data (PInt 2)])) [] =
     (Inl TypeError,
      [Request BuildClient,
       Call GetInstanceOp, Request (GetInstance ''projects/p/locations/l/instances/i''),
       Call ListSnapshotsOp,
       Request (ListSnapshots ''projects/p/locations/l/instances/i''), RetrySleep 2,
       Request (ListSnapshots ''projects/p/locations/l/instances/i''), RetrySleep 4,
       Request (ListSnapshots ''projects/p/locations/l/instances/i''), RetrySleep 8])"
    by (simp add: main_def sample_validate_json p) (simp add: request_of_def p)
  have l: "list_snapshots list_timeout_env \<lparr>self = sample_instance 2, trace = []\<rparr> =
     (Inr PNone,
      \<lparr>self = sample_instance 2,
       trace = [Call ListSnapshotsOp,
                Request (ListSnapshots ''projects/p/locations/l/instances/i''), RetrySleep 2,
                Request (ListSnapshots ''projects/p/locations/l/instances/i''), RetrySleep 4,
                Request (ListSnapshots ''projects/p/locations/l/instances/i''), RetrySleep 8]\<rparr>)"
    by (simp add: list_timeout_list_snapshots) (simp add: sample_instance_def)
  from l list_timeout_init[of 2 "[]"] m show ?thesis by simp
qed

end
